(* ===== verification/Prelude.thy ===== *)
theory Prelude
  imports Main "HOL-Library.Word" "HOL-Library.Sublist"
begin

text \<open>
  What every component shares: the outcome of a Rust computation that may panic, \<open>usize\<close>
  arithmetic of the development profile (overflow checks on), searching in byte slices, slicing,
  and numbers in a radix with their parsers and printers (\<open>from_str_radix\<close>, \<open>parse\<close>,
  \<open>to_string\<close>, \<open>{:016x}\<close>). A byte is a \<^typ>\<open>char\<close> (8 bits), a byte vector and
  a Rust string are lists of bytes (a Rust \<open>str\<close> is its UTF-8 encoding).
\<close>

section \<open>Fact collections and types\<close>

named_theorems exec_simps \<open>evaluation rules for computations that may panic\<close>
named_theorems str_simps \<open>rewrite rules for the string library on concrete shapes\<close>

type_synonym byte = char
type_synonym bytes = "char list"

abbreviation CR :: char where "CR \<equiv> CHR 0x0D"
abbreviation LF :: char where "LF \<equiv> CHR 0x0A"
abbreviation crlf :: bytes where "crlf \<equiv> [CR, LF]"

abbreviation bval :: "char \<Rightarrow> nat" where "bval c \<equiv> of_char c"

section \<open>Computations that may panic\<close>

datatype 'a exec = Ret 'a | Panic

fun exec_bind :: "'a exec \<Rightarrow> ('a \<Rightarrow> 'b exec) \<Rightarrow> 'b exec" where
  "exec_bind (Ret x) f = f x"
| "exec_bind Panic f = Panic"

lemma exec_bind_eq_Ret [exec_simps]:
  "exec_bind m f = Ret y \<longleftrightarrow> (\<exists>x. m = Ret x \<and> f x = Ret y)"
  by (cases m) auto

lemma exec_bind_eq_Panic [exec_simps]:
  "exec_bind m f = Panic \<longleftrightarrow> m = Panic \<or> (\<exists>x. m = Ret x \<and> f x = Panic)"
  by (cases m) auto

text \<open>The \<open>?\<close> operator on a result: an error (left) ends the computation.\<close>

fun sum_bind :: "'e + 'a \<Rightarrow> ('a \<Rightarrow> 'e + 'b) \<Rightarrow> 'e + 'b" where
  "sum_bind (Inl e) f = Inl e"
| "sum_bind (Inr x) f = f x"

lemma sum_bind_cong [fundef_cong]:
  "m = m' \<Longrightarrow> (\<And>x. m' = Inr x \<Longrightarrow> f x = g x) \<Longrightarrow> sum_bind m f = sum_bind m' g"
  by (cases m') auto

lemma sum_bind_eq_Inr [exec_simps]:
  "sum_bind m f = Inr y \<longleftrightarrow> (\<exists>x. m = Inr x \<and> f x = Inr y)"
  by (cases m) auto

definition usize_bound :: nat where
  "usize_bound = 2 ^ 64"

text \<open>Addition and multiplication on \<open>usize\<close> (64 bits), with the overflow checks of the dev
  profile that \<open>cargo run\<close> and \<open>cargo test\<close> use.\<close>

definition usize_add :: "nat \<Rightarrow> nat \<Rightarrow> nat exec" where
  "usize_add a b = (if a + b < usize_bound then Ret (a + b) else Panic)"

definition usize_mul :: "nat \<Rightarrow> nat \<Rightarrow> nat exec" where
  "usize_mul a b = (if a * b < usize_bound then Ret (a * b) else Panic)"

text \<open>The same addition without the checks (\<open>cargo build --release\<close>).\<close>

definition usize_wrapping_add :: "nat \<Rightarrow> nat \<Rightarrow> nat" where
  "usize_wrapping_add a b = (a + b) mod usize_bound"

text \<open>\<open>&data[i..]\<close> and \<open>&data[i..j]\<close>: out-of-range or inverted bounds panic.\<close>

definition slice_from :: "'a list \<Rightarrow> nat \<Rightarrow> 'a list exec" where
  "slice_from xs i = (if i \<le> length xs then Ret (drop i xs) else Panic)"

definition slice :: "'a list \<Rightarrow> nat \<Rightarrow> nat \<Rightarrow> 'a list exec" where
  "slice xs i j = (if i \<le> j \<and> j \<le> length xs then Ret (take (j - i) (drop i xs)) else Panic)"

section \<open>Searching for a pattern\<close>

text \<open>\<open>xs.windows(n).position(|w| w == pat)\<close> with \<open>n = pat.len() > 0\<close>.\<close>

fun find_sub :: "'a list \<Rightarrow> 'a list \<Rightarrow> nat option" where
  "find_sub pat [] = None"
| "find_sub pat (x # xs) =
     (if prefix pat (x # xs) then Some 0 else map_option Suc (find_sub pat xs))"

lemma find_sub_split:
  "find_sub pat xs = Some i \<Longrightarrow> xs = take i xs @ pat @ drop (i + length pat) xs"
proof (induction xs arbitrary: i)
  case Nil
  then show ?case by simp
next
  case (Cons x xs)
  then show ?case by (auto simp: prefix_def split: if_splits)
qed

lemma find_sub_bound: "find_sub pat xs = Some i \<Longrightarrow> i + length pat \<le> length xs"
proof (induction xs arbitrary: i)
  case Nil
  then show ?case by simp
next
  case (Cons x xs)
  then show ?case by (auto dest: prefix_length_le split: if_splits)
qed

lemma find_sub_least:
  "find_sub pat xs = Some i \<Longrightarrow> j < i \<Longrightarrow> \<not> prefix pat (drop j xs)"
proof (induction xs arbitrary: i j)
  case Nil
  then show ?case by simp
next
  case (Cons x xs)
  then show ?case by (cases j) (auto split: if_splits)
qed

lemma find_sub_None_iff:
  "pat \<noteq> [] \<Longrightarrow> find_sub pat xs = None \<longleftrightarrow> \<not> sublist pat xs"
proof (induction xs)
  case Nil
  then show ?case by simp
next
  case (Cons x xs)
  then show ?case by (auto simp: sublist_Cons_right)
qed

text \<open>The first match is at \<open>length ys\<close> when no match starts earlier.\<close>

lemma find_sub_at:
  assumes "pat \<noteq> []" and "\<And>j. j < length ys \<Longrightarrow> \<not> prefix pat (drop j (ys @ pat @ zs))"
  shows "find_sub pat (ys @ pat @ zs) = Some (length ys)"
  using assms(2)
proof (induction ys)
  case Nil
  with assms(1) show ?case by (cases pat) auto
next
  case (Cons y ys)
  have "\<not> prefix pat (y # ys @ pat @ zs)"
    using Cons.prems [of 0] by simp
  moreover have "find_sub pat (ys @ pat @ zs) = Some (length ys)"
    using Cons.prems [of "Suc j" for j] by (intro Cons.IH) simp
  ultimately show ?case by simp
qed

lemma find_sub_fresh_head:
  assumes "c \<notin> set ys"
  shows "find_sub (c # pat) (ys @ (c # pat) @ zs) = Some (length ys)"
  using assms by (induction ys) auto

section \<open>Numbers in a radix\<close>

text \<open>\<open>char::to_digit(radix)\<close> for radix up to 16.\<close>

definition digit_val :: "nat \<Rightarrow> char \<Rightarrow> nat option" where
  "digit_val r c =
     (let b = bval c;
          v = (if 48 \<le> b \<and> b \<le> 57 then b - 48
               else if 97 \<le> b \<and> b \<le> 102 then b - 87
               else if 65 \<le> b \<and> b \<le> 70 then b - 55 else 16)
      in if v < r \<and> v < 16 then Some v else None)"

fun digits_val :: "nat \<Rightarrow> nat \<Rightarrow> nat \<Rightarrow> string \<Rightarrow> nat option" where
  "digits_val r B acc [] = Some acc"
| "digits_val r B acc (c # cs) =
     (case digit_val r c of
        None \<Rightarrow> None
      | Some d \<Rightarrow> if acc * r + d < B then digits_val r B (acc * r + d) cs else None)"

text \<open>
  \<open>T::from_str_radix(s, r)\<close> for an unsigned type with \<open>B\<close> values, \<open>Err\<close> as
  \<^const>\<open>None\<close>: one leading \<open>+\<close> is accepted, an empty string, a lone sign, any other
  character and an overflow are errors.
\<close>

definition from_str_radix :: "nat \<Rightarrow> nat \<Rightarrow> string \<Rightarrow> nat option" where
  "from_str_radix r B s =
     (if s = [] then None
      else if hd s = CHR ''+'' then (if tl s = [] then None else digits_val r B 0 (tl s))
      else digits_val r B 0 s)"

abbreviation parse_u16 :: "string \<Rightarrow> nat option" where
  "parse_u16 \<equiv> from_str_radix 10 65536"

abbreviation parse_usize :: "string \<Rightarrow> nat option" where
  "parse_usize \<equiv> from_str_radix 10 usize_bound"

definition digit_char :: "nat \<Rightarrow> char" where
  "digit_char d = ''0123456789abcdef'' ! d"

fun show_radix :: "nat \<Rightarrow> nat \<Rightarrow> string" where
  "show_radix r n =
     (if n < r \<or> r < 2 then [digit_char n]
      else show_radix r (n div r) @ [digit_char (n mod r)])"

declare show_radix.simps [simp del]

abbreviation show_nat :: "nat \<Rightarrow> string" where
  "show_nat \<equiv> show_radix 10"

text \<open>\<open>format!("{:016x}", n)\<close>: lower-case hexadecimal, padded with zeros to 16 digits.\<close>

definition show_hex16 :: "nat \<Rightarrow> string" where
  "show_hex16 n = (let s = show_radix 16 n in replicate (16 - length s) CHR ''0'' @ s)"

lemma less16_cases:
  assumes "(d::nat) < 16"
  obtains "d = 0" | "d = 1" | "d = 2" | "d = 3" | "d = 4" | "d = 5" | "d = 6" | "d = 7"
    | "d = 8" | "d = 9" | "d = 10" | "d = 11" | "d = 12" | "d = 13" | "d = 14" | "d = 15"
  using assms by (auto simp: less_Suc_eq numeral_eq_Suc)

lemma digit_char_bval:
  "d < 16 \<Longrightarrow> bval (digit_char d) = (if d < 10 then 48 + d else 87 + d)"
  by (erule less16_cases) (simp_all add: digit_char_def)

lemma digit_val_digit_char [simp]:
  "d < r \<Longrightarrow> r \<le> 16 \<Longrightarrow> digit_val r (digit_char d) = Some d"
  by (auto simp: digit_val_def digit_char_bval)

lemma digit_char_not_plus: "d < 16 \<Longrightarrow> digit_char d \<noteq> CHR ''+''"
  by (erule less16_cases) (simp_all add: digit_char_def)

lemma show_radix_nonempty [simp]: "show_radix r n \<noteq> []"
  by (subst show_radix.simps) simp

lemma set_show_radix:
  "2 \<le> r \<Longrightarrow> set (show_radix r n) \<subseteq> digit_char ` {..<r}"
proof (induction r n rule: show_radix.induct)
  case (1 r n)
  then show ?case
    by (subst show_radix.simps) auto
qed

lemma digits_val_append:
  "digits_val r B a (xs @ ys) =
     (case digits_val r B a xs of None \<Rightarrow> None | Some v \<Rightarrow> digits_val r B v ys)"
  by (induction xs arbitrary: a) (auto split: option.splits)

lemma digits_val_show_radix:
  "2 \<le> r \<Longrightarrow> r \<le> 16 \<Longrightarrow> n < B \<Longrightarrow> digits_val r B 0 (show_radix r n) = Some n"
proof (induction r n rule: show_radix.induct)
  case (1 r n)
  show ?case
  proof (cases "n < r")
    case True
    with "1.prems" show ?thesis by (subst show_radix.simps) simp
  next
    case False
    have "n div r < B" using "1.prems" by (meson div_le_dividend le_less_trans)
    with False "1.prems" "1.IH" have "digits_val r B 0 (show_radix r (n div r)) = Some (n div r)"
      by simp
    with False "1.prems" show ?thesis
      by (subst show_radix.simps) (simp add: digits_val_append mult.commute)
  qed
qed

text \<open>Printing and parsing back is the identity.\<close>

lemma from_str_radix_show [simp]:
  assumes "2 \<le> r" "r \<le> 16" "n < B"
  shows "from_str_radix r B (show_radix r n) = Some n"
proof -
  have "hd (show_radix r n) \<in> digit_char ` {..<r}"
    using set_show_radix [OF assms(1), of n] hd_in_set [OF show_radix_nonempty [of r n]] by blast
  then obtain d where "d < r" "hd (show_radix r n) = digit_char d"
    by auto
  then have "hd (show_radix r n) \<noteq> CHR ''+''"
    using assms(2) digit_char_not_plus [of d] by simp
  with assms show ?thesis
    by (simp add: from_str_radix_def digits_val_show_radix)
qed

lemma show_radix_inj:
  assumes "2 \<le> r" "r \<le> 16" "show_radix r m = show_radix r n"
  shows "m = n"
proof -
  let ?B = "m + n + 1"
  have "digits_val r ?B 0 (show_radix r m) = Some m" "digits_val r ?B 0 (show_radix r n) = Some n"
    using assms(1,2) by (simp_all add: digits_val_show_radix)
  with assms(3) show ?thesis by simp
qed

lemma from_str_radix_bound: "from_str_radix r B s = Some n \<Longrightarrow> 0 < B \<Longrightarrow> n < B"
proof -
  have "digits_val r B a t = Some n \<Longrightarrow> a < B \<Longrightarrow> n < B" for a t
    by (induction t arbitrary: a) (auto split: option.splits if_splits)
  then show "from_str_radix r B s = Some n \<Longrightarrow> 0 < B \<Longrightarrow> n < B"
    by (auto simp: from_str_radix_def split: if_splits)
qed

lemma digits_val_zeros: "0 < B \<Longrightarrow> 2 \<le> r \<Longrightarrow> digits_val r B 0 (replicate k CHR ''0'' @ s) = digits_val r B 0 s"
  by (induction k) (auto simp: digit_val_def)

lemma show_hex16_inj:
  assumes "show_hex16 m = show_hex16 n"
  shows "m = n"
proof -
  let ?B = "m + n + 1"
  have "digits_val 16 ?B 0 (show_hex16 k) = Some k" if "k < ?B" for k
    using that by (simp add: show_hex16_def Let_def digits_val_zeros digits_val_show_radix)
  then have "digits_val 16 ?B 0 (show_hex16 m) = Some m" "digits_val 16 ?B 0 (show_hex16 n) = Some n"
    by simp_all
  with assms show ?thesis by simp
qed

end
