(* ===== verification/Rust_Str.thy ===== *)
theory Rust_Str
  imports Prelude
begin

text \<open>
  The part of Rust's \<open>str\<close> and \<open>String\<close> that the server uses, over UTF-8 bytes:
  characters as their encodings, Unicode white space, \<open>trim\<close>, \<open>lines\<close>, \<open>split\<close>,
  \<open>split_once\<close>, \<open>split_whitespace\<close>, \<open>to_lowercase\<close>, \<open>from_utf8_lossy\<close> and
  \<open>from_utf8\<close>. \<open>starts_with\<close>, \<open>ends_with\<close> and \<open>len\<close> are the byte-list
  operations \<^const>\<open>prefix\<close>, \<^const>\<open>suffix\<close> and \<^const>\<open>length\<close>, as they are in Rust.
\<close>

section \<open>Characters of a string\<close>

definition utf8_width :: "char \<Rightarrow> nat" where
  "utf8_width b =
     (let v = bval b in if v < 192 then 1 else if v < 224 then 2 else if v < 240 then 3 else 4)"

lemma utf8_width_pos [simp]: "0 < utf8_width b" "utf8_width b \<noteq> 0"
  by (simp_all add: utf8_width_def Let_def)

lemma utf8_width_ascii [simp]: "bval b < 128 \<Longrightarrow> utf8_width b = 1"
  by (simp add: utf8_width_def)

text \<open>\<open>s.chars()\<close>, each character given by its encoding.\<close>

function chars :: "string \<Rightarrow> string list" where
  "chars [] = []"
| "chars (b # bs) = take (utf8_width b) (b # bs) # chars (drop (utf8_width b) (b # bs))"
  by pat_completeness auto
termination
  by (relation "measure length") (auto simp: utf8_width_def Let_def)

declare chars.simps(2) [simp del]

text \<open>No character is cut off at the end: true of every valid UTF-8 string.\<close>

definition wf_str :: "string \<Rightarrow> bool" where
  "wf_str s \<longleftrightarrow> (\<forall>c \<in> set (chars s). length c = utf8_width (hd c))"

definition ascii :: "string \<Rightarrow> bool" where
  "ascii s \<longleftrightarrow> (\<forall>c \<in> set s. bval c < 128)"

lemma ascii_simps [simp]:
  "ascii []" "ascii (c # s) \<longleftrightarrow> bval c < 128 \<and> ascii s" "ascii (s @ t) \<longleftrightarrow> ascii s \<and> ascii t"
  by (auto simp: ascii_def)

lemma concat_chars [simp]: "concat (chars s) = s"
  by (induction s rule: chars.induct) (simp_all add: chars.simps(2))

lemma chars_eq_Nil [simp]: "chars s = [] \<longleftrightarrow> s = []"
  by (cases s) (simp_all add: chars.simps(2))

lemma chars_nonempty: "c \<in> set (chars s) \<Longrightarrow> c \<noteq> []"
  by (induction s rule: chars.induct) (auto simp: chars.simps(2))

lemma chars_ascii_Cons [simp]: "bval b < 128 \<Longrightarrow> chars (b # bs) = [b] # chars bs"
  by (simp add: chars.simps(2))

lemma chars_ascii: "ascii s \<Longrightarrow> chars s = map (\<lambda>c. [c]) s"
  by (induction s) auto

lemma ascii_wf_str [simp]: "ascii s \<Longrightarrow> wf_str s"
  by (auto simp: wf_str_def chars_ascii ascii_def)

lemma wf_str_Nil [simp]: "wf_str []"
  by (simp add: wf_str_def)

lemma wf_str_Cons:
  "wf_str (b # bs) \<longleftrightarrow> utf8_width b \<le> length (b # bs) \<and> wf_str (drop (utf8_width b) (b # bs))"
proof -
  have "hd (take (utf8_width b) (b # bs)) = b"
    by (cases "utf8_width b") simp_all
  then show ?thesis
    by (auto simp: wf_str_def chars.simps(2) min_def)
qed

lemma chars_append [simp]: "wf_str s \<Longrightarrow> chars (s @ t) = chars s @ chars t"
proof (induction s rule: chars.induct)
  case 1
  then show ?case by simp
next
  case (2 b bs)
  have w: "utf8_width b \<le> length (b # bs)" and r: "wf_str (drop (utf8_width b) (b # bs))"
    using "2.prems" by (simp_all only: wf_str_Cons)
  from w have "take (utf8_width b) (b # bs @ t) = take (utf8_width b) (b # bs)"
    and d: "drop (utf8_width b) (b # bs @ t) = drop (utf8_width b) (b # bs) @ t"
    by (simp_all flip: append_Cons)
  with "2.IH" [OF r] show ?case
    by (simp add: chars.simps(2))
qed

lemma wf_str_append [simp]: "wf_str s \<Longrightarrow> wf_str (s @ t) \<longleftrightarrow> wf_str t"
  by (auto simp: wf_str_def)

section \<open>White space and trimming\<close>

text \<open>\<open>char::is_whitespace\<close>: the 25 characters with the Unicode property White_Space.\<close>

definition whitespace_chars :: "string list" where
  "whitespace_chars =
     [[CHR 0x09], [CHR 0x0A], [CHR 0x0B], [CHR 0x0C], [CHR 0x0D], [CHR 0x20],
      [CHR 0xC2, CHR 0x85], [CHR 0xC2, CHR 0xA0], [CHR 0xE1, CHR 0x9A, CHR 0x80],
      [CHR 0xE2, CHR 0x80, CHR 0x80], [CHR 0xE2, CHR 0x80, CHR 0x81],
      [CHR 0xE2, CHR 0x80, CHR 0x82], [CHR 0xE2, CHR 0x80, CHR 0x83],
      [CHR 0xE2, CHR 0x80, CHR 0x84], [CHR 0xE2, CHR 0x80, CHR 0x85],
      [CHR 0xE2, CHR 0x80, CHR 0x86], [CHR 0xE2, CHR 0x80, CHR 0x87],
      [CHR 0xE2, CHR 0x80, CHR 0x88], [CHR 0xE2, CHR 0x80, CHR 0x89],
      [CHR 0xE2, CHR 0x80, CHR 0x8A], [CHR 0xE2, CHR 0x80, CHR 0xA8],
      [CHR 0xE2, CHR 0x80, CHR 0xA9], [CHR 0xE2, CHR 0x80, CHR 0xAF],
      [CHR 0xE2, CHR 0x81, CHR 0x9F], [CHR 0xE3, CHR 0x80, CHR 0x80]]"

definition is_whitespace :: "string \<Rightarrow> bool" where
  "is_whitespace c \<longleftrightarrow> c \<in> set whitespace_chars"

lemma is_whitespace_ascii [simp]:
  "is_whitespace [c] \<longleftrightarrow>
     c = CHR 0x09 \<or> c = CHR 0x0A \<or> c = CHR 0x0B \<or> c = CHR 0x0C \<or> c = CHR 0x0D \<or> c = CHR 0x20"
  by (simp add: is_whitespace_def whitespace_chars_def)

definition trim_start :: "string \<Rightarrow> string" where
  "trim_start s = concat (dropWhile is_whitespace (chars s))"

definition trim_end :: "string \<Rightarrow> string" where
  "trim_end s = concat (rev (dropWhile is_whitespace (rev (chars s))))"

definition trim :: "string \<Rightarrow> string" where
  "trim s = trim_end (trim_start s)"

text \<open>A string with no white space anywhere, and one with none at its two ends.\<close>

definition no_ws :: "string \<Rightarrow> bool" where
  "no_ws s \<longleftrightarrow> (\<forall>c \<in> set (chars s). \<not> is_whitespace c)"

definition trimmed :: "string \<Rightarrow> bool" where
  "trimmed s \<longleftrightarrow>
     s = [] \<or> (\<not> is_whitespace (hd (chars s)) \<and> \<not> is_whitespace (last (chars s)))"

lemma no_ws_trimmed: "no_ws s \<Longrightarrow> trimmed s"
  by (auto simp: no_ws_def trimmed_def)

lemma no_ws_simps [simp]:
  "no_ws []" "bval c < 128 \<Longrightarrow> no_ws (c # s) \<longleftrightarrow> \<not> is_whitespace [c] \<and> no_ws s"
  by (auto simp: no_ws_def)

lemma no_ws_append [simp]: "wf_str s \<Longrightarrow> no_ws (s @ t) \<longleftrightarrow> no_ws s \<and> no_ws t"
  by (auto simp: no_ws_def)

lemma trim_trimmed [simp]: "trimmed s \<Longrightarrow> trim s = s"
proof (cases "s = []")
  case True
  then show ?thesis by (simp add: trim_def trim_start_def trim_end_def)
next
  case False
  assume "trimmed s"
  with False have "dropWhile is_whitespace (chars s) = chars s"
    and "dropWhile is_whitespace (rev (chars s)) = rev (chars s)"
    by (simp_all add: trimmed_def dropWhile_eq_self_iff hd_rev)
  then show ?thesis by (simp add: trim_def trim_start_def trim_end_def)
qed

lemma trim_start_space [simp]:
  "bval c < 128 \<Longrightarrow> is_whitespace [c] \<Longrightarrow> trim_start (c # s) = trim_start s"
  by (simp add: trim_start_def del: is_whitespace_ascii)

lemma trim_space_Cons: "trim (CHR '' '' # s) = trim s"
  by (simp add: trim_def)

section \<open>Lines and fields\<close>

text \<open>\<open>s.lines()\<close>: a line ends at a line feed, one carriage return before it is dropped, and
  there is no empty line after a final line feed.\<close>

definition strip_cr :: "string \<Rightarrow> string" where
  "strip_cr s = (if s \<noteq> [] \<and> last s = CR then butlast s else s)"

function str_lines :: "string \<Rightarrow> string list" where
  "str_lines [] = []"
| "str_lines (c # s) =
     (case dropWhile (\<lambda>x. x \<noteq> LF) (c # s) of
        [] \<Rightarrow> [c # s]
      | _ # rest \<Rightarrow> strip_cr (takeWhile (\<lambda>x. x \<noteq> LF) (c # s)) # str_lines rest)"
  by pat_completeness auto
termination
proof (relation "measure length", goal_cases)
  case (2 c s x rest)
  have "length (dropWhile (\<lambda>x. x \<noteq> LF) (c # s)) \<le> length (c # s)"
    by (rule length_dropWhile_le)
  with 2 show ?case by (simp del: dropWhile.simps)
qed simp

declare str_lines.simps(2) [simp del]

text \<open>\<open>s.split(d)\<close> and \<open>s.split_once(d)\<close> for an ASCII delimiter.\<close>

fun split_on :: "char \<Rightarrow> string \<Rightarrow> string list" where
  "split_on d [] = [[]]"
| "split_on d (c # s) =
     (if c = d then [] # split_on d s
      else case split_on d s of [] \<Rightarrow> [[c]] | p # ps \<Rightarrow> (c # p) # ps)"

fun split_once :: "char \<Rightarrow> string \<Rightarrow> (string \<times> string) option" where
  "split_once d [] = None"
| "split_once d (c # s) =
     (if c = d then Some ([], s)
      else map_option (\<lambda>(a, b). (c # a, b)) (split_once d s))"

fun ws_fields :: "string \<Rightarrow> string list \<Rightarrow> string list" where
  "ws_fields cur [] = (if cur = [] then [] else [cur])"
| "ws_fields cur (c # cs) =
     (if is_whitespace c then (if cur = [] then [] else [cur]) @ ws_fields [] cs
      else ws_fields (cur @ c) cs)"

definition split_whitespace :: "string \<Rightarrow> string list" where
  "split_whitespace s = ws_fields [] (chars s)"

lemma str_lines_LF [str_simps]:
  "LF \<notin> set l \<Longrightarrow> str_lines (l @ LF # r) = strip_cr l # str_lines r"
proof -
  assume "LF \<notin> set l"
  then have "dropWhile (\<lambda>x. x \<noteq> LF) (l @ LF # r) = LF # r"
    and "takeWhile (\<lambda>x. x \<noteq> LF) (l @ LF # r) = l"
    by (auto simp: dropWhile_append takeWhile_append dest: set_dropWhileD)
  moreover obtain c s where "l @ LF # r = c # s"
    by (cases l) auto
  ultimately show ?thesis by (simp add: str_lines.simps(2))
qed

lemma str_lines_last [str_simps]: "LF \<notin> set l \<Longrightarrow> l \<noteq> [] \<Longrightarrow> str_lines l = [l]"
proof -
  assume "LF \<notin> set l" "l \<noteq> []"
  from \<open>l \<noteq> []\<close> obtain c s where l: "l = c # s" by (cases l) auto
  with \<open>LF \<notin> set l\<close> have Nil: "dropWhile (\<lambda>x. x \<noteq> LF) (c # s) = []"
    unfolding dropWhile_eq_Nil_conv by metis
  show ?thesis by (simp only: l str_lines.simps(2) Nil) simp
qed

lemma strip_cr_CR [simp]: "strip_cr (l @ [CR]) = l"
  by (simp add: strip_cr_def)

lemma strip_cr_other: "CR \<notin> set l \<Longrightarrow> strip_cr l = l"
  by (auto simp: strip_cr_def dest: last_in_set)

lemma str_lines_crlf [str_simps]:
  "LF \<notin> set l \<Longrightarrow> str_lines (l @ CR # LF # r) = l # str_lines r"
  using str_lines_LF [of "l @ [CR]" r] by simp

lemma str_lines_no_LF: "l \<in> set (str_lines s) \<Longrightarrow> LF \<notin> set l"
proof (induction s rule: str_lines.induct)
  case 1
  then show ?case by simp
next
  case (2 c s)
  have tw: "LF \<notin> set (takeWhile (\<lambda>x. x \<noteq> LF) (c # s))"
    using set_takeWhileD by fastforce
  show ?case
  proof (cases "dropWhile (\<lambda>x. x \<noteq> LF) (c # s)")
    case Nil
    then have "LF \<notin> set (c # s)" unfolding dropWhile_eq_Nil_conv by metis
    moreover have "l = c # s"
      using "2.prems" by (simp only: str_lines.simps(2) Nil) simp
    ultimately show ?thesis by simp
  next
    case (Cons x rest)
    with "2.prems" consider "l = strip_cr (takeWhile (\<lambda>x. x \<noteq> LF) (c # s))" | "l \<in> set (str_lines rest)"
      by (auto simp: str_lines.simps(2) simp del: dropWhile.simps takeWhile.simps)
    then show ?thesis
    proof cases
      case 1
      with tw show ?thesis
        by (auto simp: strip_cr_def simp del: takeWhile.simps dest: in_set_butlastD split: if_splits)
    next
      case 2
      then show ?thesis using "2.IH" [OF Cons] by simp
    qed
  qed
qed

lemma split_once_first [str_simps]: "d \<notin> set a \<Longrightarrow> split_once d (a @ d # b) = Some (a, b)"
  by (induction a) auto

lemma split_once_None [str_simps]: "split_once d s = None \<longleftrightarrow> d \<notin> set s"
  by (induction s) auto

lemma split_once_eq: "split_once d s = Some (a, b) \<longleftrightarrow> s = a @ d # b \<and> d \<notin> set a"
proof (induction s arbitrary: a)
  case Nil
  then show ?case by simp
next
  case (Cons c s)
  then show ?case by (cases a) auto
qed

lemma split_on_nonempty [simp]: "split_on d s \<noteq> []"
  by (induction s) (auto split: list.splits)

lemma split_on_single [str_simps]: "d \<notin> set s \<Longrightarrow> split_on d s = [s]"
  by (induction s) auto

lemma split_on_append [str_simps]: "d \<notin> set a \<Longrightarrow> split_on d (a @ d # b) = a # split_on d b"
  by (induction a) auto

lemma split_on_pieces: "p \<in> set (split_on d s) \<Longrightarrow> d \<notin> set p"
  by (induction s arbitrary: p) (auto split: if_splits list.splits)

lemma ws_fields_word:
  "\<forall>c \<in> set cs. \<not> is_whitespace c \<Longrightarrow> ws_fields cur (cs @ ds) = ws_fields (cur @ concat cs) ds"
  by (induction cs arbitrary: cur) auto

lemma split_whitespace_Cons [str_simps]:
  assumes "wf_str w" "no_ws w" "w \<noteq> []" "is_whitespace [c]" "bval c < 128"
  shows "split_whitespace (w @ c # s) = w # split_whitespace s"
proof -
  have "ws_fields [] (chars w @ [c] # chars s) = ws_fields (concat (chars w)) ([c] # chars s)"
    using assms(2) by (simp add: no_ws_def ws_fields_word)
  with assms show ?thesis
    by (simp add: split_whitespace_def del: is_whitespace_ascii)
qed

lemma split_whitespace_single [str_simps]:
  "no_ws w \<Longrightarrow> w \<noteq> [] \<Longrightarrow> split_whitespace w = [w]"
  using ws_fields_word [of "chars w" "[]" "[]"] by (simp add: split_whitespace_def no_ws_def)

section \<open>Case mapping\<close>

text \<open>
  \<open>s.to_lowercase()\<close>. The ASCII letters and the two further characters whose lower-case form
  contains an ASCII letter (U+212A, the Kelvin sign, to \<open>k\<close>; U+0130 to \<open>i\<close> and a
  combining dot) are mapped as Rust does. Other non-ASCII letters are left as they are: the
  program compares lower-cased text with ASCII constants only, so the difference is never seen.
\<close>

definition lower_char :: "string \<Rightarrow> string" where
  "lower_char c =
     (case c of
        [b] \<Rightarrow> if 65 \<le> bval b \<and> bval b \<le> 90 then [char_of (bval b + 32)] else [b]
      | _ \<Rightarrow> if c = [CHR 0xE2, CHR 0x84, CHR 0xAA] then ''k''
             else if c = [CHR 0xC4, CHR 0xB0] then [CHR ''i'', CHR 0xCC, CHR 0x87]
             else c)"

definition to_lowercase :: "string \<Rightarrow> string" where
  "to_lowercase s = concat (map lower_char (chars s))"

definition lower_byte :: "char \<Rightarrow> char" where
  "lower_byte b = (if 65 \<le> bval b \<and> bval b \<le> 90 then char_of (bval b + 32) else b)"

lemmas lower_byte_eval = lower_byte_def char_of_def bit_0

lemma lower_char_single [simp]: "lower_char [b] = [lower_byte b]"
  by (simp add: lower_char_def lower_byte_def)

lemma to_lowercase_ascii: "ascii s \<Longrightarrow> to_lowercase s = map lower_byte s"
  by (induction s) (auto simp: to_lowercase_def)

lemma lower_byte_lower:
  "bval b < 128 \<Longrightarrow> bval (lower_byte b) < 128 \<and> \<not> (65 \<le> bval (lower_byte b) \<and> bval (lower_byte b) \<le> 90)"
  by (auto simp: lower_byte_def)

text \<open>Lower-casing is idempotent on ASCII text.\<close>

lemma to_lowercase_idem: "ascii s \<Longrightarrow> to_lowercase (to_lowercase s) = to_lowercase s"
proof -
  assume a: "ascii s"
  then have "ascii (map lower_byte s)"
    using lower_byte_lower by (auto simp: ascii_def)
  moreover have "map lower_byte (map lower_byte s) = map lower_byte s"
    using a lower_byte_lower by (auto simp: ascii_def lower_byte_def [of "lower_byte x" for x])
  ultimately show ?thesis using a by (simp add: to_lowercase_ascii)
qed

section \<open>Affixes\<close>

definition strip_prefix_str :: "string \<Rightarrow> string \<Rightarrow> string option" where
  "strip_prefix_str p s = (if prefix p s then Some (drop (length p) s) else None)"

definition strip_suffix_str :: "string \<Rightarrow> string \<Rightarrow> string option" where
  "strip_suffix_str p s = (if suffix p s then Some (take (length s - length p) s) else None)"

definition trim_start_matches :: "char \<Rightarrow> string \<Rightarrow> string" where
  "trim_start_matches d s = dropWhile (\<lambda>c. c = d) s"

definition trim_end_matches :: "char \<Rightarrow> string \<Rightarrow> string" where
  "trim_end_matches d s = rev (dropWhile (\<lambda>c. c = d) (rev s))"

definition contains_str :: "string \<Rightarrow> string \<Rightarrow> bool" where
  "contains_str pat s \<longleftrightarrow> find_sub pat s \<noteq> None"

section \<open>Decoding bytes\<close>

definition is_cont :: "char \<Rightarrow> bool" where
  "is_cont c \<longleftrightarrow> 128 \<le> bval c \<and> bval c < 192"

definition second3_ok :: "nat \<Rightarrow> nat \<Rightarrow> bool" where
  "second3_ok v w \<longleftrightarrow>
     (if v = 224 then 160 \<le> w \<and> w < 192
      else if v = 237 then 128 \<le> w \<and> w < 160 else 128 \<le> w \<and> w < 192)"

definition second4_ok :: "nat \<Rightarrow> nat \<Rightarrow> bool" where
  "second4_ok v w \<longleftrightarrow>
     (if v = 240 then 144 \<le> w \<and> w < 192
      else if v = 244 then 128 \<le> w \<and> w < 144 else 128 \<le> w \<and> w < 192)"

text \<open>The first character of a byte sequence: whether it is valid, and how many bytes it (or the
  maximal invalid part, which one replacement character stands for) takes.\<close>

fun utf8_chunk :: "bytes \<Rightarrow> bool \<times> nat" where
  "utf8_chunk [] = (True, 1)"
| "utf8_chunk (a # s) =
     (let v = bval a in
      if v < 128 then (True, 1)
      else if 194 \<le> v \<and> v < 224 then
        (case s of b # _ \<Rightarrow> if is_cont b then (True, 2) else (False, 1) | [] \<Rightarrow> (False, 1))
      else if 224 \<le> v \<and> v < 240 then
        (case s of
           b # t \<Rightarrow>
             if second3_ok v (bval b)
             then (case t of c # _ \<Rightarrow> if is_cont c then (True, 3) else (False, 2) | [] \<Rightarrow> (False, 2))
             else (False, 1)
         | [] \<Rightarrow> (False, 1))
      else if 240 \<le> v \<and> v < 245 then
        (case s of
           b # t \<Rightarrow>
             if second4_ok v (bval b)
             then (case t of
                     c # u \<Rightarrow>
                       if is_cont c
                       then (case u of d # _ \<Rightarrow> if is_cont d then (True, 4) else (False, 3) | [] \<Rightarrow> (False, 3))
                       else (False, 2)
                   | [] \<Rightarrow> (False, 2))
             else (False, 1)
         | [] \<Rightarrow> (False, 1))
      else (False, 1))"

lemma utf8_chunk_pos: "0 < snd (utf8_chunk s)"
  by (cases s) (auto simp: Let_def split: list.splits if_splits)

declare utf8_chunk.simps(2) [simp del]

definition replacement :: bytes where
  "replacement = [CHR 0xEF, CHR 0xBF, CHR 0xBD]"

function from_utf8_lossy :: "bytes \<Rightarrow> string" where
  "from_utf8_lossy [] = []"
| "from_utf8_lossy (a # s) =
     (case utf8_chunk (a # s) of
        (ok, n) \<Rightarrow> (if ok then take n (a # s) else replacement) @ from_utf8_lossy (drop n (a # s)))"
  by pat_completeness auto
termination
proof (relation "measure length", goal_cases)
  case (2 a s ok n)
  have "0 < n" using utf8_chunk_pos [of "a # s"] by (simp flip: 2(1))
  then show ?case by simp
qed simp

declare from_utf8_lossy.simps(2) [simp del]

text \<open>\<open>std::str::from_utf8(s).is_ok()\<close>.\<close>

function utf8_ok :: "bytes \<Rightarrow> bool" where
  "utf8_ok [] = True"
| "utf8_ok (a # s) =
     (case utf8_chunk (a # s) of (ok, n) \<Rightarrow> ok \<and> utf8_ok (drop n (a # s)))"
  by pat_completeness auto
termination
proof (relation "measure length", goal_cases)
  case (2 a s ok n)
  have "0 < n" using utf8_chunk_pos [of "a # s"] by (simp flip: 2(1))
  then show ?case by simp
qed simp

declare utf8_ok.simps(2) [simp del]

lemma utf8_chunk_ascii [simp]: "bval a < 128 \<Longrightarrow> utf8_chunk (a # s) = (True, 1)"
  by (simp add: utf8_chunk.simps(2))

lemma utf8_ok_ascii_Cons [simp]: "bval a < 128 \<Longrightarrow> utf8_ok (a # s) \<longleftrightarrow> utf8_ok s"
  by (simp add: utf8_ok.simps(2))

lemma utf8_ok_ascii [simp]: "ascii s \<Longrightarrow> utf8_ok s"
  by (induction s) (auto simp: utf8_ok.simps(2))

lemma from_utf8_lossy_valid [simp]: "utf8_ok s \<Longrightarrow> from_utf8_lossy s = s"
proof (induction s rule: utf8_ok.induct)
  case 1
  then show ?case by simp
next
  case (2 a s)
  obtain ok n where c: "utf8_chunk (a # s) = (ok, n)" by fastforce
  with "2.prems" "2.IH" [OF c [symmetric]] show ?case
    by (simp add: utf8_ok.simps(2) from_utf8_lossy.simps(2))
qed

lemma utf8_chunk_width: "utf8_chunk (a # s) = (True, n) \<Longrightarrow> n = utf8_width a \<and> n \<le> length (a # s)"
  by (auto simp: utf8_chunk.simps(2) utf8_width_def Let_def split: if_splits list.splits)

lemma utf8_ok_wf_str: "utf8_ok s \<Longrightarrow> wf_str s"
proof (induction s rule: utf8_ok.induct)
  case 1
  then show ?case by simp
next
  case (2 a s)
  obtain ok n where c: "utf8_chunk (a # s) = (ok, n)" by fastforce
  with "2.prems" have "ok" "utf8_ok (drop n (a # s))" by (simp_all add: utf8_ok.simps(2))
  moreover from this c have "n = utf8_width a \<and> n \<le> length (a # s)"
    by (intro utf8_chunk_width) simp
  ultimately show ?case
    using "2.IH" [OF c [symmetric]] by (auto simp only: wf_str_Cons)
qed

end
