(* ===== verification/Tokenizer.thy ===== *)
theory Tokenizer
  imports Rust_Str
begin

text \<open>
  The lexer of the configuration language (\<open>src/config/tokenizer.rs\<close>): \<open>tokenize\<close> is the
  loop over the characters of the file with its three variables (the tokens so far, the word
  being read, the line number), \<open>push_word\<close> the helper that ends a word. The lemmas show
  which words come out, that no character is lost, that line numbers are those of the text,
  and that printing tokens and reading them back is the identity.
\<close>

section \<open>Model\<close>

datatype token_kind = Word string | LBrace | RBrace | Semicolon

record token =
  tok_kind :: token_kind
  tok_line :: nat

abbreviation mk_token :: "token_kind \<Rightarrow> nat \<Rightarrow> token" where
  "mk_token k n \<equiv> \<lparr>tok_kind = k, tok_line = n\<rparr>"

definition push_word :: "token list \<Rightarrow> string \<Rightarrow> nat \<Rightarrow> token list \<times> string" where
  "push_word tokens current line =
     (if current \<noteq> [] then (tokens @ [mk_token (Word current) line], []) else (tokens, current))"

type_synonym lexer = "token list \<times> string \<times> nat"

fun tok_step :: "lexer \<Rightarrow> string \<Rightarrow> lexer" where
  "tok_step (tokens, current, line) c =
     (if c = [LF] then
        (let (tokens, current) = push_word tokens current line in (tokens, current, line + 1))
      else if c = ''{'' then
        (let (tokens, current) = push_word tokens current line
         in (tokens @ [mk_token LBrace line], current, line))
      else if c = ''}'' then
        (let (tokens, current) = push_word tokens current line
         in (tokens @ [mk_token RBrace line], current, line))
      else if c = '';'' then
        (let (tokens, current) = push_word tokens current line
         in (tokens @ [mk_token Semicolon line], current, line))
      else if is_whitespace c then
        (let (tokens, current) = push_word tokens current line in (tokens, current, line))
      else (tokens, current @ c, line))"

definition tokenize :: "string \<Rightarrow> token list" where
  "tokenize input =
     (let (tokens, current, line) = foldl tok_step ([], [], 1) (chars input)
      in fst (push_word tokens current line))"

declare tok_step.simps [simp del]

section \<open>Lemmas\<close>

definition special :: "string \<Rightarrow> bool" where
  "special c \<longleftrightarrow> c = ''{'' \<or> c = ''}'' \<or> c = '';'' \<or> is_whitespace c"

text \<open>What a word of the configuration language is: non-empty, with no white space, brace or
  semicolon among its characters.\<close>

definition word_ok :: "string \<Rightarrow> bool" where
  "word_ok w \<longleftrightarrow> w \<noteq> [] \<and> wf_str w \<and> (\<forall>c \<in> set (chars w). \<not> special c)"

fun kind_ok :: "token_kind \<Rightarrow> bool" where
  "kind_ok (Word w) = word_ok w"
| "kind_ok _ = True"

lemma push_word_simps [simp]:
  "push_word ts [] n = (ts, [])"
  "w \<noteq> [] \<Longrightarrow> push_word ts w n = (ts @ [mk_token (Word w) n], [])"
  by (simp_all add: push_word_def)

lemma special_simps [simp]:
  "special ''{''" "special ''}''" "special '';''" "is_whitespace c \<Longrightarrow> special c"
  by (simp_all add: special_def)

lemma tok_step_other [simp]: "\<not> special c \<Longrightarrow> tok_step (ts, w, n) c = (ts, w @ c, n)"
  by (auto simp: special_def tok_step.simps)

lemma whole_char:
  assumes "c \<in> set (chars s)" "length c = utf8_width (hd c)"
  shows "chars c = [c]"
proof -
  from chars_nonempty [OF assms(1)] obtain b bs where c: "c = b # bs"
    by (cases c) auto
  with assms(2) show ?thesis by (simp add: chars.simps(2))
qed

lemma word_ok_snoc:
  assumes "w = [] \<or> word_ok w" "chars c = [c]" "length c = utf8_width (hd c)" "\<not> special c"
  shows "word_ok (w @ c)"
proof -
  have "wf_str w" using assms(1) by (auto simp: word_ok_def)
  moreover have "wf_str c" using assms(2,3) by (simp add: wf_str_def)
  moreover have "c \<noteq> []" using assms(2) by auto
  ultimately show ?thesis using assms by (auto simp: word_ok_def)
qed

definition lexer_inv :: "lexer \<Rightarrow> bool" where
  "lexer_inv L \<longleftrightarrow>
     (case L of (ts, w, n) \<Rightarrow> (\<forall>t \<in> set ts. kind_ok (tok_kind t)) \<and> (w = [] \<or> word_ok w))"

lemma tok_step_inv:
  assumes "lexer_inv L" "chars c = [c]" "length c = utf8_width (hd c)"
  shows "lexer_inv (tok_step L c)"
proof (cases "special c")
  case True
  with assms(1) show ?thesis
    by (cases L) (auto simp: lexer_inv_def push_word_def special_def tok_step.simps Let_def)
next
  case False
  with assms word_ok_snoc [OF _ assms(2,3) False] show ?thesis
    by (cases L) (auto simp: lexer_inv_def)
qed

lemma foldl_tok_step_inv:
  "\<forall>c \<in> set cs. chars c = [c] \<and> length c = utf8_width (hd c) \<Longrightarrow> lexer_inv L
   \<Longrightarrow> lexer_inv (foldl tok_step L cs)"
proof (induction cs arbitrary: L)
  case Nil
  then show ?case by simp
next
  case (Cons c cs)
  then have "lexer_inv (tok_step L c)" by (intro tok_step_inv) simp_all
  with Cons show ?case by simp
qed

lemma tokenize_words:
  assumes "wf_str s" "t \<in> set (tokenize s)"
  shows "kind_ok (tok_kind t)"
proof -
  obtain ts w n where L: "foldl tok_step ([], [], 1) (chars s) = (ts, w, n)"
    using prod_cases3 by blast
  have "\<forall>c \<in> set (chars s). chars c = [c] \<and> length c = utf8_width (hd c)"
    using assms(1) unfolding wf_str_def by (blast intro: whole_char)
  moreover have "lexer_inv ([], [], 1)"
    by (simp add: lexer_inv_def)
  ultimately have "lexer_inv (ts, w, n)"
    unfolding L [symmetric] by (rule foldl_tok_step_inv)
  moreover have "t \<in> set (fst (push_word ts w n))"
    using assms(2) unfolding tokenize_def L by simp
  ultimately show ?thesis
    by (auto simp: lexer_inv_def push_word_def split: if_splits)
qed

text \<open>The text of a token, and the text of the lexer's state.\<close>

fun tok_text :: "token_kind \<Rightarrow> string" where
  "tok_text (Word w) = w"
| "tok_text LBrace = ''{''"
| "tok_text RBrace = ''}''"
| "tok_text Semicolon = '';''"

abbreviation toks_text :: "token list \<Rightarrow> string" where
  "toks_text ts \<equiv> concat (map (\<lambda>t. tok_text (tok_kind t)) ts)"

lemma foldl_tok_step_text:
  "foldl tok_step (ts, w, n) cs = (ts', w', n') \<Longrightarrow>
   toks_text ts' @ w' = toks_text ts @ w @ concat (filter (\<lambda>c. \<not> is_whitespace c) cs)"
proof (induction cs arbitrary: ts w n)
  case Nil
  then show ?case by simp
next
  case (Cons c cs)
  obtain ts1 w1 n1 where s: "tok_step (ts, w, n) c = (ts1, w1, n1)"
    using prod_cases3 by blast
  then have "toks_text ts1 @ w1 = toks_text ts @ w @ (if is_whitespace c then [] else c)"
    by (auto simp: tok_step.simps push_word_def Let_def split: if_splits)
  with Cons.IH [of ts1 w1 n1] Cons.prems s show ?case
    by (auto)
qed

text \<open>Line numbers never decrease, start at the line of the state and count its line feeds.\<close>

lemma foldl_tok_step_lines:
  "foldl tok_step (ts, w, n) cs = (ts', w', n') \<Longrightarrow>
   \<exists>us. ts' = ts @ us \<and> sorted (map tok_line us) \<and>
        (\<forall>t \<in> set us. n \<le> tok_line t \<and> tok_line t \<le> n') \<and> n' = n + count_list cs [LF]"
proof (induction cs arbitrary: ts w n)
  case Nil
  then show ?case by simp
next
  case (Cons c cs)
  obtain ts1 w1 n1 where s: "tok_step (ts, w, n) c = (ts1, w1, n1)"
    using prod_cases3 by blast
  then have n1: "n1 = n + (if c = [LF] then 1 else 0)"
    and "\<exists>vs. ts1 = ts @ vs \<and> sorted (map tok_line vs) \<and> (\<forall>t \<in> set vs. tok_line t = n)"
    by (auto simp: tok_step.simps push_word_def Let_def split: if_splits)
  then obtain vs where vs: "ts1 = ts @ vs" "sorted (map tok_line vs)" "\<forall>t \<in> set vs. tok_line t = n"
    by blast
  from Cons.prems s have "foldl tok_step (ts1, w1, n1) cs = (ts', w', n')"
    by simp
  from Cons.IH [OF this] obtain us where us:
    "ts' = ts1 @ us" "sorted (map tok_line us)"
    "\<forall>t \<in> set us. n1 \<le> tok_line t \<and> tok_line t \<le> n'" "n' = n1 + count_list cs [LF]"
    by blast
  have "\<forall>t \<in> set us. n \<le> tok_line t"
    using us(3) n1 by fastforce
  with vs us n1 show ?case
    by (intro exI [of _ "vs @ us"]) (auto simp: sorted_append)
qed

section \<open>Printing tokens\<close>

definition render :: "token_kind list \<Rightarrow> string" where
  "render ks = concat (map (\<lambda>k. tok_text k @ '' '') ks)"

lemma foldl_word:
  "\<forall>c \<in> set cs. \<not> special c \<Longrightarrow> foldl tok_step (ts, w, n) cs = (ts, w @ concat cs, n)"
  by (induction cs arbitrary: w) (auto)

lemma foldl_tok_text:
  assumes "kind_ok k"
  shows "foldl tok_step (ts, [], n) (chars (tok_text k @ '' '')) = (ts @ [mk_token k n], [], n)"
proof (cases k)
  case (Word w)
  with assms have "foldl tok_step (ts, [], n) (chars w) = (ts, w, n)" "w \<noteq> []" "wf_str w"
    by (simp_all add: word_ok_def foldl_word)
  with Word show ?thesis by (simp add: tok_step.simps)
qed (simp_all add: tok_step.simps)

lemma wf_str_tok_text: "kind_ok k \<Longrightarrow> wf_str (tok_text k @ '' '')"
  by (cases k) (auto simp: word_ok_def)

lemma wf_str_render: "\<forall>k \<in> set ks. kind_ok k \<Longrightarrow> wf_str (render ks)"
  unfolding render_def
  by (induction ks) (use wf_str_tok_text in \<open>auto simp flip: append_assoc\<close>)

lemma foldl_render:
  "\<forall>k \<in> set ks. kind_ok k \<Longrightarrow>
   foldl tok_step (ts, [], n) (chars (render ks)) = (ts @ map (\<lambda>k. mk_token k n) ks, [], n)"
proof (induction ks arbitrary: ts)
  case Nil
  then show ?case by (simp add: render_def)
next
  case (Cons k ks)
  have "render (k # ks) = (tok_text k @ '' '') @ render ks"
    by (simp add: render_def)
  moreover have "chars ((tok_text k @ '' '') @ render ks) = chars (tok_text k @ '' '') @ chars (render ks)"
    using Cons.prems wf_str_tok_text by (intro chars_append) simp
  ultimately show ?case
    using Cons foldl_tok_text [of k ts n] by simp
qed

lemma tokenize_render_eq:
  "\<forall>k \<in> set ks. kind_ok k \<Longrightarrow> tokenize (render ks) = map (\<lambda>k. mk_token k 1) ks"
  using foldl_render [of ks "[]" 1] by (simp add: tokenize_def)

end
