(* ===== verification/Config_Types.thy ===== *)
theory Config_Types
  imports Rust_Str
begin

text \<open>
  The configuration as the rest of the server sees it (\<open>src/config/mod.rs\<close>): the structs
  \<open>Config\<close>, \<open>ServerConfig\<close>, \<open>Location\<close>, \<open>CGI\<close>, the enum \<open>Method\<close>, the address of a
  server block, and \<open>parse_body_size\<close> with its unit suffixes and its overflow behaviour.
\<close>

section \<open>Model\<close>

text \<open>\<open>config::Method\<close> (imported by the handler as \<open>ConfigMethod\<close>).\<close>

datatype config_method = CGet | CPost | CDelete

record CGI =
  cgi_extension :: string
  cgi_interpreter :: string

record location =
  loc_path :: string
  loc_root :: string
  loc_index :: "string option"
  loc_methods :: "config_method list"
  loc_autoindex :: bool
  loc_redirect :: "string option"
  loc_cgi :: "CGI option"

text \<open>\<open>port\<close> is a \<open>u16\<close> and the keys of \<open>error_pages\<close> are \<open>u16\<close>s: both are kept below
  65536 by the parser (see the bounds lemmas there). \<open>client_max_body_size\<close> is a \<open>usize\<close>.\<close>

record server_config =
  srv_host :: string
  srv_port :: nat
  srv_name :: "string option"
  srv_max_body :: nat
  srv_error_pages :: "nat \<rightharpoonup> string"
  srv_locations :: "location list"

record config =
  cfg_servers :: "server_config list"

text \<open>\<open>ServerConfig::addr\<close>.\<close>

definition addr :: "server_config \<Rightarrow> string" where
  "addr s = srv_host s @ '':'' @ show_nat (srv_port s)"

text \<open>
  \<open>parse_body_size\<close>: \<open>Err\<close> carries the lower-cased text that the message quotes; the
  products \<open>n * 1024\<close> and \<open>n * 1024 * 1024\<close> panic when they leave \<open>usize\<close>.
\<close>

definition parse_body_size :: "string \<Rightarrow> (string + nat) exec" where
  "parse_body_size s0 =
     (let s = to_lowercase s0 in
      case strip_suffix_str ''mb'' s of
        Some n \<Rightarrow>
          (case parse_usize (trim n) of
             Some n \<Rightarrow> exec_bind (usize_mul n 1024) (\<lambda>m. exec_bind (usize_mul m 1024) (\<lambda>k. Ret (Inr k)))
           | None \<Rightarrow> Ret (Inl s))
      | None \<Rightarrow>
          (case strip_suffix_str ''kb'' s of
             Some n \<Rightarrow>
               (case parse_usize (trim n) of
                  Some n \<Rightarrow> exec_bind (usize_mul n 1024) (\<lambda>k. Ret (Inr k))
                | None \<Rightarrow> Ret (Inl s))
           | None \<Rightarrow>
               (case parse_usize (trim s) of
                  Some n \<Rightarrow> Ret (Inr n)
                | None \<Rightarrow> Ret (Inl s))))"

section \<open>Lemmas\<close>

lemma digit_char_plain:
  "d < 10 \<Longrightarrow> bval (digit_char d) < 128 \<and> \<not> is_whitespace [digit_char d] \<and>
     lower_byte (digit_char d) = digit_char d"
  by (rule less16_cases [of d]) (auto simp: digit_char_def lower_byte_def)

lemma show_nat_chars:
  assumes "c \<in> set (show_nat n)"
  obtains d where "d < 10" "c = digit_char d"
  using assms set_show_radix [of 10 n] by auto

lemma ascii_show_nat [simp]: "ascii (show_nat n)"
  unfolding ascii_def by (metis show_nat_chars digit_char_plain)

lemma no_ws_ascii: "ascii s \<Longrightarrow> no_ws s \<longleftrightarrow> (\<forall>c \<in> set s. \<not> is_whitespace [c])"
  by (auto simp: no_ws_def chars_ascii)

lemma no_ws_show_nat [simp]: "no_ws (show_nat n)"
  unfolding no_ws_ascii [OF ascii_show_nat] by (metis show_nat_chars digit_char_plain)

lemma trim_show_nat [simp]: "trim (show_nat n) = show_nat n"
  by (simp add: no_ws_trimmed)

lemma to_lowercase_show_nat [simp]: "to_lowercase (show_nat n) = show_nat n"
proof -
  have "map lower_byte (show_nat n) = show_nat n"
    by (rule map_idI) (metis show_nat_chars digit_char_plain)
  then show ?thesis by (simp add: to_lowercase_ascii)
qed

lemma last_show_nat: "last (show_nat n) \<noteq> CHR ''b''"
proof -
  obtain d where "d < 10" "last (show_nat n) = digit_char d"
    using show_nat_chars [OF last_in_set [OF show_radix_nonempty [of 10 n]]] by blast
  then show ?thesis
    using digit_char_bval [of d] by (auto split: if_splits)
qed

lemma suffix_last: "suffix (p @ [c]) s \<Longrightarrow> last s = c"
  by (auto simp: suffix_def)

text \<open>A size written in each of the three notations, upper or lower case.\<close>

lemma parse_body_size_plain:
  "n < usize_bound \<Longrightarrow> parse_body_size (show_nat n) = Ret (Inr n)"
proof -
  assume "n < usize_bound"
  have "\<not> suffix ''mb'' (show_nat n)" "\<not> suffix ''kb'' (show_nat n)"
    using last_show_nat [of n] suffix_last [of "''m''" "CHR ''b''" "show_nat n"]
      suffix_last [of "''k''" "CHR ''b''" "show_nat n"] by auto
  with \<open>n < usize_bound\<close> show ?thesis
    by (simp add: parse_body_size_def strip_suffix_str_def)
qed

lemma to_lowercase_append: "ascii s \<Longrightarrow> to_lowercase (s @ t) = to_lowercase s @ to_lowercase t"
  by (simp add: to_lowercase_def)

lemma strip_suffix_append [simp]: "strip_suffix_str p (s @ p) = Some s"
  by (simp add: strip_suffix_str_def suffix_def)

lemma strip_suffix_mb_kb: "strip_suffix_str ''mb'' (s @ ''kb'') = None"
  by (auto simp: strip_suffix_str_def suffix_def append_eq_append_conv2 append_eq_Cons_conv)

lemma parse_body_size_kb:
  assumes "u \<in> {''KB'', ''kb'', ''Kb'', ''kB''}" "n < usize_bound"
  shows "parse_body_size (show_nat n @ u) =
     (if n * 1024 < usize_bound then Ret (Inr (n * 1024)) else Panic)"
proof -
  have "to_lowercase u = ''kb''"
    using assms(1) by (auto simp: to_lowercase_ascii lower_byte_eval)
  with assms(2) show ?thesis
    by (simp add: parse_body_size_def to_lowercase_append strip_suffix_mb_kb usize_mul_def usize_bound_def)
qed

lemma parse_body_size_mb:
  assumes "u \<in> {''MB'', ''mb'', ''Mb'', ''mB''}" "n < usize_bound"
  shows "parse_body_size (show_nat n @ u) =
     (if n * 1048576 < usize_bound then Ret (Inr (n * 1048576)) else Panic)"
proof -
  have "to_lowercase u = ''mb''"
    using assms(1) by (auto simp: to_lowercase_ascii lower_byte_eval)
  with assms(2) show ?thesis
    by (simp add: parse_body_size_def to_lowercase_append usize_mul_def usize_bound_def)
qed

lemma parse_body_size_bound: "parse_body_size s = Ret (Inr n) \<Longrightarrow> n < usize_bound"
  by (auto simp: parse_body_size_def Let_def usize_mul_def usize_bound_def exec_simps
      dest: from_str_radix_bound split: option.splits if_splits)

end
