(* ===== verification/Config_Parser.thy ===== *)
theory Config_Parser
  imports Tokenizer Config_Types
begin

text \<open>
  The recursive-descent parser (\<open>src/config/parser.rs\<close>) with its errors
  (\<open>src/config/errors.rs\<close>). A parser is the token vector and a position; every operation
  returns the new parser. A \<open>ParseError\<close> carries a message, kept as a constructor with the
  values its text quotes, and the number the code puts into its field \<open>line\<close>: the line of
  the token for \<open>expect_word\<close> and \<open>expect\<close>, the token position \<open>self.pos\<close> everywhere
  else. The only panic is the overflow in \<open>parse_body_size\<close>.
\<close>

section \<open>Errors and the parser state\<close>

datatype error_message =
    Expected_value token_kind
  | Unexpected_end
  | Expected_kind token_kind token_kind
  | Expected_at_end token_kind
  | Unknown_top_level string
  | No_server
  | Invalid_port string
  | Invalid_size string
  | Invalid_error_code string
  | Unknown_server_directive string
  | Unexpected_in_server token_kind
  | Unclosed_server
  | Missing_host
  | Missing_port
  | Unknown_method string
  | Bad_autoindex string
  | Unknown_location_directive string
  | Unexpected_in_location token_kind
  | Unclosed_location string
  | Empty_location_path

record parse_error =
  err_message :: error_message
  err_line :: nat

datatype parse_abort = PErr parse_error | PPanic

abbreviation perr :: "error_message \<Rightarrow> nat \<Rightarrow> parse_abort + 'a" where
  "perr m n \<equiv> Inl (PErr \<lparr>err_message = m, err_line = n\<rparr>)"

record parser =
  ps_tokens :: "token list"
  ps_pos :: nat

definition new_parser :: "token list \<Rightarrow> parser" where
  "new_parser ts = \<lparr>ps_tokens = ts, ps_pos = 0\<rparr>"

section \<open>Token operations\<close>

definition peek :: "parser \<Rightarrow> token option" where
  "peek p = (if ps_pos p < length (ps_tokens p) then Some (ps_tokens p ! ps_pos p) else None)"

definition next_token :: "parser \<Rightarrow> token option \<times> parser" where
  "next_token p = (peek p, p\<lparr>ps_pos := ps_pos p + 1\<rparr>)"

definition expect_word :: "parser \<Rightarrow> parse_abort + string \<times> parser" where
  "expect_word p =
     (case next_token p of
        (Some tok, p') \<Rightarrow>
          (case tok_kind tok of
             Word w \<Rightarrow> Inr (w, p')
           | other \<Rightarrow> perr (Expected_value other) (tok_line tok))
      | (None, p') \<Rightarrow> perr Unexpected_end 0)"

definition expect :: "token_kind \<Rightarrow> parser \<Rightarrow> parse_abort + unit \<times> parser" where
  "expect expected p =
     (case next_token p of
        (Some tok, p') \<Rightarrow>
          if tok_kind tok = expected then Inr ((), p')
          else perr (Expected_kind expected (tok_kind tok)) (tok_line tok)
      | (None, p') \<Rightarrow> perr (Expected_at_end expected) 0)"

text \<open>\<open>let w = self.expect_word()?; self.expect(Semicolon)?\<close>, with the effect on the block's
  variables in between (an error makes the assignment unobservable).\<close>

definition word_then_semicolon :: "(string \<Rightarrow> 'a) \<Rightarrow> parser \<Rightarrow> parse_abort + 'a \<times> parser" where
  "word_then_semicolon f p =
     sum_bind (expect_word p) (\<lambda>(w, p). sum_bind (expect Semicolon p) (\<lambda>(_, p). Inr (f w, p)))"

section \<open>Location blocks\<close>

definition method_of_word :: "string \<Rightarrow> config_method option" where
  "method_of_word m =
     (if m = ''GET'' then Some CGet
      else if m = ''POST'' then Some CPost
      else if m = ''DELETE'' then Some CDelete
      else None)"

function methods_loop :: "config_method list \<Rightarrow> parser \<Rightarrow> parse_abort + config_method list \<times> parser" where
  "methods_loop methods p =
     (case peek p of
        Some tok \<Rightarrow>
          (case tok_kind tok of
             Word m \<Rightarrow>
               (let p = snd (next_token p) in
                case method_of_word m of
                  Some k \<Rightarrow> methods_loop (methods @ [k]) p
                | None \<Rightarrow> perr (Unknown_method m) (ps_pos p))
           | _ \<Rightarrow> Inr (methods, p))
      | None \<Rightarrow> Inr (methods, p))"
  by pat_completeness auto
termination
  by (relation "measure (\<lambda>(ms, p). length (ps_tokens p) - ps_pos p)")
     (auto simp: peek_def next_token_def split: if_splits)

declare methods_loop.simps [simp del]

definition default_interpreter :: "string \<Rightarrow> string" where
  "default_interpreter ext =
     (if ext = ''.py'' then ''python3'' else if ext = ''.php'' then ''php'' else ''sh'')"

text \<open>The interpreter is optional: the next token is taken if it is a word.\<close>

definition optional_interpreter :: "string \<Rightarrow> parser \<Rightarrow> parse_abort + string \<times> parser" where
  "optional_interpreter ext p =
     (case peek p of
        Some tok \<Rightarrow>
          (case tok_kind tok of
             Word w \<Rightarrow> expect_word p
           | _ \<Rightarrow> Inr (default_interpreter ext, p))
      | None \<Rightarrow> Inr (default_interpreter ext, p))"

definition cgi_directive :: "parser \<Rightarrow> parse_abort + CGI \<times> parser" where
  "cgi_directive p =
     sum_bind (expect_word p) (\<lambda>(ext, p).
     sum_bind (optional_interpreter ext p) (\<lambda>(interp, p).
     sum_bind (expect Semicolon p) (\<lambda>(_, p).
     Inr (\<lparr>cgi_extension = ext, cgi_interpreter = interp\<rparr>, p))))"

definition on_off :: "string \<Rightarrow> nat \<Rightarrow> parse_abort + bool" where
  "on_off val pos =
     (if val = ''on'' then Inr True else if val = ''off'' then Inr False
      else perr (Bad_autoindex val) pos)"

definition autoindex_directive :: "parser \<Rightarrow> parse_abort + bool \<times> parser" where
  "autoindex_directive p =
     sum_bind (expect_word p) (\<lambda>(val, p).
     sum_bind (on_off val (ps_pos p)) (\<lambda>b.
     sum_bind (expect Semicolon p) (\<lambda>(_, p). Inr (b, p))))"

text \<open>One directive of a location block; the location being built holds the block's variables.\<close>

definition location_directive :: "string \<Rightarrow> location \<Rightarrow> parser \<Rightarrow> parse_abort + location \<times> parser" where
  "location_directive d l p =
     (if d = ''root'' then word_then_semicolon (\<lambda>w. l\<lparr>loc_root := w\<rparr>) p
      else if d = ''index'' then word_then_semicolon (\<lambda>w. l\<lparr>loc_index := Some w\<rparr>) p
      else if d = ''methods'' then
        sum_bind (methods_loop (loc_methods l) p) (\<lambda>(ms, p).
        sum_bind (expect Semicolon p) (\<lambda>(_, p). Inr (l\<lparr>loc_methods := ms\<rparr>, p)))
      else if d = ''autoindex'' then
        sum_bind (autoindex_directive p) (\<lambda>(b, p). Inr (l\<lparr>loc_autoindex := b\<rparr>, p))
      else if d = ''redirect'' then word_then_semicolon (\<lambda>w. l\<lparr>loc_redirect := Some w\<rparr>) p
      else if d = ''cgi'' then
        sum_bind (cgi_directive p) (\<lambda>(c, p). Inr (l\<lparr>loc_cgi := Some c\<rparr>, p))
      else perr (Unknown_location_directive d) (ps_pos p))"

text \<open>
  Progress: what an operation that succeeds does to the parser. It is what makes the two block
  loops terminate.
\<close>

definition advances :: "parser \<Rightarrow> parser \<Rightarrow> bool" where
  "advances p q \<longleftrightarrow> ps_tokens q = ps_tokens p \<and> ps_pos p < ps_pos q"

definition keeps :: "parser \<Rightarrow> parser \<Rightarrow> bool" where
  "keeps p q \<longleftrightarrow> ps_tokens q = ps_tokens p \<and> ps_pos p \<le> ps_pos q"

named_theorems progress \<open>successful operations advance the parser\<close>

lemma keeps_refl [simp]: "keeps p p"
  by (simp add: keeps_def)

lemmas motion = advances_def keeps_def

lemma expect_word_advances [progress]: "expect_word p = Inr (w, q) \<Longrightarrow> advances p q"
  by (auto simp: expect_word_def next_token_def advances_def split: option.splits token_kind.splits)

lemma expect_advances [progress]: "expect k p = Inr (u, q) \<Longrightarrow> advances p q"
  by (auto simp: expect_def next_token_def advances_def split: option.splits if_splits)

lemma word_then_semicolon_advances [progress]:
  "word_then_semicolon f p = Inr (x, q) \<Longrightarrow> advances p q"
  by (auto simp: word_then_semicolon_def exec_simps motion dest!: progress)

lemma methods_loop_keeps [progress]: "methods_loop ms p = Inr (ms', q) \<Longrightarrow> keeps p q"
proof (induction ms p rule: methods_loop.induct)
  case (1 ms p)
  show ?case
  proof (cases "\<exists>tok m k. peek p = Some tok \<and> tok_kind tok = Word m \<and> method_of_word m = Some k")
    case True
    then obtain tok m k where t: "peek p = Some tok" "tok_kind tok = Word m" "method_of_word m = Some k"
      by blast
    with "1.prems" have "methods_loop (ms @ [k]) (snd (next_token p)) = Inr (ms', q)"
      by (simp add: methods_loop.simps [of ms p])
    from "1.IH" [OF t(1,2) refl t(3) this] show ?thesis
      by (simp add: motion next_token_def)
  next
    case False
    with "1.prems" show ?thesis
      by (auto simp: methods_loop.simps [of ms p] Let_def split: option.splits token_kind.splits)
  qed
qed

lemma optional_interpreter_keeps [progress]: "optional_interpreter e p = Inr (c, q) \<Longrightarrow> keeps p q"
  by (auto simp: optional_interpreter_def motion split: option.splits token_kind.splits
      dest!: expect_word_advances)

lemma cgi_directive_advances [progress]: "cgi_directive p = Inr (c, q) \<Longrightarrow> advances p q"
  by (auto simp: cgi_directive_def exec_simps motion dest!: progress)

lemma autoindex_directive_advances [progress]: "autoindex_directive p = Inr (c, q) \<Longrightarrow> advances p q"
  by (auto simp: autoindex_directive_def exec_simps motion dest!: progress)

lemma location_directive_advances [progress]:
  "location_directive d l p = Inr (l', q) \<Longrightarrow> advances p q"
  by (auto simp: location_directive_def exec_simps motion split: if_splits dest!: progress)

text \<open>
  The loops of the two kinds of block have one shape: directives until the closing brace. The
  locale states it, with the progress of the directives; what follows from it is proved once and
  used for locations and for servers.
\<close>

locale block_loop =
  fixes loop :: "'s \<Rightarrow> parser \<Rightarrow> parse_abort + ('s \<times> bool) \<times> parser"
    and directive :: "string \<Rightarrow> 's \<Rightarrow> parser \<Rightarrow> parse_abort + 's \<times> parser"
    and unexpected :: "token_kind \<Rightarrow> error_message"
  assumes loop_unfold:
    "loop s p =
       (case peek p of
          None \<Rightarrow> Inr ((s, False), p)
        | Some tok \<Rightarrow>
            (case tok_kind tok of
               RBrace \<Rightarrow> Inr ((s, True), snd (next_token p))
             | Word _ \<Rightarrow>
                 sum_bind (expect_word p) (\<lambda>(d, p1).
                 sum_bind (directive d s p1) (\<lambda>(s', p2). loop s' p2))
             | other \<Rightarrow> perr (unexpected other) (ps_pos p)))"
    and directive_moves: "directive d s p = Inr (s', q) \<Longrightarrow> advances p q"
begin

text \<open>Induction over the run of a loop that succeeds.\<close>

lemma loop_run_induct [consumes 1, case_names stop step]:
  assumes run: "loop s p = Inr ((s', c), q)"
    and stop: "\<And>s p q. keeps p q \<Longrightarrow> P s p s q"
    and step: "\<And>s p d p1 s1 p2 s' q. expect_word p = Inr (d, p1) \<Longrightarrow>
      directive d s p1 = Inr (s1, p2) \<Longrightarrow> P s1 p2 s' q \<Longrightarrow> P s p s' q"
  shows "P s p s' q"
  using run
proof (induction "length (ps_tokens p) - ps_pos p" arbitrary: s p rule: less_induct)
  case less
  show ?case
  proof (cases "\<exists>tok w. peek p = Some tok \<and> tok_kind tok = Word w")
    case True
    with less.prems obtain tok d p1 s1 p2 where t: "peek p = Some tok"
      and e: "expect_word p = Inr (d, p1)" and ld: "directive d s p1 = Inr (s1, p2)"
      and l: "loop s1 p2 = Inr ((s', c), q)"
      by (auto simp: loop_unfold [of s p] exec_simps)
    have "length (ps_tokens p2) - ps_pos p2 < length (ps_tokens p) - ps_pos p"
      using t expect_word_advances [OF e] directive_moves [OF ld]
      by (auto simp: motion peek_def split: if_splits)
    from less.hyps [OF this l] show ?thesis by (rule step [OF e ld])
  next
    case False
    with less.prems have "s' = s" "keeps p q"
      by (auto simp: loop_unfold [of s p] next_token_def motion
          split: option.splits token_kind.splits)
    then show ?thesis using stop by simp
  qed
qed

lemma loop_keeps: "loop s p = Inr ((s', c), q) \<Longrightarrow> keeps p q"
  by (induction rule: loop_run_induct)
     (auto simp: motion dest!: expect_word_advances directive_moves)

lemma loop_invariant:
  assumes "loop s p = Inr ((s', c), q)"
    and "\<And>d s p s1 q. I s \<Longrightarrow> directive d s p = Inr (s1, q) \<Longrightarrow> I s1"
  shows "I s \<Longrightarrow> I s'"
  using assms(1) by (induction rule: loop_run_induct) (auto dest: assms(2))

end

function location_loop :: "location \<Rightarrow> parser \<Rightarrow> parse_abort + (location \<times> bool) \<times> parser" where
  "location_loop l p =
     (case peek p of
        None \<Rightarrow> Inr ((l, False), p)
      | Some tok \<Rightarrow>
          (case tok_kind tok of
             RBrace \<Rightarrow> Inr ((l, True), snd (next_token p))
           | Word _ \<Rightarrow>
               sum_bind (expect_word p) (\<lambda>(d, p1).
               sum_bind (location_directive d l p1) (\<lambda>(l', p2). location_loop l' p2))
           | other \<Rightarrow> perr (Unexpected_in_location other) (ps_pos p)))"
  by pat_completeness auto
termination
proof (relation "measure (\<lambda>(l, p). length (ps_tokens p) - ps_pos p)", goal_cases)
  case (2 l p tok w x d p1 y l' p2)
  have "advances p p1" "advances p1 p2"
    using expect_word_advances location_directive_advances 2 by blast+
  with 2(1) show ?case by (auto simp: advances_def peek_def split: if_splits)
qed simp

declare location_loop.simps [simp del]

interpretation location_block: block_loop location_loop location_directive Unexpected_in_location
  by unfold_locales (fact location_loop.simps, rule location_directive_advances)

definition empty_location :: "string \<Rightarrow> location" where
  "empty_location path =
     \<lparr>loc_path = path, loc_root = [], loc_index = None, loc_methods = [], loc_autoindex = False,
      loc_redirect = None, loc_cgi = None\<rparr>"

definition parse_location :: "parser \<Rightarrow> parse_abort + location \<times> parser" where
  "parse_location p =
     sum_bind (expect_word p) (\<lambda>(path, p).
     sum_bind (expect LBrace p) (\<lambda>(_, p).
     sum_bind (location_loop (empty_location path) p) (\<lambda>((l, closed), p).
     if \<not> closed then perr (Unclosed_location path) (ps_pos p)
     else if path = [] then perr Empty_location_path (ps_pos p)
     else Inr (l, p))))"

lemma parse_location_advances [progress]: "parse_location p = Inr (l, q) \<Longrightarrow> advances p q"
  by (auto simp: parse_location_def exec_simps motion split: if_splits
      dest!: progress location_block.loop_keeps)

section \<open>Server blocks\<close>

text \<open>The variables of \<open>parse_server\<close>.\<close>

record server_acc =
  sa_host :: "string option"
  sa_port :: "nat option"
  sa_name :: "string option"
  sa_max_body :: nat
  sa_error_pages :: "nat \<rightharpoonup> string"
  sa_locations :: "location list"

definition empty_server :: server_acc where
  "empty_server =
     \<lparr>sa_host = None, sa_port = None, sa_name = None, sa_max_body = 1024 * 1024,
      sa_error_pages = Map.empty, sa_locations = []\<rparr>"

definition u16_value :: "(string \<Rightarrow> error_message) \<Rightarrow> string \<Rightarrow> nat \<Rightarrow> parse_abort + nat" where
  "u16_value msg raw pos =
     (case parse_u16 raw of Some n \<Rightarrow> Inr n | None \<Rightarrow> perr (msg raw) pos)"

definition body_size_value :: "string \<Rightarrow> nat \<Rightarrow> parse_abort + nat" where
  "body_size_value raw pos =
     (case parse_body_size raw of
        Ret (Inr n) \<Rightarrow> Inr n
      | Ret (Inl s) \<Rightarrow> perr (Invalid_size s) pos
      | Panic \<Rightarrow> Inl PPanic)"

definition server_directive :: "string \<Rightarrow> server_acc \<Rightarrow> parser \<Rightarrow> parse_abort + server_acc \<times> parser" where
  "server_directive d a p =
     (if d = ''host'' then word_then_semicolon (\<lambda>w. a\<lparr>sa_host := Some w\<rparr>) p
      else if d = ''port'' then
        sum_bind (expect_word p) (\<lambda>(raw, p).
        sum_bind (u16_value Invalid_port raw (ps_pos p)) (\<lambda>n.
        sum_bind (expect Semicolon p) (\<lambda>(_, p). Inr (a\<lparr>sa_port := Some n\<rparr>, p))))
      else if d = ''server_name'' then word_then_semicolon (\<lambda>w. a\<lparr>sa_name := Some w\<rparr>) p
      else if d = ''client_max_body_size'' then
        sum_bind (expect_word p) (\<lambda>(raw, p).
        sum_bind (body_size_value raw (ps_pos p)) (\<lambda>n.
        sum_bind (expect Semicolon p) (\<lambda>(_, p). Inr (a\<lparr>sa_max_body := n\<rparr>, p))))
      else if d = ''error_page'' then
        sum_bind (expect_word p) (\<lambda>(code_str, p).
        sum_bind (u16_value Invalid_error_code code_str (ps_pos p)) (\<lambda>code.
        sum_bind (expect_word p) (\<lambda>(path, p).
        sum_bind (expect Semicolon p) (\<lambda>(_, p).
        Inr (a\<lparr>sa_error_pages := (sa_error_pages a)(code \<mapsto> path)\<rparr>, p)))))
      else if d = ''location'' then
        sum_bind (parse_location p) (\<lambda>(l, p). Inr (a\<lparr>sa_locations := sa_locations a @ [l]\<rparr>, p))
      else perr (Unknown_server_directive d) (ps_pos p))"

lemma server_directive_advances [progress]:
  "server_directive d a p = Inr (a', q) \<Longrightarrow> advances p q"
  by (auto simp: server_directive_def exec_simps motion split: if_splits dest!: progress)

function server_loop :: "server_acc \<Rightarrow> parser \<Rightarrow> parse_abort + (server_acc \<times> bool) \<times> parser" where
  "server_loop a p =
     (case peek p of
        None \<Rightarrow> Inr ((a, False), p)
      | Some tok \<Rightarrow>
          (case tok_kind tok of
             RBrace \<Rightarrow> Inr ((a, True), snd (next_token p))
           | Word _ \<Rightarrow>
               sum_bind (expect_word p) (\<lambda>(d, p1).
               sum_bind (server_directive d a p1) (\<lambda>(a', p2). server_loop a' p2))
           | other \<Rightarrow> perr (Unexpected_in_server other) (ps_pos p)))"
  by pat_completeness auto
termination
proof (relation "measure (\<lambda>(a, p). length (ps_tokens p) - ps_pos p)", goal_cases)
  case (2 a p tok w x d p1 y a' p2)
  have "advances p p1" "advances p1 p2"
    using expect_word_advances server_directive_advances 2 by blast+
  with 2(1) show ?case by (auto simp: advances_def peek_def split: if_splits)
qed simp

declare server_loop.simps [simp del]

interpretation server_block: block_loop server_loop server_directive Unexpected_in_server
  by unfold_locales (fact server_loop.simps, rule server_directive_advances)

definition parse_server :: "parser \<Rightarrow> parse_abort + server_config \<times> parser" where
  "parse_server p =
     sum_bind (expect LBrace p) (\<lambda>(_, p).
     sum_bind (server_loop empty_server p) (\<lambda>((a, closed), p).
     if \<not> closed then perr Unclosed_server (ps_pos p)
     else
       (case sa_host a of
          None \<Rightarrow> perr Missing_host (ps_pos p)
        | Some host \<Rightarrow>
            (case sa_port a of
               None \<Rightarrow> perr Missing_port (ps_pos p)
             | Some port \<Rightarrow>
                 Inr (\<lparr>srv_host = host, srv_port = port, srv_name = sa_name a,
                       srv_max_body = sa_max_body a, srv_error_pages = sa_error_pages a,
                       srv_locations = sa_locations a\<rparr>, p)))))"

lemma parse_server_advances [progress]: "parse_server p = Inr (s, q) \<Longrightarrow> advances p q"
  by (auto simp: parse_server_def exec_simps motion split: if_splits option.splits
      dest!: progress server_block.loop_keeps)

section \<open>The whole file\<close>

function config_loop :: "server_config list \<Rightarrow> parser \<Rightarrow> parse_abort + server_config list \<times> parser" where
  "config_loop servers p =
     (case peek p of
        None \<Rightarrow> Inr (servers, p)
      | Some _ \<Rightarrow>
          sum_bind (expect_word p) (\<lambda>(word, p1).
          if word = ''server'' then
            sum_bind (parse_server p1) (\<lambda>(s, p2). config_loop (servers @ [s]) p2)
          else perr (Unknown_top_level word) (ps_pos p1)))"
  by pat_completeness auto
termination
proof (relation "measure (\<lambda>(s, p). length (ps_tokens p) - ps_pos p)", goal_cases)
  case (2 servers p tok x d p1 y s p2)
  have "advances p p1" "advances p1 p2"
    using expect_word_advances parse_server_advances 2 by blast+
  with 2(1) show ?case by (auto simp: advances_def peek_def split: if_splits)
qed simp

declare config_loop.simps [simp del]

definition parse_config :: "parser \<Rightarrow> parse_abort + config" where
  "parse_config p =
     sum_bind (config_loop [] p) (\<lambda>(servers, p).
     if servers = [] then perr No_server 0 else Inr \<lparr>cfg_servers = servers\<rparr>)"

end
