(* ===== verification/Config_Roundtrip.thy ===== *)
theory Config_Roundtrip
  imports Config_Parser
begin

text \<open>
  What the parser of \<open>src/config/parser.rs\<close> promises: a printer for configurations, the proof
  that parsing inverts it, the ranges every parsed configuration satisfies, and what the line
  number of an error is. \<open>rest p\<close> is what a parser still has to read; \<open>yields r x ks\<close> says
  that a result is the value \<open>x\<close> with the tokens \<open>ks\<close> left; \<open>seg loop s ks s'\<close> says that
  a block loop in state \<open>s\<close> reads \<open>ks\<close> and goes on in state \<open>s'\<close>.
\<close>

section \<open>Reading a given token sequence\<close>

definition rest :: "parser \<Rightarrow> token_kind list" where
  "rest p = map tok_kind (drop (ps_pos p) (ps_tokens p))"

definition yields :: "parse_abort + 'a \<times> parser \<Rightarrow> 'a \<Rightarrow> token_kind list \<Rightarrow> bool" where
  "yields r x ks \<longleftrightarrow> (\<exists>q. r = Inr (x, q) \<and> rest q = ks)"

lemma yields_Inr [intro]: "rest q = ks \<Longrightarrow> yields (Inr (x, q)) x ks"
  by (simp add: yields_def)

lemma yields_bind:
  "yields m x ks \<Longrightarrow> (\<And>q. rest q = ks \<Longrightarrow> yields (f (x, q)) y ks') \<Longrightarrow> yields (sum_bind m f) y ks'"
  by (auto simp: yields_def)

lemma rest_ConsE:
  assumes "rest p = k # ks"
  obtains tok q where "next_token p = (Some tok, q)" "peek p = Some tok" "tok_kind tok = k"
    "rest q = ks"
proof -
  from assms have "ps_pos p < length (ps_tokens p)"
    by (metis drop_all list.discI list.simps(8) not_le rest_def)
  with assms that show ?thesis
    by (auto simp: rest_def peek_def next_token_def simp flip: Cons_nth_drop_Suc)
qed

lemma rest_Nil: "rest p = [] \<longleftrightarrow> peek p = None"
  by (auto simp: rest_def peek_def)

lemma yields_expect_word [intro]: "rest p = Word w # ks \<Longrightarrow> yields (expect_word p) w ks"
  by (erule rest_ConsE) (auto simp: expect_word_def)

lemma yields_expect [intro]: "rest p = k # ks \<Longrightarrow> yields (expect k p) () ks"
  by (erule rest_ConsE) (auto simp: expect_def)

named_theorems reads \<open>one step of a parser on a known token\<close>

lemma yields_word_bind [reads]:
  "rest p = Word w # ks \<Longrightarrow> (\<And>q. rest q = ks \<Longrightarrow> yields (f (w, q)) y ks') \<Longrightarrow>
   yields (sum_bind (expect_word p) f) y ks'"
  by (rule yields_bind [OF yields_expect_word])

lemma yields_expect_bind [reads]:
  "rest p = k # ks \<Longrightarrow> (\<And>q. rest q = ks \<Longrightarrow> yields (f ((), q)) y ks') \<Longrightarrow>
   yields (sum_bind (expect k p) f) y ks'"
  by (rule yields_bind [OF yields_expect])

lemma yields_word_then_semicolon [intro]:
  assumes "rest p = Word w # Semicolon # ks" "x = f w"
  shows "yields (word_then_semicolon f p) x ks"
  unfolding word_then_semicolon_def using assms by (auto intro!: reads)

definition seg ::
    "('s \<Rightarrow> parser \<Rightarrow> parse_abort + 'r \<times> parser) \<Rightarrow> 's \<Rightarrow> token_kind list \<Rightarrow> 's \<Rightarrow> bool" where
  "seg loop s ks s' \<longleftrightarrow>
     (\<forall>p further y out. rest p = ks @ further \<longrightarrow>
        (\<forall>q. rest q = further \<longrightarrow> yields (loop s' q) y out) \<longrightarrow> yields (loop s p) y out)"

lemma seg_refl [simp]: "seg loop s [] s"
  by (simp add: seg_def)

lemma seg_append: "seg loop s ks s' \<Longrightarrow> seg loop s' ks' s'' \<Longrightarrow> seg loop s (ks @ ks') s''"
  unfolding seg_def by (metis append_assoc)

lemma seg_concat:
  assumes "\<And>s x. x \<in> set xs \<Longrightarrow> seg loop s (f x) (g s x)"
  shows "seg loop s (concat (map f xs)) (foldl g s xs)"
  using assms by (induction xs arbitrary: s) (auto intro: seg_append)

lemma seg_yields: "seg loop s ks s' \<Longrightarrow> rest p = ks @ further \<Longrightarrow>
   (\<And>q. rest q = further \<Longrightarrow> yields (loop s' q) y out) \<Longrightarrow> yields (loop s p) y out"
  unfolding seg_def by blast

section \<open>Printing a configuration\<close>

fun method_word :: "config_method \<Rightarrow> string" where
  "method_word CGet = ''GET''"
| "method_word CPost = ''POST''"
| "method_word CDelete = ''DELETE''"

definition print_location :: "location \<Rightarrow> token_kind list" where
  "print_location l =
     [Word ''location'', Word (loc_path l), LBrace] @
     (if loc_root l = [] then [] else [Word ''root'', Word (loc_root l), Semicolon]) @
     (case loc_index l of None \<Rightarrow> [] | Some w \<Rightarrow> [Word ''index'', Word w, Semicolon]) @
     Word ''methods'' # map (\<lambda>m. Word (method_word m)) (loc_methods l) @ [Semicolon] @
     [Word ''autoindex'', Word (if loc_autoindex l then ''on'' else ''off''), Semicolon] @
     (case loc_redirect l of None \<Rightarrow> [] | Some w \<Rightarrow> [Word ''redirect'', Word w, Semicolon]) @
     (case loc_cgi l of
        None \<Rightarrow> []
      | Some c \<Rightarrow> [Word ''cgi'', Word (cgi_extension c), Word (cgi_interpreter c), Semicolon]) @
     [RBrace]"

definition print_error_page :: "nat \<times> string \<Rightarrow> token_kind list" where
  "print_error_page e = [Word ''error_page'', Word (show_nat (fst e)), Word (snd e), Semicolon]"

text \<open>The error pages are printed from a list of pairs, the map they make being
  \<open>srv_error_pages\<close>.\<close>

definition print_server :: "(nat \<times> string) list \<Rightarrow> server_config \<Rightarrow> token_kind list" where
  "print_server pages s =
     [Word ''server'', LBrace, Word ''host'', Word (srv_host s), Semicolon,
      Word ''port'', Word (show_nat (srv_port s)), Semicolon] @
     (case srv_name s of None \<Rightarrow> [] | Some w \<Rightarrow> [Word ''server_name'', Word w, Semicolon]) @
     [Word ''client_max_body_size'', Word (show_nat (srv_max_body s)), Semicolon] @
     concat (map print_error_page pages) @
     concat (map print_location (srv_locations s)) @ [RBrace]"

definition server_ranges :: "server_config \<Rightarrow> bool" where
  "server_ranges s \<longleftrightarrow>
     srv_port s < 65536 \<and> srv_max_body s < usize_bound \<and>
     (\<forall>k w. srv_error_pages s k = Some w \<longrightarrow> k < 65536) \<and> (\<forall>l \<in> set (srv_locations s). loc_path l \<noteq> [])"

definition pages_of :: "(nat \<times> string) list \<Rightarrow> nat \<rightharpoonup> string" where
  "pages_of pages = foldl (\<lambda>m e. m(fst e \<mapsto> snd e)) Map.empty pages"

definition print_config :: "((nat \<times> string) list \<times> server_config) list \<Rightarrow> token_kind list" where
  "print_config ss = concat (map (\<lambda>(pages, s). print_server pages s) ss)"

section \<open>Parsing inverts printing: locations\<close>

context block_loop begin

lemma seg_directive:
  assumes "\<And>q further. rest q = ks @ further \<Longrightarrow> yields (directive d s q) s' further"
  shows "seg loop s (Word d # ks) s'"
  unfolding seg_def
proof (intro allI impI)
  fix p further y out
  assume r: "rest p = (Word d # ks) @ further"
    and go: "\<forall>q. rest q = further \<longrightarrow> yields (loop s' q) y out"
  from r obtain tok where t: "peek p = Some tok" "tok_kind tok = Word d"
    by (auto elim: rest_ConsE)
  have "yields (expect_word p) d (ks @ further)" using r by auto
  then show "yields (loop s p) y out"
    unfolding loop_unfold [of s p] t option.case token_kind.case
    by (rule yields_bind) (auto intro!: yields_bind [OF assms] simp: go)
qed

lemma loop_close: "rest p = RBrace # ks \<Longrightarrow> yields (loop s p) (s, True) ks"
  by (erule rest_ConsE) (auto simp: loop_unfold [of s p])

end

lemma method_of_word_word [simp]: "method_of_word (method_word m) = Some m"
  by (cases m) (simp_all add: method_of_word_def)

lemma yields_methods_loop:
  "rest p = map (\<lambda>m. Word (method_word m)) ms @ Semicolon # ks \<Longrightarrow>
   yields (methods_loop acc p) (acc @ ms) (Semicolon # ks)"
proof (induction ms arbitrary: acc p)
  case Nil
  then obtain tok where "peek p = Some tok" "tok_kind tok = Semicolon"
    by (auto elim: rest_ConsE)
  with Nil show ?case
    by (auto simp: methods_loop.simps [of acc p])
next
  case (Cons m ms)
  then obtain tok q where t: "next_token p = (Some tok, q)" "peek p = Some tok"
      "tok_kind tok = Word (method_word m)"
    and r: "rest q = map (\<lambda>m. Word (method_word m)) ms @ Semicolon # ks"
    by (auto elim: rest_ConsE)
  from Cons.IH [OF r, of "acc @ [m]"] t show ?case
    by (simp add: methods_loop.simps [of acc p])
qed

lemma yields_methods_directive:
  assumes "rest p = map (\<lambda>m. Word (method_word m)) ms @ Semicolon # ks"
  shows "yields (location_directive ''methods'' l p) (l\<lparr>loc_methods := loc_methods l @ ms\<rparr>) ks"
  unfolding location_directive_def
  by (simp, rule yields_bind [OF yields_methods_loop [OF assms]]) (auto intro!: reads)

lemma yields_autoindex_directive:
  assumes "rest p = Word (if b then ''on'' else ''off'') # Semicolon # ks"
  shows "yields (location_directive ''autoindex'' l p) (l\<lparr>loc_autoindex := b\<rparr>) ks"
proof -
  have "yields (autoindex_directive p) b ks"
    unfolding autoindex_directive_def using assms
    by (auto simp: on_off_def intro!: reads)
  then show ?thesis
    by (auto simp: location_directive_def intro!: yields_bind)
qed

lemma yields_interpreter [reads]:
  assumes "rest q = Word i # Semicolon # ks"
    and "\<And>r. rest r = Semicolon # ks \<Longrightarrow> yields (f (i, r)) y ks'"
  shows "yields (sum_bind (optional_interpreter e q) f) y ks'"
proof (rule yields_bind)
  from assms(1) obtain tok where "peek q = Some tok" "tok_kind tok = Word i"
    by (auto elim: rest_ConsE)
  with assms(1) show "yields (optional_interpreter e q) i (Semicolon # ks)"
    by (auto simp: optional_interpreter_def)
qed (rule assms(2))

lemma yields_cgi_directive:
  assumes "rest p = Word e # Word i # Semicolon # ks"
  shows "yields (location_directive ''cgi'' l p)
           (l\<lparr>loc_cgi := Some \<lparr>cgi_extension = e, cgi_interpreter = i\<rparr>\<rparr>) ks"
proof -
  have "yields (cgi_directive p) \<lparr>cgi_extension = e, cgi_interpreter = i\<rparr> ks"
    unfolding cgi_directive_def using assms by (auto intro!: reads)
  then show ?thesis
    by (auto simp: location_directive_def intro!: yields_bind)
qed

lemma seg_root: "seg location_loop l [Word ''root'', Word w, Semicolon] (l\<lparr>loc_root := w\<rparr>)"
  and seg_index: "seg location_loop l [Word ''index'', Word w, Semicolon] (l\<lparr>loc_index := Some w\<rparr>)"
  and seg_redirect:
    "seg location_loop l [Word ''redirect'', Word w, Semicolon] (l\<lparr>loc_redirect := Some w\<rparr>)"
  by (rule location_block.seg_directive; simp add: location_directive_def yields_word_then_semicolon)+

lemma seg_methods:
  "seg location_loop l (Word ''methods'' # map (\<lambda>m. Word (method_word m)) ms @ [Semicolon])
     (l\<lparr>loc_methods := loc_methods l @ ms\<rparr>)"
  by (rule location_block.seg_directive) (simp add: yields_methods_directive)

lemma seg_autoindex:
  "seg location_loop l [Word ''autoindex'', Word (if b then ''on'' else ''off''), Semicolon]
     (l\<lparr>loc_autoindex := b\<rparr>)"
  by (rule location_block.seg_directive) (simp add: yields_autoindex_directive)

lemma seg_cgi:
  "seg location_loop l [Word ''cgi'', Word e, Word i, Semicolon]
     (l\<lparr>loc_cgi := Some \<lparr>cgi_extension = e, cgi_interpreter = i\<rparr>\<rparr>)"
  by (rule location_block.seg_directive) (simp add: yields_cgi_directive)

lemma seg_location_body:
  "seg location_loop (empty_location (loc_path l))
     ((if loc_root l = [] then [] else [Word ''root'', Word (loc_root l), Semicolon]) @
      (case loc_index l of None \<Rightarrow> [] | Some w \<Rightarrow> [Word ''index'', Word w, Semicolon]) @
      (Word ''methods'' # map (\<lambda>m. Word (method_word m)) (loc_methods l) @ [Semicolon]) @
      [Word ''autoindex'', Word (if loc_autoindex l then ''on'' else ''off''), Semicolon] @
      (case loc_redirect l of None \<Rightarrow> [] | Some w \<Rightarrow> [Word ''redirect'', Word w, Semicolon]) @
      (case loc_cgi l of
         None \<Rightarrow> []
       | Some c \<Rightarrow> [Word ''cgi'', Word (cgi_extension c), Word (cgi_interpreter c), Semicolon])) l"
proof -
  define l0 where "l0 = empty_location (loc_path l)"
  define l1 where "l1 = l0\<lparr>loc_root := loc_root l\<rparr>"
  define l2 where "l2 = l1\<lparr>loc_index := loc_index l\<rparr>"
  define l3 where "l3 = l2\<lparr>loc_methods := loc_methods l\<rparr>"
  define l4 where "l4 = l3\<lparr>loc_autoindex := loc_autoindex l\<rparr>"
  define l5 where "l5 = l4\<lparr>loc_redirect := loc_redirect l\<rparr>"
  define l6 where "l6 = l5\<lparr>loc_cgi := loc_cgi l\<rparr>"
  note defs = l0_def l1_def l2_def l3_def l4_def l5_def l6_def empty_location_def
  have s1: "seg location_loop l0
      (if loc_root l = [] then [] else [Word ''root'', Word (loc_root l), Semicolon]) l1"
    using seg_root [of l0 "loc_root l"] by (simp add: l1_def) (simp add: defs)
  have s2: "seg location_loop l1
      (case loc_index l of None \<Rightarrow> [] | Some w \<Rightarrow> [Word ''index'', Word w, Semicolon]) l2"
    using seg_index [of l1] by (cases "loc_index l") (simp_all add: l2_def, simp add: defs)
  have s3: "seg location_loop l2
      (Word ''methods'' # map (\<lambda>m. Word (method_word m)) (loc_methods l) @ [Semicolon]) l3"
    using seg_methods [of l2 "loc_methods l"] by (simp add: defs)
  have s4: "seg location_loop l3
      [Word ''autoindex'', Word (if loc_autoindex l then ''on'' else ''off''), Semicolon] l4"
    unfolding l4_def by (rule seg_autoindex)
  have s5: "seg location_loop l4
      (case loc_redirect l of None \<Rightarrow> [] | Some w \<Rightarrow> [Word ''redirect'', Word w, Semicolon]) l5"
    using seg_redirect [of l4] by (cases "loc_redirect l") (simp_all add: l5_def, simp add: defs)
  have s6: "seg location_loop l5
      (case loc_cgi l of
         None \<Rightarrow> []
       | Some c \<Rightarrow> [Word ''cgi'', Word (cgi_extension c), Word (cgi_interpreter c), Semicolon]) l6"
    using seg_cgi [of l5] by (cases "loc_cgi l"; cases "the (loc_cgi l)") (simp_all add: l6_def, simp add: defs)
  have "l6 = l"
    by (simp add: defs)
  with seg_append [OF s1 seg_append [OF s2 seg_append [OF s3 seg_append [OF s4 seg_append [OF s5 s6]]]]]
  show ?thesis by (simp only: l0_def)
qed

lemma yields_parse_location:
  assumes "rest p = tl (print_location l) @ ks" "loc_path l \<noteq> []"
  shows "yields (parse_location p) l ks"
proof -
  have "yields (location_loop (empty_location (loc_path l)) q) (l, True) ks"
    if "rest q = drop 3 (print_location l) @ ks" for q
    using that location_block.loop_close
    by (intro seg_yields [OF seg_location_body, of q l "RBrace # ks"])
       (simp_all add: print_location_def numeral_3_eq_3)
  note loop = this
  have "rest p = Word (loc_path l) # LBrace # drop 3 (print_location l) @ ks"
    using assms(1) by (simp add: print_location_def numeral_3_eq_3)
  then show ?thesis
    unfolding parse_location_def
    by (rule yields_word_bind) (use assms(2) in \<open>auto intro!: reads yields_bind [OF loop]\<close>)
qed

section \<open>Parsing inverts printing: servers and files\<close>

lemma u16_value_show [simp]: "n < 65536 \<Longrightarrow> u16_value msg (show_nat n) pos = Inr n"
  by (simp add: u16_value_def)

lemma body_size_value_show [simp]: "n < usize_bound \<Longrightarrow> body_size_value (show_nat n) pos = Inr n"
  by (simp add: body_size_value_def parse_body_size_plain)

lemma seg_host: "seg server_loop a [Word ''host'', Word w, Semicolon] (a\<lparr>sa_host := Some w\<rparr>)"
  and seg_name: "seg server_loop a [Word ''server_name'', Word w, Semicolon] (a\<lparr>sa_name := Some w\<rparr>)"
  by (rule server_block.seg_directive, auto simp: server_directive_def)+

lemma seg_port:
  "n < 65536 \<Longrightarrow> seg server_loop a [Word ''port'', Word (show_nat n), Semicolon] (a\<lparr>sa_port := Some n\<rparr>)"
  by (rule server_block.seg_directive) (auto simp: server_directive_def intro!: reads)

lemma seg_max_body:
  "n < usize_bound \<Longrightarrow>
   seg server_loop a [Word ''client_max_body_size'', Word (show_nat n), Semicolon]
     (a\<lparr>sa_max_body := n\<rparr>)"
  by (rule server_block.seg_directive) (auto simp: server_directive_def intro!: reads)

lemma seg_error_page:
  "fst e < 65536 \<Longrightarrow>
   seg server_loop a (print_error_page e)
     (a\<lparr>sa_error_pages := (sa_error_pages a)(fst e \<mapsto> snd e)\<rparr>)"
  unfolding print_error_page_def
  by (rule server_block.seg_directive) (auto simp: server_directive_def intro!: reads)

lemma seg_server_location:
  assumes "loc_path l \<noteq> []"
  shows "seg server_loop a (print_location l) (a\<lparr>sa_locations := sa_locations a @ [l]\<rparr>)"
proof -
  have "print_location l = Word ''location'' # tl (print_location l)"
    by (simp add: print_location_def)
  moreover have "seg server_loop a (Word ''location'' # tl (print_location l))
      (a\<lparr>sa_locations := sa_locations a @ [l]\<rparr>)"
    using yields_parse_location [OF _ assms]
    by (intro server_block.seg_directive) (auto simp: server_directive_def intro!: yields_bind)
  ultimately show ?thesis by simp
qed

lemma foldl_error_pages:
  "foldl (\<lambda>a e. a\<lparr>sa_error_pages := (sa_error_pages a)(fst e \<mapsto> snd e)\<rparr>) a es =
   a\<lparr>sa_error_pages := foldl (\<lambda>m e. m(fst e \<mapsto> snd e)) (sa_error_pages a) es\<rparr>"
  by (induction es arbitrary: a) simp_all

lemma foldl_locations:
  "foldl (\<lambda>a l. a\<lparr>sa_locations := sa_locations a @ [l]\<rparr>) a ls =
   a\<lparr>sa_locations := sa_locations a @ ls\<rparr>"
  by (induction ls arbitrary: a) simp_all

text \<open>A server block and the pairs its error pages are printed from.\<close>

definition printable :: "(nat \<times> string) list \<times> server_config \<Rightarrow> bool" where
  "printable ps \<longleftrightarrow> server_ranges (snd ps) \<and> pages_of (fst ps) = srv_error_pages (snd ps)"

lemma dom_foldl_pages: "dom (foldl (\<lambda>m e. m(fst e \<mapsto> snd e)) m es) = dom m \<union> fst ` set es"
  by (induction es arbitrary: m) auto

lemma printable_codes: "printable (pages, s) \<Longrightarrow> e \<in> set pages \<Longrightarrow> fst e < 65536"
proof -
  assume p: "printable (pages, s)" and e: "e \<in> set pages"
  from e have "fst e \<in> dom (pages_of pages)"
    by (simp add: pages_of_def dom_foldl_pages)
  with p show ?thesis by (auto simp: printable_def server_ranges_def)
qed

lemma seg_server_body:
  assumes "printable (pages, s)"
  shows "seg server_loop empty_server
     ([Word ''host'', Word (srv_host s), Semicolon] @
      [Word ''port'', Word (show_nat (srv_port s)), Semicolon] @
      (case srv_name s of None \<Rightarrow> [] | Some w \<Rightarrow> [Word ''server_name'', Word w, Semicolon]) @
      [Word ''client_max_body_size'', Word (show_nat (srv_max_body s)), Semicolon] @
      concat (map print_error_page pages) @ concat (map print_location (srv_locations s)))
     \<lparr>sa_host = Some (srv_host s), sa_port = Some (srv_port s), sa_name = srv_name s,
      sa_max_body = srv_max_body s, sa_error_pages = srv_error_pages s,
      sa_locations = srv_locations s\<rparr>"
proof -
  have ok: "srv_port s < 65536" "srv_max_body s < usize_bound"
    "\<forall>l \<in> set (srv_locations s). loc_path l \<noteq> []"
    and pages: "pages_of pages = srv_error_pages s"
    using assms by (simp_all add: printable_def server_ranges_def)
  define a1 where "a1 = empty_server\<lparr>sa_host := Some (srv_host s)\<rparr>"
  define a2 where "a2 = a1\<lparr>sa_port := Some (srv_port s)\<rparr>"
  define a3 where "a3 = a2\<lparr>sa_name := srv_name s\<rparr>"
  define a4 where "a4 = a3\<lparr>sa_max_body := srv_max_body s\<rparr>"
  define a5 where "a5 = foldl (\<lambda>a e. a\<lparr>sa_error_pages := (sa_error_pages a)(fst e \<mapsto> snd e)\<rparr>) a4 pages"
  define a6 where "a6 = foldl (\<lambda>a l. a\<lparr>sa_locations := sa_locations a @ [l]\<rparr>) a5 (srv_locations s)"
  note defs = a1_def a2_def a3_def a4_def empty_server_def
  have s1: "seg server_loop empty_server [Word ''host'', Word (srv_host s), Semicolon] a1"
    unfolding a1_def by (rule seg_host)
  have s2: "seg server_loop a1 [Word ''port'', Word (show_nat (srv_port s)), Semicolon] a2"
    unfolding a2_def by (rule seg_port) (rule ok)
  have s3: "seg server_loop a2
      (case srv_name s of None \<Rightarrow> [] | Some w \<Rightarrow> [Word ''server_name'', Word w, Semicolon]) a3"
    using seg_name [of a2] by (cases "srv_name s") (simp_all add: a3_def, simp add: defs)
  have s4: "seg server_loop a3 [Word ''client_max_body_size'', Word (show_nat (srv_max_body s)), Semicolon] a4"
    unfolding a4_def by (rule seg_max_body) (rule ok)
  have s5: "seg server_loop a4 (concat (map print_error_page pages)) a5"
    unfolding a5_def using printable_codes [OF assms] by (intro seg_concat seg_error_page) auto
  have s6: "seg server_loop a5 (concat (map print_location (srv_locations s))) a6"
    unfolding a6_def using ok(3) by (intro seg_concat seg_server_location) auto
  have "a6 = \<lparr>sa_host = Some (srv_host s), sa_port = Some (srv_port s), sa_name = srv_name s,
      sa_max_body = srv_max_body s, sa_error_pages = srv_error_pages s,
      sa_locations = srv_locations s\<rparr>"
    using pages by (simp add: a6_def a5_def foldl_error_pages foldl_locations defs pages_of_def)
  with seg_append [OF s1 seg_append [OF s2 seg_append [OF s3 seg_append [OF s4 seg_append [OF s5 s6]]]]]
  show ?thesis by simp
qed

lemma server_config_eta [simp]:
  "\<lparr>srv_host = srv_host s, srv_port = srv_port s, srv_name = srv_name s,
     srv_max_body = srv_max_body s, srv_error_pages = srv_error_pages s,
     srv_locations = srv_locations s\<rparr> = s"
  by (cases s) simp

lemma yields_parse_server:
  assumes "rest p = tl (print_server pages s) @ ks" "printable (pages, s)"
  shows "yields (parse_server p) s ks"
proof -
  let ?a = "\<lparr>sa_host = Some (srv_host s), sa_port = Some (srv_port s), sa_name = srv_name s,
      sa_max_body = srv_max_body s, sa_error_pages = srv_error_pages s,
      sa_locations = srv_locations s\<rparr>"
  have "yields (server_loop empty_server q) (?a, True) ks"
    if "rest q = drop 2 (print_server pages s) @ ks" for q
    using that server_block.loop_close
    by (intro seg_yields [OF seg_server_body [OF assms(2)], of q "RBrace # ks"])
       (simp_all add: print_server_def numeral_2_eq_2)
  note loop = this
  have "rest p = LBrace # drop 2 (print_server pages s) @ ks"
    using assms(1) by (simp add: print_server_def numeral_2_eq_2)
  then show ?thesis
    unfolding parse_server_def
    by (rule yields_expect_bind) (auto intro!: yields_bind [OF loop] yields_Inr)
qed

lemma seg_config:
  assumes "printable (pages, s)"
  shows "seg config_loop ss (print_server pages s) (ss @ [s])"
  unfolding seg_def
proof (intro allI impI)
  fix p further y out
  assume r: "rest p = print_server pages s @ further"
    and go: "\<forall>q. rest q = further \<longrightarrow> yields (config_loop (ss @ [s]) q) y out"
  have hd: "print_server pages s = Word ''server'' # tl (print_server pages s)"
    by (simp add: print_server_def)
  with r obtain tok where t: "peek p = Some tok"
    by (metis append_Cons rest_ConsE)
  have "yields (expect_word p) ''server'' (tl (print_server pages s) @ further)"
    using r hd by (metis append_Cons yields_expect_word)
  then show "yields (config_loop ss p) y out"
    unfolding config_loop.simps [of ss p] t option.case
    by (rule yields_bind) (auto intro!: yields_bind [OF yields_parse_server [OF _ assms]] simp: go)
qed

lemma yields_config_loop:
  "\<forall>x \<in> set xs. printable x \<Longrightarrow> rest p = print_config xs \<Longrightarrow>
   yields (config_loop ss p) (ss @ map snd xs) []"
proof (induction xs arbitrary: ss p)
  case Nil
  then show ?case
    by (auto simp: print_config_def rest_Nil config_loop.simps [of ss p])
next
  case (Cons x xs)
  obtain pages s where x: "x = (pages, s)" by fastforce
  with Cons.prems have r: "rest p = print_server pages s @ print_config xs" and pr: "printable (pages, s)"
    by (simp_all add: print_config_def)
  have "yields (config_loop (ss @ [s]) q) (ss @ map snd (x # xs)) []" if "rest q = print_config xs" for q
    using Cons.IH [OF _ that, of "ss @ [s]"] Cons.prems(1) x by simp
  then show ?case by (rule seg_yields [OF seg_config [OF pr] r])
qed

lemma parse_printed_tokens:
  assumes "xs \<noteq> []" "\<forall>x \<in> set xs. printable x" "map tok_kind ts = print_config xs"
  shows "parse_config (new_parser ts) = Inr \<lparr>cfg_servers = map snd xs\<rparr>"
proof -
  have "rest (new_parser ts) = print_config xs"
    using assms(3) by (simp add: rest_def new_parser_def)
  with yields_config_loop [OF assms(2) this, of "[]"] assms(1) show ?thesis
    by (auto simp: parse_config_def yields_def)
qed

section \<open>What every parsed configuration satisfies\<close>

lemma location_directive_path: "location_directive d l p = Inr (l', q) \<Longrightarrow> loc_path l' = loc_path l"
  by (auto simp: location_directive_def word_then_semicolon_def exec_simps split: if_splits)

lemma parse_location_path: "parse_location p = Inr (l, q) \<Longrightarrow> loc_path l \<noteq> []"
proof -
  assume "parse_location p = Inr (l, q)"
  then obtain path p1 where "path \<noteq> []" "location_loop (empty_location path) p1 = Inr ((l, True), q)"
    by (auto simp: parse_location_def exec_simps split: if_splits)
  then show ?thesis
    using location_block.loop_invariant [where I = "\<lambda>l. loc_path l = path"] location_directive_path
    by (metis (no_types, lifting) empty_location_def location.select_convs(1))
qed

definition acc_ranges :: "server_acc \<Rightarrow> bool" where
  "acc_ranges a \<longleftrightarrow>
     (\<forall>n. sa_port a = Some n \<longrightarrow> n < 65536) \<and> sa_max_body a < usize_bound \<and>
     (\<forall>k w. sa_error_pages a k = Some w \<longrightarrow> k < 65536) \<and> (\<forall>l \<in> set (sa_locations a). loc_path l \<noteq> [])"

lemma u16_value_bound: "u16_value msg raw pos = Inr n \<Longrightarrow> n < 65536"
  by (auto simp: u16_value_def dest: from_str_radix_bound split: option.splits)

lemma body_size_value_bound: "body_size_value raw pos = Inr n \<Longrightarrow> n < usize_bound"
  by (auto simp: body_size_value_def dest: parse_body_size_bound split: exec.splits sum.splits)

lemma server_directive_ranges:
  "acc_ranges a \<Longrightarrow> server_directive d a p = Inr (a', q) \<Longrightarrow> acc_ranges a'"
  by (auto simp: server_directive_def word_then_semicolon_def exec_simps acc_ranges_def
      split: if_splits dest!: u16_value_bound body_size_value_bound parse_location_path)

lemma parse_server_ranges: "parse_server p = Inr (s, q) \<Longrightarrow> server_ranges s"
proof -
  assume "parse_server p = Inr (s, q)"
  then obtain a p1 where l: "server_loop empty_server p1 = Inr ((a, True), q)"
    and s: "sa_host a = Some (srv_host s)" "sa_port a = Some (srv_port s)"
      "srv_max_body s = sa_max_body a" "srv_error_pages s = sa_error_pages a"
      "srv_locations s = sa_locations a"
    by (auto simp: parse_server_def exec_simps split: if_splits option.splits)
  have "acc_ranges a"
    by (rule server_block.loop_invariant [OF l]) 
       (auto dest: server_directive_ranges, simp add: acc_ranges_def empty_server_def usize_bound_def)
  with s show ?thesis by (simp add: acc_ranges_def server_ranges_def)
qed

lemma config_loop_ranges:
  "config_loop ss p = Inr (ss', q) \<Longrightarrow> \<forall>s \<in> set ss. server_ranges s \<Longrightarrow> \<forall>s \<in> set ss'. server_ranges s"
proof (induction ss p rule: config_loop.induct)
  case (1 ss p)
  show ?case
  proof (cases "peek p")
    case None
    with "1.prems" show ?thesis by (simp add: config_loop.simps [of ss p])
  next
    case (Some tok)
    with "1.prems"(1) obtain p1 s p2 where e: "expect_word p = Inr (''server'', p1)"
      and ps: "parse_server p1 = Inr (s, p2)" and "config_loop (ss @ [s]) p2 = Inr (ss', q)"
      by (auto simp: config_loop.simps [of ss p] exec_simps split: if_splits)
    then show ?thesis
      using "1.IH" [OF Some e refl refl ps refl] "1.prems"(2) parse_server_ranges [OF ps] by simp
  qed
qed

lemma parse_config_ranges:
  assumes "parse_config p = Inr c"
  shows "cfg_servers c \<noteq> []" "\<forall>s \<in> set (cfg_servers c). server_ranges s"
  using assms config_loop_ranges [of "[]" p]
  by (auto simp: parse_config_def exec_simps split: if_splits)

end
