(* ===== verification/Http_Text.thy ===== *)
theory Http_Text
  imports Rust_Str
begin

text \<open>
  What requests, responses and CGI output share on the wire: a head of lines joined by CR LF, an
  empty line, a body. The lemmas locate the end of the head (the first CR LF CR LF) and recover
  its lines; they carry the round trips of the three formats.
\<close>

definition separator :: bytes where
  "separator = [CR, LF, CR, LF]"

fun join_crlf :: "string list \<Rightarrow> string" where
  "join_crlf [] = []"
| "join_crlf [l] = l"
| "join_crlf (l # ls) = l @ crlf @ join_crlf ls"

text \<open>A line of a head: non-empty and without line breaks.\<close>

definition line_ok :: "string \<Rightarrow> bool" where
  "line_ok l \<longleftrightarrow> l \<noteq> [] \<and> CR \<notin> set l \<and> LF \<notin> set l"

lemma concat_lines:
  "ls \<noteq> [] \<Longrightarrow> concat (map (\<lambda>l. l @ crlf) ls) = join_crlf ls @ crlf"
  by (induction ls rule: join_crlf.induct) auto

lemma find_sub_skip:
  "c \<notin> set l \<Longrightarrow> find_sub (c # pat) (l @ r) = map_option ((+) (length l)) (find_sub (c # pat) r)"
  by (induction l; cases "find_sub (c # pat) r") auto

lemma find_separator:
  "ls \<noteq> [] \<Longrightarrow> \<forall>l \<in> set ls. line_ok l \<Longrightarrow>
   find_sub separator (join_crlf ls @ separator @ body) = Some (length (join_crlf ls))"
proof (induction ls rule: join_crlf.induct)
  case (2 l)
  then show ?case
    using find_sub_fresh_head [of CR l "[LF, CR, LF]" body]
    by (simp add: separator_def line_ok_def)
next
  case (3 l m ls)
  let ?r = "join_crlf (m # ls) @ separator @ body"
  have IH: "find_sub separator ?r = Some (length (join_crlf (m # ls)))"
    using 3 by simp
  have "\<exists>x y. ?r = x # y \<and> x \<noteq> CR"
    using 3(3) by (cases m; cases ls) (auto simp: line_ok_def)
  then have "find_sub separator (CR # LF # ?r) = map_option (\<lambda>n. n + 2) (find_sub separator ?r)"
    by (auto simp: separator_def option.map_comp comp_def)
  then show ?case
    using 3(3) IH find_sub_skip [of CR l "[LF, CR, LF]" "CR # LF # ?r"]
    by (simp add: separator_def line_ok_def)
qed simp

lemma str_lines_join:
  "\<forall>l \<in> set ls. line_ok l \<Longrightarrow> str_lines (join_crlf ls) = ls"
proof (induction ls rule: join_crlf.induct)
  case (2 l)
  then show ?case by (simp add: line_ok_def str_lines_last)
next
  case (3 l m ls)
  then show ?case by (simp add: line_ok_def str_lines_crlf)
qed simp

text \<open>The bytes of a multi-byte character are not ASCII, so an ASCII byte of a valid string is a
  character of it.\<close>

lemma utf8_chunk_ascii_byte:
  "utf8_chunk (a # s) = (True, n) \<Longrightarrow> c \<in> set (take n (a # s)) \<Longrightarrow> bval c < 128 \<Longrightarrow> n = 1 \<and> c = a"
  by (auto simp: utf8_chunk.simps(2) Let_def is_cont_def second3_ok_def second4_ok_def
      numeral_eq_Suc split: if_splits list.splits)

lemma ascii_byte_is_char:
  "utf8_ok s \<Longrightarrow> c \<in> set s \<Longrightarrow> bval c < 128 \<Longrightarrow> [c] \<in> set (chars s)"
proof (induction s rule: utf8_ok.induct)
  case 1
  then show ?case by simp
next
  case (2 a s)
  obtain n where u: "utf8_chunk (a # s) = (True, n)" and r: "utf8_ok (drop n (a # s))"
    using "2.prems"(1) by (auto simp: utf8_ok.simps(2) split: prod.splits)
  then have n: "n = utf8_width a" using utf8_chunk_width by blast
  have "c \<in> set (take n (a # s)) \<or> c \<in> set (drop n (a # s))"
    using "2.prems"(2) by (metis Un_iff append_take_drop_id set_append)
  then show ?case
  proof
    assume "c \<in> set (take n (a # s))"
    from utf8_chunk_ascii_byte [OF u this "2.prems"(3)] "2.prems"(3) show ?thesis by simp
  next
    assume "c \<in> set (drop n (a # s))"
    with "2.IH" [OF u [symmetric] r] "2.prems"(3) have "[c] \<in> set (chars (drop n (a # s)))" by blast
    then show ?thesis by (simp add: chars.simps(2) n)
  qed
qed

lemma no_ws_no_breaks:
  "utf8_ok s \<Longrightarrow> no_ws s \<Longrightarrow> CR \<notin> set s \<and> LF \<notin> set s \<and> CHR '' '' \<notin> set s"
  using ascii_byte_is_char by (fastforce simp: no_ws_def)

lemma utf8_ok_append: "utf8_ok s \<Longrightarrow> utf8_ok t \<Longrightarrow> utf8_ok (s @ t)"
proof (induction s rule: utf8_ok.induct)
  case 1
  then show ?case by simp
next
  case (2 a s)
  obtain n where c: "utf8_chunk (a # s) = (True, n)"
    using "2.prems"(1) by (auto simp: utf8_ok.simps(2) split: prod.splits)
  then have "utf8_chunk (a # s @ t) = (True, n)" and n: "n \<le> length (a # s)"
    using utf8_chunk_width
    by (auto simp: utf8_chunk.simps(2) Let_def split: if_splits list.splits)
  moreover have "utf8_ok (drop n (a # s))"
    using "2.prems"(1) c by (simp add: utf8_ok.simps(2))
  moreover have "drop n (a # s @ t) = drop n (a # s) @ t"
    using n by (simp flip: append_Cons)
  ultimately show ?case
    using "2.IH" [OF c [symmetric]] "2.prems"(2) by (simp add: utf8_ok.simps(2))
qed

lemma utf8_ok_join: "\<forall>l \<in> set ls. utf8_ok l \<Longrightarrow> utf8_ok (join_crlf ls)"
  by (induction ls rule: join_crlf.induct) (auto intro!: utf8_ok_append)

text \<open>Numbers on the wire: digits are ASCII, and neither whitespace nor line breaks.\<close>

lemma digit_plain:
  assumes "2 \<le> r" "r \<le> 16" "c \<in> set (show_radix r n)"
  shows "bval c < 128 \<and> \<not> is_whitespace [c] \<and> c \<noteq> CR \<and> c \<noteq> LF"
proof -
  have "c \<in> digit_char ` {..<r}"
    using set_show_radix [OF assms(1)] assms(3) by blast
  then obtain d where "d < r" "c = digit_char d"
    by auto
  then have "d < 16" "c = digit_char d"
    using assms(2) by simp_all
  then show ?thesis
    by (auto elim!: less16_cases simp: digit_char_def)
qed

lemma ascii_show_radix [simp]: "2 \<le> r \<Longrightarrow> r \<le> 16 \<Longrightarrow> ascii (show_radix r n)"
  unfolding ascii_def using digit_plain by blast

lemma no_ws_show_radix [simp]: "2 \<le> r \<Longrightarrow> r \<le> 16 \<Longrightarrow> no_ws (show_radix r n)"
  using digit_plain [of r] by (auto simp: no_ws_def chars_ascii)

lemma trim_show_radix [simp]: "2 \<le> r \<Longrightarrow> r \<le> 16 \<Longrightarrow> trim (show_radix r n) = show_radix r n"
  by (simp add: no_ws_trimmed)

lemma trimmed_sep:
  "wf_str s \<Longrightarrow> s \<noteq> [] \<Longrightarrow> t \<noteq> [] \<Longrightarrow> trimmed s \<Longrightarrow> trimmed t \<Longrightarrow> bval d < 128 \<Longrightarrow> trimmed (s @ d # t)"
  by (simp add: trimmed_def hd_append)

end
