(* ===== verification/Config_Load.thy ===== *)
theory Config_Load
  imports Config_Roundtrip Http_Text
begin

text \<open>
  From a configuration file to listeners: \<open>Config::from_file\<close> (\<open>src/config/mod.rs\<close>), which
  reads, lexes, parses and rejects duplicate servers, and the grouping of servers by address in
  \<open>main\<close> (\<open>src/main.rs\<close>), which gives every listener thread its list of virtual hosts. The
  properties at the end span the lexer, the parser and the loader.
\<close>

section \<open>Model\<close>

definition server_key :: "server_config \<Rightarrow> string" where
  "server_key s =
     srv_host s @ '':'' @ show_nat (srv_port s) @ '':'' @
     (case srv_name s of Some n \<Rightarrow> n | None \<Rightarrow> [])"

datatype load_error =
    Cannot_read
  | Parse_failed parse_error
  | Duplicate_server string

text \<open>The loop over the servers with the set \<open>seen\<close>: the first repeated key, if any.\<close>

fun find_duplicate :: "string set \<Rightarrow> server_config list \<Rightarrow> string option" where
  "find_duplicate seen [] = None"
| "find_duplicate seen (s # ss) =
     (if server_key s \<in> seen then Some (server_key s)
      else find_duplicate (insert (server_key s) seen) ss)"

text \<open>
  \<open>Config::from_file\<close> on what reading the file gave: \<^const>\<open>None\<close> for an I/O error; bytes
  that are not UTF-8 are an error of \<open>read_to_string\<close> too.
\<close>

definition from_file :: "bytes option \<Rightarrow> (load_error + config) exec" where
  "from_file file =
     (case file of
        None \<Rightarrow> Ret (Inl Cannot_read)
      | Some content \<Rightarrow>
          if \<not> utf8_ok content then Ret (Inl Cannot_read)
          else
            (case parse_config (new_parser (tokenize content)) of
               Inl PPanic \<Rightarrow> Panic
             | Inl (PErr e) \<Rightarrow> Ret (Inl (Parse_failed e))
             | Inr c \<Rightarrow>
                 (case find_duplicate {} (cfg_servers c) of
                    Some key \<Rightarrow> Ret (Inl (Duplicate_server key))
                  | None \<Rightarrow> Ret (Inr c))))"

text \<open>The map \<open>groups\<close> of \<open>main\<close>.\<close>

definition add_server :: "(string \<rightharpoonup> server_config list) \<Rightarrow> server_config \<Rightarrow> (string \<rightharpoonup> server_config list)" where
  "add_server groups s =
     groups(addr s \<mapsto> (case groups (addr s) of Some l \<Rightarrow> l | None \<Rightarrow> []) @ [s])"

definition group_servers :: "server_config list \<Rightarrow> (string \<rightharpoonup> server_config list)" where
  "group_servers servers = foldl add_server Map.empty servers"

section \<open>Lemmas\<close>

lemma find_duplicate_None:
  "find_duplicate seen ss = None \<longleftrightarrow> distinct (map server_key ss) \<and> set (map server_key ss) \<inter> seen = {}"
  by (induction ss arbitrary: seen) auto

lemma find_duplicate_Some:
  "find_duplicate seen ss = Some k \<Longrightarrow> k \<in> seen \<or> 2 \<le> length (filter (\<lambda>s. server_key s = k) ss)"
proof (induction ss arbitrary: seen)
  case Nil
  then show ?case by simp
next
  case (Cons s ss)
  show ?case
  proof (cases "server_key s \<in> seen")
    case True
    with Cons.prems show ?thesis by simp
  next
    case False
    with Cons.prems have d: "find_duplicate (insert (server_key s) seen) ss = Some k" by simp
    have "server_key s = k \<Longrightarrow> filter (\<lambda>s. server_key s = k) ss \<noteq> []"
      using d
    proof (induction ss arbitrary: seen)
      case (Cons a ss)
      then show ?case by (auto split: if_splits simp: insert_commute)
    qed simp
    with Cons.IH [OF d] show ?thesis
      by (auto simp: Suc_le_eq neq_Nil_conv)
  qed
qed

lemma foldl_add_server:
  "foldl add_server groups ss a =
     (case (groups a, filter (\<lambda>s. addr s = a) ss) of
        (None, []) \<Rightarrow> None
      | (None, g) \<Rightarrow> Some g
      | (Some l, g) \<Rightarrow> Some (l @ g))"
  by (induction ss arbitrary: groups) (auto simp: add_server_def split: option.splits list.splits)

lemma word_ok_ascii: "ascii w \<Longrightarrow> word_ok w \<longleftrightarrow> w \<noteq> [] \<and> (\<forall>c \<in> set w. \<not> special [c])"
  by (auto simp: word_ok_def chars_ascii)

lemma word_ok_show_nat [simp]: "word_ok (show_nat n)"
proof -
  have "\<not> special [c]" if c: "c \<in> set (show_nat n)" for c
  proof -
    from c obtain d where d: "d < 10" "c = digit_char d" by (rule show_nat_chars)
    with digit_char_plain [of d] digit_char_bval [of d] show ?thesis
      by (auto simp: special_def)
  qed
  then show ?thesis by (simp add: word_ok_ascii)
qed

text \<open>Every string of a configuration is a word of the configuration language.\<close>

definition location_words :: "location \<Rightarrow> string list" where
  "location_words l =
     [loc_path l] @ (if loc_root l = [] then [] else [loc_root l]) @
     (case loc_index l of None \<Rightarrow> [] | Some w \<Rightarrow> [w]) @
     (case loc_redirect l of None \<Rightarrow> [] | Some w \<Rightarrow> [w]) @
     (case loc_cgi l of None \<Rightarrow> [] | Some c \<Rightarrow> [cgi_extension c, cgi_interpreter c])"

definition server_words :: "(nat \<times> string) list \<times> server_config \<Rightarrow> string list" where
  "server_words ps =
     [srv_host (snd ps)] @ (case srv_name (snd ps) of None \<Rightarrow> [] | Some w \<Rightarrow> [w]) @
     map snd (fst ps) @ concat (map location_words (srv_locations (snd ps)))"

lemma word_ok_method_word [simp]: "word_ok (method_word m)"
  by (cases m) (simp_all add: word_ok_ascii special_def)

lemma kind_ok_location:
  "\<forall>w \<in> set (location_words l). word_ok w \<Longrightarrow> k \<in> set (print_location l) \<Longrightarrow> kind_ok k"
  by (auto simp: location_words_def print_location_def word_ok_ascii special_def
      split: if_splits option.splits)

lemma kind_ok_config:
  assumes "\<forall>x \<in> set xs. \<forall>w \<in> set (server_words x). word_ok w" "k \<in> set (print_config xs)"
  shows "kind_ok k"
proof -
  from assms(2) obtain pages s where x: "(pages, s) \<in> set xs" and k: "k \<in> set (print_server pages s)"
    by (auto simp: print_config_def)
  from assms(1) x have w: "\<forall>w \<in> set (server_words (pages, s)). word_ok w" by blast
  then have "\<forall>l \<in> set (srv_locations s). \<forall>w \<in> set (location_words l). word_ok w"
    and "\<forall>e \<in> set pages. word_ok (snd e)"
    and "word_ok (srv_host s)" "\<forall>n. srv_name s = Some n \<longrightarrow> word_ok n"
    by (auto simp: server_words_def)
  with k show ?thesis
    by (auto simp: print_server_def print_error_page_def word_ok_ascii special_def
        split: option.splits if_splits intro: kind_ok_location)
qed

lemma utf8_ok_render: "\<forall>k \<in> set ks. utf8_ok (tok_text k) \<Longrightarrow> utf8_ok (render ks)"
  by (induction ks) (auto simp: render_def intro!: utf8_ok_append)

text \<open>Evaluation of the lexer and the parser on concrete text: the continuation of a bind is not
  looked at before its argument is a value.\<close>

lemma sum_bind_weak_cong: "m = m' \<Longrightarrow> sum_bind m f = sum_bind m' f"
  by simp

lemmas lex_eval = tokenize_def tok_step.simps push_word_def Let_def

lemmas parse_eval =
  new_parser_def parse_config_def config_loop.simps parse_server_def server_loop.simps
  server_directive_def parse_location_def location_loop.simps location_directive_def
  methods_loop.simps method_of_word_def word_then_semicolon_def expect_word_def expect_def
  next_token_def peek_def on_off_def autoindex_directive_def cgi_directive_def
  optional_interpreter_def default_interpreter_def u16_value_def body_size_value_def
  empty_server_def empty_location_def from_str_radix_def digit_val_def

section \<open>Properties\<close>

text \<open>C38: lexing loses and invents nothing: the texts of the tokens, in order, are the
  characters of the input that are not white space.\<close>

theorem tokenize_conserves:
  "concat (map (\<lambda>t. tok_text (tok_kind t)) (tokenize s)) =
   concat (filter (\<lambda>c. \<not> is_whitespace c) (chars s))"
proof -
  obtain ts w n where L: "foldl tok_step ([], [], 1) (chars s) = (ts, w, n)"
    using prod_cases3 by blast
  have "concat (map (\<lambda>t. tok_text (tok_kind t)) (fst (push_word ts w n))) = toks_text ts @ w"
    by (cases "w = []") simp_all
  with foldl_tok_step_text [OF L] show ?thesis
    unfolding tokenize_def L by simp
qed

text \<open>The line recorded with a token is a line of the text (between 1 and one more than the
  number of line feeds) and lines never decrease along the token list.\<close>

lemma tokenize_lines:
  "sorted (map tok_line (tokenize s)) \<and>
   tok_line ` set (tokenize s) \<subseteq> {1..1 + count_list (chars s) [LF]}"
proof -
  obtain ts w n where L: "foldl tok_step ([], [], 1) (chars s) = (ts, w, n)"
    using prod_cases3 by blast
  from foldl_tok_step_lines [OF L] have "sorted (map tok_line ts)"
    "\<forall>t \<in> set ts. 1 \<le> tok_line t \<and> tok_line t \<le> n" "n = 1 + count_list (chars s) [LF]"
    by auto
  then show ?thesis
    unfolding tokenize_def L by (cases "w = []") (auto simp: sorted_append)
qed

text \<open>Every token of a valid UTF-8 text is well formed: a word is non-empty and has no white
  space, brace or semicolon in it.\<close>

lemma tokenize_well_formed:
  "utf8_ok s \<Longrightarrow> t \<in> set (tokenize s) \<Longrightarrow> kind_ok (tok_kind t)"
  by (rule tokenize_words) (rule utf8_ok_wf_str)

lemma tokenize_well_formed_instance:
  "kind_ok (tok_kind (mk_token (Word ''host'') 1))"
  by (rule tokenize_well_formed [of "''host h;''"])
     (simp_all add: tokenize_def tok_step.simps push_word_def)

lemma from_file_render:
  assumes "xs \<noteq> []" and "\<forall>x \<in> set xs. printable x"
    and "\<forall>x \<in> set xs. \<forall>w \<in> set (server_words x). word_ok w"
    and "\<forall>k \<in> set (print_config xs). utf8_ok (tok_text k)"
    and "distinct (map server_key (map snd xs))"
  shows "from_file (Some (render (print_config xs))) = Ret (Inr \<lparr>cfg_servers = map snd xs\<rparr>)"
proof -
  have "tokenize (render (print_config xs)) = map (\<lambda>k. mk_token k 1) (print_config xs)"
    using kind_ok_config [OF assms(3)] by (intro tokenize_render_eq) blast
  moreover have "parse_config (new_parser (map (\<lambda>k. mk_token k 1) (print_config xs))) =
      Inr \<lparr>cfg_servers = map snd xs\<rparr>"
    using assms(1,2) by (intro parse_printed_tokens) (simp_all add: comp_def)
  moreover have "find_duplicate {} (map snd xs) = None"
    using assms(5) by (simp add: find_duplicate_None)
  ultimately show ?thesis
    using assms(4) by (simp add: from_file_def utf8_ok_render)
qed

text \<open>C15: a configuration printed as text and loaded again is the configuration, whatever its
  servers, when its numbers are in range, its strings are words and no two servers share
  host, port and name.\<close>

theorem from_file_print:
  assumes "xs \<noteq> []" and "\<forall>x \<in> set xs. printable x"
    and "\<forall>x \<in> set xs. \<forall>w \<in> set (server_words x). word_ok w"
    and "\<forall>k \<in> set (print_config xs). utf8_ok (tok_text k)"
    and "distinct (map server_key (map snd xs))"
  shows "from_file (Some (render (print_config xs))) = Ret (Inr \<lparr>cfg_servers = map snd xs\<rparr>)"
  using assms by (rule from_file_render)

theorem from_file_print_witness:
  "\<exists>s. srv_error_pages s = [404 \<mapsto> ''e.html''] \<and>
     from_file (Some (render (print_config [([(404, ''e.html'')], s)]))) = Ret (Inr \<lparr>cfg_servers = [s]\<rparr>)"
proof -
  let ?l = "(empty_location ''/up'')\<lparr>loc_root := ''./w'', loc_methods := [CPost]\<rparr>"
  let ?s = "\<lparr>srv_host = ''h'', srv_port = 80, srv_name = None, srv_max_body = 10,
     srv_error_pages = [404 \<mapsto> ''e.html''], srv_locations = [?l]\<rparr>"
  have "from_file (Some (render (print_config [([(404, ''e.html'')], ?s)]))) =
      Ret (Inr \<lparr>cfg_servers = map snd [([(404::nat, ''e.html'')], ?s)]\<rparr>)"
    by (rule from_file_print)
       (simp_all add: printable_def server_ranges_def pages_of_def server_words_def
         location_words_def empty_location_def usize_bound_def word_ok_ascii special_def
         print_config_def print_server_def print_location_def print_error_page_def)
  then show ?thesis by (intro exI [of _ ?s]) simp
qed

lemma from_file_loaded:
  assumes "from_file file = Ret (Inr c)"
  shows "cfg_servers c \<noteq> []" "list_all server_ranges (cfg_servers c)" "distinct (map server_key (cfg_servers c))"
proof -
  from assms obtain ts where "parse_config (new_parser ts) = Inr c"
    and "find_duplicate {} (cfg_servers c) = None"
    by (auto simp: from_file_def split: option.splits if_splits sum.splits parse_abort.splits)
  then show "cfg_servers c \<noteq> []" "list_all server_ranges (cfg_servers c)"
    "distinct (map server_key (cfg_servers c))"
    using parse_config_ranges by (auto simp: find_duplicate_None list_all_iff)
qed

text \<open>C16: what a loaded configuration satisfies: at least one server; ports and error codes are
  16-bit, sizes 64-bit, location paths non-empty; host, port and name identify a server.\<close>

theorem from_file_ok:
  assumes "from_file file = Ret (Inr c)"
  shows "cfg_servers c \<noteq> [] \<and> list_all server_ranges (cfg_servers c) \<and>
     distinct (map server_key (cfg_servers c))"
  using from_file_loaded [OF assms] by blast

theorem from_file_ok_witness:
  "\<exists>c. from_file (Some ''server { host h; port 80; location /a { root w; } }'') = Ret (Inr c) \<and>
     cfg_servers c \<noteq> [] \<and> list_all server_ranges (cfg_servers c) \<and>
     distinct (map server_key (cfg_servers c))"
proof -
  have "case from_file (Some ''server { host h; port 80; location /a { root w; } }'') of
      Ret (Inr c) \<Rightarrow> True | _ \<Rightarrow> False"
    by (simp add: from_file_def lex_eval parse_eval cong: sum_bind_weak_cong)
  then obtain c where
    "from_file (Some ''server { host h; port 80; location /a { root w; } }'') = Ret (Inr c)"
    by (auto split: exec.splits sum.splits)
  from this from_file_ok [OF this] show ?thesis by blast
qed

text \<open>A configuration with two servers of the same host, port and name is refused, and the
  key in the error is one that two servers share.\<close>

lemma from_file_duplicate:
  assumes "from_file file = Ret (Inl (Duplicate_server key))"
  shows "\<exists>content c. file = Some content \<and> parse_config (new_parser (tokenize content)) = Inr c \<and>
     2 \<le> length (filter (\<lambda>s. server_key s = key) (cfg_servers c))"
proof -
  from assms obtain content c where "file = Some content"
    and "parse_config (new_parser (tokenize content)) = Inr c"
    and "find_duplicate {} (cfg_servers c) = Some key"
    by (auto simp: from_file_def split: option.splits if_splits sum.splits parse_abort.splits)
  then show ?thesis using find_duplicate_Some by fastforce
qed

lemma from_file_duplicate_instance:
  "\<exists>c. parse_config (new_parser (tokenize ''server {host h;port 80;} server {port 80;host h;}'')) = Inr c \<and>
     2 \<le> length (filter (\<lambda>s. server_key s = ''h:80:'') (cfg_servers c))"
proof -
  have "from_file (Some ''server {host h;port 80;} server {port 80;host h;}'') =
      Ret (Inl (Duplicate_server ''h:80:''))"
    by (simp add: from_file_def lex_eval parse_eval server_key_def show_radix.simps digit_char_def
        cong: sum_bind_weak_cong)
  from from_file_duplicate [OF this] show ?thesis by simp
qed

text \<open>\<open>main\<close> starts one listener per address, and its list of servers is exactly the servers of
  that address in file order; so a listener never has an empty list.\<close>

lemma group_servers_spec:
  "group_servers ss a =
     (let g = filter (\<lambda>s. addr s = a) ss in if g = [] then None else Some g)"
  by (simp add: group_servers_def foldl_add_server split: list.splits)

text \<open>Servers of one address with equal keys have equal names.\<close>

lemma server_key_addr:
  "server_key s = addr s @ '':'' @ (case srv_name s of Some n \<Rightarrow> n | None \<Rightarrow> [])"
  by (simp add: server_key_def addr_def)

lemma group_names_distinct:
  assumes "distinct (map server_key ss)"
  shows "distinct (map srv_name (filter (\<lambda>s. addr s = a) ss))"
proof -
  have "inj_on srv_name (set (filter (\<lambda>s. addr s = a) ss))"
    using assms by (auto simp: inj_on_def distinct_map server_key_addr)
  with assms show ?thesis by (simp add: distinct_map)
qed

text \<open>The number an unknown directive is reported with is the position of the next token, not
  a line: the error for a directive on line 4 of a file names line 3.\<close>

lemma error_line_is_token_position:
  "(\<forall>d a p. d \<notin> {''host'', ''port'', ''server_name'', ''client_max_body_size'', ''error_page'', ''location''} \<longrightarrow>
      server_directive d a p = perr (Unknown_server_directive d) (ps_pos p)) \<and>
   parse_config (new_parser (tokenize (''server {'' @ [LF, LF, LF] @ ''bogus x; }''))) =
     perr (Unknown_server_directive ''bogus'') 3 \<and>
   mk_token (Word ''bogus'') 4 \<in> set (tokenize (''server {'' @ [LF, LF, LF] @ ''bogus x; }''))"
proof (intro conjI allI impI)
  show "parse_config (new_parser (tokenize (''server {'' @ [LF, LF, LF] @ ''bogus x; }''))) =
     perr (Unknown_server_directive ''bogus'') 3"
    by (simp add: lex_eval parse_eval cong: sum_bind_weak_cong)
  show "mk_token (Word ''bogus'') 4 \<in> set (tokenize (''server {'' @ [LF, LF, LF] @ ''bogus x; }''))"
    by (simp add: lex_eval)
qed (simp add: server_directive_def)

lemma error_line_is_token_position_instance:
  "server_directive ''bogus'' empty_server (new_parser []) =
     perr (Unknown_server_directive ''bogus'') 0"
  using error_line_is_token_position by (simp add: new_parser_def)

text \<open>C39: a size whose product does not fit 64 bits is not reported as an error: it panics
  (a development build; a release build would wrap).\<close>

theorem parse_body_size_spec:
  "n < usize_bound \<Longrightarrow> u \<in> {''MB'', ''mb'', ''Mb'', ''mB''} \<Longrightarrow> v \<in> {''KB'', ''kb'', ''Kb'', ''kB''} \<Longrightarrow>
   parse_body_size (show_nat n) = Ret (Inr n) \<and>
   parse_body_size (show_nat n @ v) = (if n * 1024 < usize_bound then Ret (Inr (n * 1024)) else Panic) \<and>
   parse_body_size (show_nat n @ u) = (if n * 1048576 < usize_bound then Ret (Inr (n * 1048576)) else Panic)"
  by (simp add: parse_body_size_plain parse_body_size_kb parse_body_size_mb)

theorem parse_body_size_spec_witness:
  "parse_body_size (show_nat 20 @ ''MB'') = Ret (Inr 20971520) \<and>
   parse_body_size (show_nat 17592186044416 @ ''mb'') = Panic"
  using parse_body_size_spec [of 20 "''MB''" "''KB''"]
    parse_body_size_spec [of 17592186044416 "''mb''" "''KB''"]
  by (simp add: usize_bound_def)

end
