(* ===== verification/Files.thy ===== *)
theory Files
  imports Rust_Str "HOL-Library.AList" "HOL-Library.List_Lexorder" "HOL-Library.Char_ord"
begin

text \<open>
  What the handlers use of \<open>std::fs\<close> and \<open>std::path\<close>: a file system of directories and regular
  files, the resolution of a path string against it (relative to the working directory, with
  empty, \<open>.\<close> and \<open>..\<close> components), \<open>Path::parent\<close>, and the operations \<open>metadata\<close>, \<open>read\<close>,
  \<open>read_dir\<close>, \<open>create_dir_all\<close>, \<open>write\<close> and \<open>remove_file\<close>. Any operation may also be refused by the
  system for a reason the model does not see (permissions, a full disk): the \<open>faults\<close>. Symbolic
  links and special files are not modelled.

  The contract the handlers rely on is the locale \<open>file_store\<close>; the model is an instance of it.
\<close>

section \<open>Model\<close>

datatype entry = Directory | File bytes

type_synonym path = "string list"

text \<open>The entries under their absolute paths; the root directory always exists.\<close>

record file_system =
  fs_entries :: "(path \<times> entry) list"
  fs_cwd :: path

datatype fs_op = Op_metadata | Op_read | Op_read_dir | Op_dir_entry | Op_mkdir | Op_open_write | Op_remove

text \<open>\<open>denied op p\<close>: the system refuses the operation; \<open>write_stops p = Some k\<close>: a write to \<open>p\<close>
  fails after \<open>k\<close> bytes.\<close>

record faults =
  denied :: "fs_op \<Rightarrow> string \<Rightarrow> bool"
  write_stops :: "string \<Rightarrow> nat option"

definition no_faults :: faults where
  "no_faults = \<lparr>denied = (\<lambda>_ _. False), write_stops = (\<lambda>_. None)\<rparr>"

datatype io_error = Not_found | Io_other

definition lookup :: "file_system \<Rightarrow> path \<Rightarrow> entry option" where
  "lookup fs p = (if p = [] then Some Directory else map_of (fs_entries fs) p)"

subsection \<open>Paths\<close>

text \<open>
  The walk along the components of a path. The current place has to be a directory for any
  further component, the empty one after a trailing slash included.
\<close>

fun walk :: "file_system \<Rightarrow> path \<Rightarrow> string list \<Rightarrow> io_error + path" where
  "walk fs cur [] = Inr cur"
| "walk fs cur (c # cs) =
     (case lookup fs cur of
        None \<Rightarrow> Inl Not_found
      | Some (File _) \<Rightarrow> Inl Io_other
      | Some Directory \<Rightarrow>
          if c = [] \<or> c = ''.'' then walk fs cur cs
          else if c = ''..'' then walk fs (butlast cur) cs
          else walk fs (cur @ [c]) cs)"

definition resolve :: "file_system \<Rightarrow> string \<Rightarrow> io_error + path" where
  "resolve fs p =
     (if p = [] then Inl Not_found
      else if CHR 0x00 \<in> set p then Inl Io_other
      else walk fs (if hd p = CHR ''/'' then [] else fs_cwd fs) (split_on CHR ''/'' p))"

definition last_component :: "string \<Rightarrow> string" where
  "last_component b = rev (takeWhile (\<lambda>c. c \<noteq> CHR ''/'') (rev b))"

definition drop_component :: "string \<Rightarrow> string" where
  "drop_component b = rev (tl (dropWhile (\<lambda>c. c \<noteq> CHR ''/'') (rev b)))"

lemma drop_component_shorter: "b \<noteq> [] \<Longrightarrow> length (drop_component b) < length b"
  using length_dropWhile_le [of "\<lambda>c. c \<noteq> CHR ''/''" "rev b"]
  by (cases b rule: rev_cases) (auto simp: drop_component_def le_less_trans)

text \<open>Trailing components that \<open>Path::components\<close> skips: empty ones and \<open>.\<close>.\<close>

function trim_back :: "string \<Rightarrow> string" where
  "trim_back b =
     (if b \<noteq> [] \<and> (last_component b = [] \<or> last_component b = ''.'') then trim_back (drop_component b)
      else b)"
  by pat_completeness auto
termination
  by (relation "measure length") (auto simp: drop_component_shorter)

declare trim_back.simps [simp del]

definition split_head :: "string \<Rightarrow> string \<times> string" where
  "split_head p =
     (case p of
        [] \<Rightarrow> ([], [])
      | c # cs \<Rightarrow>
          if c = CHR ''/'' then (''/'', cs)
          else if c = CHR ''.'' \<and> (cs = [] \<or> hd cs = CHR ''/'') then (''.'', cs)
          else ([], p))"

definition path_parent :: "string \<Rightarrow> string option" where
  "path_parent p =
     (case split_head p of (h, b) \<Rightarrow>
        (let b' = trim_back b in
         if b' \<noteq> [] then Some (h @ trim_back (drop_component b'))
         else if h = ''.'' then Some []
         else None))"

subsection \<open>Operations\<close>

definition metadata :: "faults \<Rightarrow> file_system \<Rightarrow> string \<Rightarrow> entry option" where
  "metadata fl fs p =
     (if denied fl Op_metadata p then None
      else (case resolve fs p of Inl _ \<Rightarrow> None | Inr l \<Rightarrow> lookup fs l))"

definition read_file :: "faults \<Rightarrow> file_system \<Rightarrow> string \<Rightarrow> bytes option" where
  "read_file fl fs p =
     (if denied fl Op_read p then None
      else
        (case resolve fs p of
           Inl _ \<Rightarrow> None
         | Inr l \<Rightarrow> (case lookup fs l of Some (File d) \<Rightarrow> Some d | _ \<Rightarrow> None)))"

text \<open>The entries of a directory with their metadata, where it can be had.\<close>

definition children :: "file_system \<Rightarrow> path \<Rightarrow> (string \<times> entry) list" where
  "children fs l =
     List.map_filter (\<lambda>(p, e). if p \<noteq> [] \<and> butlast p = l then Some (last p, e) else None) (fs_entries fs)"

definition read_dir :: "faults \<Rightarrow> file_system \<Rightarrow> string \<Rightarrow> (string \<times> entry option) list option" where
  "read_dir fl fs p =
     (if denied fl Op_read_dir p then None
      else
        (case resolve fs p of
           Inl _ \<Rightarrow> None
         | Inr l \<Rightarrow>
             (if lookup fs l = Some Directory
              then Some (map (\<lambda>(n, e).
                (n, if denied fl Op_dir_entry (p @ ''/'' @ n) then None else Some e)) (children fs l))
              else None)))"

definition put_entry :: "file_system \<Rightarrow> path \<Rightarrow> entry \<Rightarrow> file_system" where
  "put_entry fs l e = fs\<lparr>fs_entries := AList.update l e (fs_entries fs)\<rparr>"

definition mkdir :: "faults \<Rightarrow> string \<Rightarrow> file_system \<Rightarrow> io_error option \<times> file_system" where
  "mkdir fl p fs =
     (if denied fl Op_mkdir p then (Some Io_other, fs)
      else
        (case resolve fs p of
           Inl e \<Rightarrow> (Some e, fs)
         | Inr l \<Rightarrow>
             (case lookup fs l of
                Some _ \<Rightarrow> (Some Io_other, fs)
              | None \<Rightarrow> (None, put_entry fs l Directory))))"

definition is_dir :: "faults \<Rightarrow> file_system \<Rightarrow> string \<Rightarrow> bool" where
  "is_dir fl fs p \<longleftrightarrow> metadata fl fs p = Some Directory"

definition write_file :: "faults \<Rightarrow> string \<Rightarrow> bytes \<Rightarrow> file_system \<Rightarrow> bool \<times> file_system" where
  "write_file fl p d fs =
     (if denied fl Op_open_write p then (False, fs)
      else
        (case resolve fs p of
           Inl _ \<Rightarrow> (False, fs)
         | Inr l \<Rightarrow>
             if lookup fs l = Some Directory then (False, fs)
             else
               (case write_stops fl p of
                  None \<Rightarrow> (True, put_entry fs l (File d))
                | Some k \<Rightarrow> (False, put_entry fs l (File (take k d))))))"

definition remove_file :: "faults \<Rightarrow> string \<Rightarrow> file_system \<Rightarrow> bool \<times> file_system" where
  "remove_file fl p fs =
     (if denied fl Op_remove p then (False, fs)
      else
        (case resolve fs p of
           Inl _ \<Rightarrow> (False, fs)
         | Inr l \<Rightarrow>
             (case lookup fs l of
                Some (File _) \<Rightarrow> (True, fs\<lparr>fs_entries := AList.delete l (fs_entries fs)\<rparr>)
              | _ \<Rightarrow> (False, fs))))"

lemma trim_back_shorter: "length (trim_back b) \<le> length b"
proof (induction b rule: trim_back.induct)
  case (1 b)
  show ?case
  proof (cases "b \<noteq> [] \<and> (last_component b = [] \<or> last_component b = ''.'')")
    case True
    with 1 drop_component_shorter [of b] show ?thesis
      by (subst trim_back.simps) simp
  next
    case False
    then have "trim_back b = b" by (subst trim_back.simps) auto
    then show ?thesis by simp
  qed
qed

lemma path_parent_shorter: "path_parent p = Some q \<Longrightarrow> length q < length p"
proof -
  assume a: "path_parent p = Some q"
  obtain h b where s: "split_head p = (h, b)" by fastforce
  then have p: "p = h @ b"
    by (auto simp: split_head_def split: list.splits if_splits)
  show "length q < length p"
  proof (cases "trim_back b = []")
    case True
    with a s p show ?thesis by (auto simp: path_parent_def Let_def split: if_splits)
  next
    case False
    with a s have "q = h @ trim_back (drop_component (trim_back b))"
      by (simp add: path_parent_def Let_def)
    moreover have "length (trim_back (drop_component (trim_back b))) < length b"
      using trim_back_shorter [of b] trim_back_shorter [of "drop_component (trim_back b)"]
        drop_component_shorter [OF False] by linarith
    ultimately show ?thesis using p by simp
  qed
qed

text \<open>\<open>DirBuilder::create_dir_all\<close>.\<close>

function create_dir_all :: "faults \<Rightarrow> string \<Rightarrow> file_system \<Rightarrow> bool \<times> file_system" where
  "create_dir_all fl p fs =
     (if p = [] then (True, fs)
      else
        (case mkdir fl p fs of
           (None, fs') \<Rightarrow> (True, fs')
         | (Some Io_other, _) \<Rightarrow> (is_dir fl fs p, fs)
         | (Some Not_found, _) \<Rightarrow>
             (case path_parent p of
                None \<Rightarrow> (False, fs)
              | Some q \<Rightarrow>
                  (case create_dir_all fl q fs of
                     (False, fs') \<Rightarrow> (False, fs')
                   | (True, fs') \<Rightarrow>
                       (case mkdir fl p fs' of
                          (None, fs'') \<Rightarrow> (True, fs'')
                        | (Some _, _) \<Rightarrow> (is_dir fl fs' p, fs'))))))"
  by pat_completeness auto
termination
  by (relation "measure (\<lambda>(fl, p, fs). length p)") (auto simp: path_parent_shorter)

declare create_dir_all.simps [simp del]

section \<open>Resolution\<close>

text \<open>The outcome of a walk depends only on which places are directories.\<close>

definition same_dirs :: "file_system \<Rightarrow> file_system \<Rightarrow> bool" where
  "same_dirs fs fs' \<longleftrightarrow>
     fs_cwd fs' = fs_cwd fs \<and> (\<forall>l. lookup fs' l = Some Directory \<longleftrightarrow> lookup fs l = Some Directory)"

lemma walk_step:
  "walk fs cur (c # cs) = Inr l \<longleftrightarrow>
     lookup fs cur = Some Directory \<and>
     walk fs (if c = [] \<or> c = ''.'' then cur else if c = ''..'' then butlast cur else cur @ [c]) cs = Inr l"
  by (auto split: option.splits entry.splits)

lemma walk_same_dirs:
  "same_dirs fs fs' \<Longrightarrow> walk fs' cur cs = Inr l \<longleftrightarrow> walk fs cur cs = Inr l"
  by (induction cs arbitrary: cur) (simp_all add: walk_step same_dirs_def del: walk.simps(2))

lemma resolve_same_dirs:
  "same_dirs fs fs' \<Longrightarrow> resolve fs' p = Inr l \<longleftrightarrow> resolve fs p = Inr l"
  using walk_same_dirs [of fs fs'] by (simp add: resolve_def same_dirs_def)

lemma walk_append:
  "walk fs cur (as @ bs) = Inr l \<longleftrightarrow> (\<exists>m. walk fs cur as = Inr m \<and> walk fs m bs = Inr l)"
  by (induction as arbitrary: cur) (simp_all add: walk_step del: walk.simps(2))

text \<open>Without \<open>..\<close> a walk only goes down.\<close>

lemma walk_down:
  "walk fs cur cs = Inr l \<Longrightarrow> ''..'' \<notin> set cs \<Longrightarrow> prefix cur l"
proof (induction cs arbitrary: cur)
  case (Cons c cs)
  let ?next = "if c = [] \<or> c = ''.'' then cur else cur @ [c]"
  from Cons.prems(2) have "c \<noteq> ''..''" by auto
  with Cons.prems(1) have "walk fs ?next cs = Inr l"
    by (simp only: walk_step if_False simp_thms)
  with Cons have "prefix ?next l" by simp
  then show ?case by (auto split: if_splits elim: append_prefixD)
qed simp

lemma split_on_append_sep:
  "split_on d (a @ d # b) = split_on d a @ split_on d b"
proof (induction a)
  case (Cons x a)
  then show ?case by (cases "split_on d a") simp_all
qed simp

section \<open>The contract of a file store\<close>

text \<open>
  \<open>place\<close> is where a path leads, the same for all the spellings of it; files are read back as they
  were last written there, and no other file is touched.
\<close>

locale file_store =
  fixes place :: "'fs \<Rightarrow> string \<Rightarrow> path option"
    and readable :: "string \<Rightarrow> bool"
    and rd :: "'fs \<Rightarrow> string \<Rightarrow> bytes option"
    and wr :: "string \<Rightarrow> bytes \<Rightarrow> 'fs \<Rightarrow> bool \<times> 'fs"
    and rm :: "string \<Rightarrow> 'fs \<Rightarrow> bool \<times> 'fs"
  assumes place_wr: "wr p d fs = (True, fs') \<Longrightarrow> place fs' = place fs \<and> place fs p \<noteq> None"
    and rd_wr: "wr p d fs = (True, fs') \<Longrightarrow> readable q \<Longrightarrow>
      rd fs' q = (if place fs q = place fs p then Some d else rd fs q)"
    and place_rm: "rm p fs = (True, fs') \<Longrightarrow> place fs' = place fs \<and> place fs p \<noteq> None"
    and rd_rm: "rm p fs = (True, fs') \<Longrightarrow>
      rd fs' q = (if place fs q = place fs p then None else rd fs q)"
    and rm_fails: "rm p fs = (False, fs') \<Longrightarrow> fs' = fs"
begin

lemma write_read: "wr p d fs = (True, fs') \<Longrightarrow> readable p \<Longrightarrow> rd fs' p = Some d"
  by (simp add: rd_wr)

lemma write_twice:
  assumes "wr p d fs = (True, fs1)" "wr p e fs1 = (True, fs2)" "readable q"
  shows "rd fs2 q = (if place fs q = place fs p then Some e else rd fs q)"
  using assms place_wr [OF assms(1)] by (simp add: rd_wr)

lemma write_remove_read:
  assumes "wr p d fs = (True, fs1)" "rm p fs1 = (True, fs2)" "readable q"
  shows "rd fs2 q = (if place fs q = place fs p then None else rd fs q)"
  using assms place_wr [OF assms(1)] by (simp add: rd_wr rd_rm)

lemma remove_read: "rm p fs = (True, fs') \<Longrightarrow> rd fs' p = None"
  by (simp add: rd_rm)

end

definition place_of :: "file_system \<Rightarrow> string \<Rightarrow> path option" where
  "place_of fs p = (case resolve fs p of Inl _ \<Rightarrow> None | Inr l \<Rightarrow> Some l)"

lemma place_of_eq: "place_of fs p = Some l \<longleftrightarrow> resolve fs p = Inr l"
  by (auto simp: place_of_def split: sum.splits)

lemma place_of_same_dirs: "same_dirs fs fs' \<Longrightarrow> place_of fs' = place_of fs"
proof
  fix p
  assume "same_dirs fs fs'"
  then have "place_of fs' p = Some l \<longleftrightarrow> place_of fs p = Some l" for l
    using resolve_same_dirs by (simp only: place_of_eq)
  then show "place_of fs' p = place_of fs p"
    by (cases "place_of fs p"; cases "place_of fs' p") auto
qed

lemma read_file_place:
  "read_file fl fs p =
     (if denied fl Op_read p then None
      else Option.bind (place_of fs p)
        (\<lambda>l. case lookup fs l of Some (File d) \<Rightarrow> Some d | _ \<Rightarrow> None))"
  by (simp add: read_file_def place_of_def split: sum.split)

lemma lookup_put: "l \<noteq> [] \<Longrightarrow> lookup (put_entry fs l e) m = (if m = l then Some e else lookup fs m)"
  by (simp add: lookup_def put_entry_def update_conv')

lemma lookup_delete:
  "lookup (fs\<lparr>fs_entries := AList.delete l (fs_entries fs)\<rparr>) m =
     (if m = l \<and> m \<noteq> [] then None else lookup fs m)"
  by (simp add: lookup_def delete_conv')

lemma write_file_True:
  assumes "write_file fl p d fs = (True, fs')"
  obtains l where "resolve fs p = Inr l" "l \<noteq> []" "lookup fs l \<noteq> Some Directory"
    "fs' = put_entry fs l (File d)"
proof -
  from assms obtain l where "resolve fs p = Inr l" "lookup fs l \<noteq> Some Directory"
    "fs' = put_entry fs l (File d)"
    by (auto simp: write_file_def split: if_splits sum.splits option.splits)
  moreover from this have "l \<noteq> []" by (auto simp: lookup_def)
  ultimately show thesis using that by blast
qed

lemma remove_file_True:
  assumes "remove_file fl p fs = (True, fs')"
  obtains l d where "resolve fs p = Inr l" "l \<noteq> []" "lookup fs l = Some (File d)"
    "fs' = fs\<lparr>fs_entries := AList.delete l (fs_entries fs)\<rparr>"
proof -
  from assms obtain l d where "resolve fs p = Inr l" "lookup fs l = Some (File d)"
    "fs' = fs\<lparr>fs_entries := AList.delete l (fs_entries fs)\<rparr>"
    by (auto simp: remove_file_def split: if_splits sum.splits option.splits entry.splits)
  moreover from this have "l \<noteq> []" by (auto simp: lookup_def)
  ultimately show thesis using that by blast
qed

lemma same_dirs_put:
  "l \<noteq> [] \<Longrightarrow> lookup fs l \<noteq> Some Directory \<Longrightarrow> same_dirs fs (put_entry fs l (File d))"
  by (auto simp: same_dirs_def lookup_put) (simp add: put_entry_def)

lemma same_dirs_delete:
  "lookup fs l \<noteq> Some Directory \<Longrightarrow> same_dirs fs (fs\<lparr>fs_entries := AList.delete l (fs_entries fs)\<rparr>)"
  by (auto simp: same_dirs_def lookup_delete)

interpretation disk: file_store place_of "\<lambda>p. \<not> denied fl Op_read p" "read_file fl" "write_file fl" "remove_file fl"
  for fl
proof
  fix p d q and fs fs' :: file_system
  assume w: "write_file fl p d fs = (True, fs')"
  then obtain l where l: "resolve fs p = Inr l" "l \<noteq> []" "lookup fs l \<noteq> Some Directory"
    "fs' = put_entry fs l (File d)"
    by (rule write_file_True)
  have pl: "place_of fs' = place_of fs"
    using same_dirs_put [OF l(2,3)] by (simp add: l(4) place_of_same_dirs)
  with l(1) show "place_of fs' = place_of fs \<and> place_of fs p \<noteq> None"
    by (simp add: place_of_def)
  assume "\<not> denied fl Op_read q"
  then show "read_file fl fs' q = (if place_of fs q = place_of fs p then Some d else read_file fl fs q)"
    unfolding read_file_place pl using l
    by (cases "place_of fs q") (auto simp: lookup_put place_of_def [of fs p])
next
  fix p q and fs fs' :: file_system
  assume w: "remove_file fl p fs = (True, fs')"
  then obtain l d where l: "resolve fs p = Inr l" "l \<noteq> []" "lookup fs l = Some (File d)"
    "fs' = fs\<lparr>fs_entries := AList.delete l (fs_entries fs)\<rparr>"
    by (rule remove_file_True)
  have pl: "place_of fs' = place_of fs"
    unfolding l(4) by (rule place_of_same_dirs, rule same_dirs_delete) (simp add: l(3))
  with l(1) show "place_of fs' = place_of fs \<and> place_of fs p \<noteq> None"
    by (simp add: place_of_def)
  show "read_file fl fs' q = (if place_of fs q = place_of fs p then None else read_file fl fs q)"
    unfolding read_file_place pl using l
    by (cases "place_of fs q") (auto simp: lookup_delete place_of_def [of fs p])
next
  fix p and fs fs' :: file_system
  assume "remove_file fl p fs = (False, fs')"
  then show "fs' = fs"
    by (auto simp: remove_file_def split: if_splits sum.splits option.splits entry.splits)
qed

section \<open>Directories are only ever added\<close>

text \<open>The file systems a run of \<open>create_dir_all\<close> can reach: new directories, nothing else.\<close>

definition adds_dirs :: "file_system \<Rightarrow> file_system \<Rightarrow> bool" where
  "adds_dirs fs fs' \<longleftrightarrow>
     fs_cwd fs' = fs_cwd fs \<and>
     (\<forall>m. lookup fs' m = lookup fs m \<or> lookup fs m = None \<and> lookup fs' m = Some Directory)"

lemma adds_dirs_refl [simp]: "adds_dirs fs fs"
  by (simp add: adds_dirs_def)

lemma adds_dirs_trans: "adds_dirs fs fs1 \<Longrightarrow> adds_dirs fs1 fs2 \<Longrightarrow> adds_dirs fs fs2"
  unfolding adds_dirs_def by metis

lemma adds_dirs_keeps: "adds_dirs fs fs' \<Longrightarrow> lookup fs m = Some e \<Longrightarrow> lookup fs' m = Some e"
  unfolding adds_dirs_def by (metis option.distinct(1))

lemma adds_dirs_mkdir: "mkdir fl p fs = (r, fs') \<Longrightarrow> adds_dirs fs fs'"
proof -
  assume a: "mkdir fl p fs = (r, fs')"
  have "adds_dirs fs (put_entry fs l Directory)" if "lookup fs l = None" for l
  proof -
    have "l \<noteq> []" using that by (auto simp: lookup_def)
    then show ?thesis using that by (simp add: adds_dirs_def lookup_put) (simp add: put_entry_def)
  qed
  with a show ?thesis
    by (auto simp: mkdir_def split: if_splits sum.splits option.splits)
qed

lemma adds_dirs_create: "create_dir_all fl p fs = (ok, fs') \<Longrightarrow> adds_dirs fs fs'"
proof (induction fl p fs arbitrary: ok fs' rule: create_dir_all.induct)
  case (1 fl p fs)
  obtain r fs1 where m: "mkdir fl p fs = (r, fs1)" by fastforce
  note d = adds_dirs_mkdir [OF m]
  consider "p = []" | "p \<noteq> []" "r \<noteq> Some Not_found" | "p \<noteq> []" "r = Some Not_found" "path_parent p = None"
    | q where "p \<noteq> []" "r = Some Not_found" "path_parent p = Some q" by blast
  then show ?case
  proof cases
    case 4
    obtain ok2 fs2 where c: "create_dir_all fl q fs = (ok2, fs2)" by fastforce
    have d2: "adds_dirs fs fs2"
      using "1.IH" [OF 4(1) m [symmetric] 4(2) _ 4(3) c] by simp
    obtain r3 fs3 where m3: "mkdir fl p fs2 = (r3, fs3)" by fastforce
    have "fs' \<in> {fs2, fs3}"
      using "1.prems" 4 m c m3
      by (subst (asm) create_dir_all.simps) (auto split: bool.splits option.splits)
    with d2 adds_dirs_trans [OF d2 adds_dirs_mkdir [OF m3]] show ?thesis by auto
  qed (use "1.prems" m d in \<open>subst (asm) create_dir_all.simps,
      auto split: option.splits io_error.splits\<close>)+
qed

lemma walk_mono:
  assumes "\<And>m. lookup fs m = Some Directory \<Longrightarrow> lookup fs' m = Some Directory"
  shows "walk fs cur cs = Inr l \<Longrightarrow> walk fs' cur cs = Inr l"
proof (induction cs arbitrary: cur)
  case (Cons c cs)
  from Cons.prems have "lookup fs cur = Some Directory"
    "walk fs (if c = [] \<or> c = ''.'' then cur else if c = ''..'' then butlast cur else cur @ [c]) cs = Inr l"
    by (simp_all only: walk_step)
  with Cons.IH assms show ?case by (simp only: walk_step)
qed simp

lemma resolve_adds_dirs: "adds_dirs fs fs' \<Longrightarrow> resolve fs p = Inr l \<Longrightarrow> resolve fs' p = Inr l"
  using walk_mono [of fs fs', OF adds_dirs_keeps]
  by (auto simp: resolve_def adds_dirs_def split: if_splits)

section \<open>Paths below a root\<close>

lemma resolve_append:
  "root \<noteq> [] \<Longrightarrow> resolve fs (root @ CHR ''/'' # p) = Inr l \<longleftrightarrow>
     CHR 0x00 \<notin> set p \<and> (\<exists>r. resolve fs root = Inr r \<and> walk fs r (split_on CHR ''/'' p) = Inr l)"
  by (auto simp: resolve_def split_on_append_sep walk_append)

lemma resolve_below:
  "root \<noteq> [] \<Longrightarrow> resolve fs (root @ CHR ''/'' # p) = Inr l \<Longrightarrow> ''..'' \<notin> set (split_on CHR ''/'' p) \<Longrightarrow>
   \<exists>r. resolve fs root = Inr r \<and> prefix r l"
  using walk_down by (auto simp: resolve_append)

lemma resolve_slash: "p \<noteq> [] \<Longrightarrow> resolve fs (p @ ''/'') = Inr l \<Longrightarrow> lookup fs l = Some Directory"
  using resolve_append [of p fs "[]" l] by (auto simp: walk_step simp del: walk.simps(2))

end
