(* ===== verification/Session.thy ===== *)
theory Session
  imports Prelude
begin

text \<open>
  The session store (\<open>src/utils/session.rs\<close>). A clock reading \<open>now\<close> (nanoseconds of the
  monotonic clock) is an argument of each operation that calls \<open>Instant::now\<close> or \<open>elapsed\<close>; the
  time of day (its sub-second nanoseconds) and the process id are arguments of \<open>create\<close>, which
  derives the session id from them. The promise of the store is stated as a locale over an
  abstract view, the sessions that are live at a time; the store is an instance of it. Session
  ids are shown to be as distinct as the nanosecond readings they come from, and a repeated
  reading is shown to overwrite the session that holds the id.
\<close>

section \<open>Model\<close>

type_synonym instant = nat

record session =
  ses_data :: "string \<rightharpoonup> string"
  ses_created_at :: instant

record session_store =
  sessions :: "string \<rightharpoonup> session"

definition new_session :: "instant \<Rightarrow> session" where
  "new_session now = \<lparr>ses_data = Map.empty, ses_created_at = now\<rparr>"

definition session_lifetime :: instant where
  "session_lifetime = 3600 * 10 ^ 9"

definition is_expired :: "instant \<Rightarrow> session \<Rightarrow> bool" where
  "is_expired now s \<longleftrightarrow> session_lifetime < now - ses_created_at s"

definition new_store :: session_store where
  "new_store = \<lparr>sessions = Map.empty\<rparr>"

text \<open>\<open>generate_id\<close>: \<open>subsec_nanos()\<close> and \<open>process::id()\<close> are 32-bit, the mixing is on 64 bits.\<close>

definition generate_raw :: "32 word \<Rightarrow> 32 word \<Rightarrow> 64 word" where
  "generate_raw t pid = (ucast t * 0x9e3779b97f4a7c15 + ucast pid) * 0x6c62272e07bb0142"

definition generate_id :: "32 word \<Rightarrow> 32 word \<Rightarrow> string" where
  "generate_id t pid = show_hex16 (unat (generate_raw t pid))"

definition create :: "32 word \<Rightarrow> 32 word \<Rightarrow> instant \<Rightarrow> session_store \<Rightarrow> string \<times> session_store" where
  "create t pid now st =
     (let sid = generate_id t pid
      in (sid, st\<lparr>sessions := (sessions st)(sid \<mapsto> new_session now)\<rparr>))"

text \<open>\<open>get\<close> and \<open>get_mut\<close> evict an expired session before they look the id up.\<close>

definition evict :: "instant \<Rightarrow> string \<Rightarrow> session_store \<Rightarrow> session_store" where
  "evict now sid st =
     (case sessions st sid of
        Some s \<Rightarrow> if is_expired now s then st\<lparr>sessions := (sessions st)(sid := None)\<rparr> else st
      | None \<Rightarrow> st)"

definition get :: "instant \<Rightarrow> string \<Rightarrow> session_store \<Rightarrow> session option \<times> session_store" where
  "get now sid st = (let st' = evict now sid st in (sessions st' sid, st'))"

definition set_value :: "instant \<Rightarrow> string \<Rightarrow> string \<Rightarrow> string \<Rightarrow> session_store \<Rightarrow> bool \<times> session_store" where
  "set_value now sid key val st =
     (case get now sid st of
        (Some s, st') \<Rightarrow>
          (True, st'\<lparr>sessions := (sessions st')(sid \<mapsto> s\<lparr>ses_data := (ses_data s)(key \<mapsto> val)\<rparr>)\<rparr>)
      | (None, st') \<Rightarrow> (False, st'))"

definition get_value :: "instant \<Rightarrow> string \<Rightarrow> string \<Rightarrow> session_store \<Rightarrow> string option \<times> session_store" where
  "get_value now sid key st =
     (case get now sid st of
        (Some s, st') \<Rightarrow> (ses_data s key, st')
      | (None, st') \<Rightarrow> (None, st'))"

definition destroy :: "string \<Rightarrow> session_store \<Rightarrow> session_store" where
  "destroy sid st = st\<lparr>sessions := (sessions st)(sid := None)\<rparr>"

definition cleanup :: "instant \<Rightarrow> session_store \<Rightarrow> session_store" where
  "cleanup now st =
     st\<lparr>sessions := (\<lambda>sid. case sessions st sid of
        Some s \<Rightarrow> if is_expired now s then None else Some s
      | None \<Rightarrow> None)\<rparr>"

section \<open>The contract of a session store\<close>

text \<open>
  \<open>view now st\<close> is the data of the sessions that are live at \<open>now\<close>; the operations act on it like
  those of a map of maps, and time only removes sessions from it.
\<close>

locale session_contract =
  fixes view :: "instant \<Rightarrow> 'st \<Rightarrow> string \<Rightarrow> (string \<rightharpoonup> string) option"
    and mk :: "32 word \<Rightarrow> 32 word \<Rightarrow> instant \<Rightarrow> 'st \<Rightarrow> string \<times> 'st"
    and put :: "instant \<Rightarrow> string \<Rightarrow> string \<Rightarrow> string \<Rightarrow> 'st \<Rightarrow> bool \<times> 'st"
    and look :: "instant \<Rightarrow> string \<Rightarrow> string \<Rightarrow> 'st \<Rightarrow> string option \<times> 'st"
    and kill :: "string \<Rightarrow> 'st \<Rightarrow> 'st"
  assumes view_mk: "mk t pid now st = (sid, st') \<Longrightarrow> view now st' = (view now st)(sid \<mapsto> Map.empty)"
    and view_put: "put now sid k v st = (ok, st') \<Longrightarrow>
      ok = (view now st sid \<noteq> None) \<and>
      view now st' = (case view now st sid of None \<Rightarrow> view now st
                      | Some d \<Rightarrow> (view now st)(sid \<mapsto> d(k \<mapsto> v)))"
    and view_look: "look now sid k st = (r, st') \<Longrightarrow>
      r = Option.bind (view now st sid) (\<lambda>d. d k) \<and> view now st' = view now st"
    and view_kill: "view now (kill sid st) = (view now st)(sid := None)"
    and view_later: "now \<le> later \<Longrightarrow> view later st sid = Some d \<Longrightarrow> view now st sid = Some d"
begin

text \<open>What a client that opens a session and stores a value in it relies on.\<close>

lemma view_open:
  assumes "mk t pid now st = (sid, st1)" "put now sid k v st1 = (ok, st2)"
  shows "ok" "view now st2 = (view now st)(sid \<mapsto> [k \<mapsto> v])"
  using view_mk [OF assms(1)] view_put [OF assms(2)] by simp_all

lemma look_open:
  assumes "mk t pid now st = (sid, st1)" "put now sid k v st1 = (ok, st2)"
    and "view later st2 sid \<noteq> None" "now \<le> later"
  shows "fst (look later sid k st2) = Some v"
proof -
  from assms(3) obtain d where d: "view later st2 sid = Some d" by blast
  with view_later [OF assms(4) d] view_open(2) [OF assms(1,2)] have "d = [k \<mapsto> v]" by simp
  with d view_look [of later sid k st2] show ?thesis by (cases "look later sid k st2") simp
qed

lemma look_kill: "fst (look now sid k (kill sid st)) = None"
  using view_look [of now sid k "kill sid st"] view_kill [of now sid st]
  by (cases "look now sid k (kill sid st)") simp

end

text \<open>The store of the program is such a store.\<close>

definition live :: "instant \<Rightarrow> session_store \<Rightarrow> string \<Rightarrow> (string \<rightharpoonup> string) option" where
  "live now st sid =
     (case sessions st sid of
        Some s \<Rightarrow> if is_expired now s then None else Some (ses_data s)
      | None \<Rightarrow> None)"

lemma live_evict [simp]: "live now (evict now sid st) = live now st"
  by (auto simp: live_def evict_def fun_eq_iff split: option.splits)

lemma evict_result:
  "sessions (evict now sid st) sid =
     (case sessions st sid of Some s \<Rightarrow> if is_expired now s then None else Some s | None \<Rightarrow> None)"
  by (auto simp: evict_def split: option.splits)

lemma not_expired_new [simp]: "\<not> is_expired now (new_session now)"
  by (simp add: is_expired_def new_session_def)

lemma is_expired_data [simp]: "is_expired now (s\<lparr>ses_data := d\<rparr>) = is_expired now s"
  by (simp add: is_expired_def)

lemma is_expired_later: "now \<le> later \<Longrightarrow> is_expired now s \<Longrightarrow> is_expired later s"
  by (simp add: is_expired_def)

lemma live_upd:
  "live now (st\<lparr>sessions := (sessions st)(sid := so)\<rparr>) =
     (live now st)(sid := Option.bind so (\<lambda>s. if is_expired now s then None else Some (ses_data s)))"
  by (auto simp: live_def fun_eq_iff split: option.splits)

lemma get_result:
  assumes "get now sid st = (so, st')"
  shows "live now st' = live now st" "sessions st' sid = so" "live now st sid = map_option ses_data so"
    "\<And>s. so = Some s \<Longrightarrow> \<not> is_expired now s"
proof -
  have so: "so = sessions (evict now sid st) sid" "st' = evict now sid st"
    using assms by (auto simp: get_def Let_def)
  show "live now st' = live now st" "sessions st' sid = so"
    by (simp_all only: so live_evict)
  show "live now st sid = map_option ses_data so"
    unfolding so(1) evict_result by (simp add: live_def split: option.split)
  show "\<not> is_expired now s" if "so = Some s" for s
    using that unfolding so(1) evict_result by (simp split: option.splits if_splits)
qed

interpretation store: session_contract live create set_value get_value destroy
proof
  fix t pid now st sid and st' :: session_store
  assume "create t pid now st = (sid, st')"
  then show "live now st' = (live now st)(sid \<mapsto> Map.empty)"
    by (auto simp: create_def Let_def live_upd) (simp add: new_session_def)
next
  fix now sid k v ok and st st' :: session_store
  assume a: "set_value now sid k v st = (ok, st')"
  obtain so st1 where g: "get now sid st = (so, st1)" by fastforce
  show "ok = (live now st sid \<noteq> None) \<and>
      live now st' = (case live now st sid of None \<Rightarrow> live now st
                      | Some d \<Rightarrow> (live now st)(sid \<mapsto> d(k \<mapsto> v)))"
    using a g get_result [OF g] by (cases so) (auto simp: set_value_def live_upd)
next
  fix now sid k r and st st' :: session_store
  assume a: "get_value now sid k st = (r, st')"
  obtain so st1 where g: "get now sid st = (so, st1)" by fastforce
  show "r = Option.bind (live now st sid) (\<lambda>d. d k) \<and> live now st' = live now st"
    using a g get_result [OF g] by (cases so) (auto simp: get_value_def)
next
  fix now sid and st :: session_store
  show "live now (destroy sid st) = (live now st)(sid := None)"
    by (simp add: destroy_def live_upd)
next
  fix now later sid d and st :: session_store
  assume "now \<le> later" "live later st sid = Some d"
  then show "live now st sid = Some d"
    using is_expired_later [of now later] by (auto simp: live_def split: option.splits if_splits)
qed

section \<open>Session ids\<close>

lemma coprime_pow2_cancel:
  fixes a c :: int
  assumes "2 ^ 64 dvd (a - b) * (c * 2)" "odd c" "\<bar>a - b\<bar> < 2 ^ 63"
  shows "a = b"
proof -
  have "(2::int) ^ 63 * 2 dvd ((a - b) * c) * 2"
    using assms(1) by (simp add: mult.assoc)
  then have "(2::int) ^ 63 dvd (a - b) * c"
    using dvd_mult_cancel_right [of "2 ^ 63" "2::int" "(a - b) * c"] by simp
  moreover have "coprime ((2::int) ^ 63) c"
    by (subst coprime_power_left_iff) (use assms(2) in simp)
  ultimately have "(2::int) ^ 63 dvd a - b"
    by (simp add: coprime_dvd_mult_left_iff)
  with assms(3) have "a - b = 0"
    using zdvd_not_zless [of "\<bar>a - b\<bar>" "2 ^ 63"] by (cases "a - b = 0") auto
  then show ?thesis by simp
qed

lemma generate_raw_inj:
  assumes "generate_raw t pid = generate_raw t' pid"
  shows "t = t'"
proof -
  let ?M = "0x9e3779b97f4a7c15 :: int" and ?C = "0x6c62272e07bb0142 :: int"
  let ?a = "(uint t * ?M + uint pid) * ?C" and ?b = "(uint t' * ?M + uint pid) * ?C"
  have mix: "uint ((ucast x * m + ucast pid) * c) = (uint x * uint m + uint pid) * uint c mod 2 ^ 64"
    for x pid :: "32 word" and m c :: "64 word"
    by (simp add: uint_word_ariths uint_up_ucast is_up mod_simps)
  have nums: "uint (0x9e3779b97f4a7c15 :: 64 word) = ?M" "uint (0x6c62272e07bb0142 :: 64 word) = ?C"
    by simp_all
  have raw: "uint (generate_raw x pid) = (uint x * ?M + uint pid) * ?C mod 2 ^ 64" for x
    by (simp only: generate_raw_def mix nums)
  have "uint (generate_raw t pid) = uint (generate_raw t' pid)"
    using assms by simp
  then have "?a mod 2 ^ 64 = ?b mod 2 ^ 64"
    by (simp only: raw)
  then have "2 ^ 64 dvd ?a - ?b"
    by (rule mod_eq_dvd_iff [THEN iffD1])
  moreover have "?a - ?b = (uint t - uint t') * ((?M * (?C div 2)) * 2)"
    by (simp add: algebra_simps)
  ultimately have "2 ^ 64 dvd (uint t - uint t') * ((?M * (?C div 2)) * 2)"
    by (simp only:)
  moreover have "\<bar>uint t - uint t'\<bar> < 2 ^ 63"
    using uint_lt2p [of t] uint_lt2p [of t'] uint_ge_0 [of t] uint_ge_0 [of t']
    unfolding abs_less_iff by (simp, linarith)
  moreover have "odd (?M * (?C div 2))"
    by simp
  ultimately have "uint t = uint t'"
    using coprime_pow2_cancel by blast
  then show ?thesis by (rule unsigned_word_eqI)
qed

lemma length_show_hex16:
  assumes "n < 2 ^ 64"
  shows "length (show_hex16 n) = 16"
proof -
  have "length (show_radix 16 n) \<le> k" if "n < 16 ^ k" "0 < k" for n k
    using that
  proof (induction k arbitrary: n)
    case (Suc k)
    show ?case
    proof (cases "n < 16")
      case True
      then show ?thesis by (subst show_radix.simps) simp
    next
      case False
      with Suc.prems have "0 < k" by (cases k) auto
      moreover from Suc.prems have "n div 16 < 16 ^ k"
        by (simp add: less_mult_imp_div_less mult.commute)
      ultimately have "length (show_radix 16 (n div 16)) \<le> k"
        by (rule Suc.IH [rotated])
      with False show ?thesis by (subst show_radix.simps) simp
    qed
  qed simp
  from this [of n 16] assms show ?thesis by (simp add: show_hex16_def Let_def)
qed

section \<open>Properties\<close>

text \<open>
  C30: a session id is 16 hexadecimal digits, and within one process two ids are equal exactly when
  the nanosecond readings they were made from are: the 64-bit mixing loses no reading, although
  its second factor is even.
\<close>

theorem generate_id_distinct:
  "(generate_id t pid = generate_id t' pid \<longleftrightarrow> t = t') \<and> length (generate_id t pid) = 16"
proof -
  have "unat (generate_raw t pid) < 2 ^ 64"
    using unsigned_less [of "generate_raw t pid"] by simp
  then have "length (generate_id t pid) = 16"
    by (simp add: generate_id_def length_show_hex16)
  moreover have "generate_id t pid = generate_id t' pid \<Longrightarrow> t = t'"
    using generate_raw_inj [of t pid t'] show_hex16_inj [of "unat (generate_raw t pid)" "unat (generate_raw t' pid)"]
    by (simp add: generate_id_def word_unat_eq_iff)
  ultimately show ?thesis by auto
qed

text \<open>
  C20: over the map of live sessions, the operations of the store are those of a map of maps:
  \<open>create\<close> binds the id to an empty session, \<open>set\<close> updates a live session and refuses any other,
  \<open>get_value\<close> reads without effect on it, \<open>destroy\<close> unbinds, \<open>cleanup\<close> changes nothing. Eviction of
  expired sessions is invisible.
\<close>

theorem store_refines_map:
  "live now (snd (create t pid now st)) = (live now st)(fst (create t pid now st) \<mapsto> Map.empty) \<and>
   live now (snd (set_value now sid k v st)) =
     (case live now st sid of None \<Rightarrow> live now st | Some d \<Rightarrow> (live now st)(sid \<mapsto> d(k \<mapsto> v))) \<and>
   fst (set_value now sid k v st) = (live now st sid \<noteq> None) \<and>
   fst (get_value now sid k st) = Option.bind (live now st sid) (\<lambda>d. d k) \<and>
   live now (snd (get_value now sid k st)) = live now st \<and>
   live now (destroy sid st) = (live now st)(sid := None) \<and>
   live now (cleanup now st) = live now st"
proof (intro conjI)
  show "live now (snd (create t pid now st)) = (live now st)(fst (create t pid now st) \<mapsto> Map.empty)"
    using store.view_mk [of t pid now st] by (cases "create t pid now st") simp
  show "live now (snd (set_value now sid k v st)) =
      (case live now st sid of None \<Rightarrow> live now st | Some d \<Rightarrow> (live now st)(sid \<mapsto> d(k \<mapsto> v)))"
    "fst (set_value now sid k v st) = (live now st sid \<noteq> None)"
    using store.view_put [of now sid k v st] by (cases "set_value now sid k v st"; simp)+
  show "fst (get_value now sid k st) = Option.bind (live now st sid) (\<lambda>d. d k)"
    "live now (snd (get_value now sid k st)) = live now st"
    using store.view_look [of now sid k st] by (cases "get_value now sid k st"; simp)+
  show "live now (destroy sid st) = (live now st)(sid := None)"
    by (rule store.view_kill)
  show "live now (cleanup now st) = live now st"
    by (auto simp: live_def cleanup_def fun_eq_iff split: option.splits)
qed

text \<open>
  A value stored right after a session is opened is read back for exactly one hour, the last
  nanosecond of it included, and never after; \<open>cleanup\<close> removes exactly the sessions that \<open>get\<close>
  would refuse.
\<close>

lemma session_life:
  assumes "create t pid now st = (sid, st1)" "set_value now sid k v st1 = (ok, st2)"
  shows "fst (get_value later sid k st2) = (if later - now \<le> session_lifetime then Some v else None) \<and>
    (sessions (cleanup later st2) sid = None \<longleftrightarrow> session_lifetime < later - now)"
proof -
  define s where "s = (new_session now)\<lparr>ses_data := [k \<mapsto> v]\<rparr>"
  have c: "sessions st1 sid = Some (new_session now)"
    using assms(1) by (auto simp: create_def Let_def)
  then have "get now sid st1 = (Some (new_session now), st1)"
    by (simp add: get_def evict_def Let_def)
  with assms(2) have s2: "sessions st2 sid = Some s"
    by (auto simp: set_value_def s_def new_session_def)
  have ex: "is_expired later s \<longleftrightarrow> session_lifetime < later - now"
    by (simp add: s_def is_expired_def new_session_def)
  have d: "ses_data s k = Some v" by (simp add: s_def)
  have "fst (get_value later sid k st2) = (if later - now \<le> session_lifetime then Some v else None)"
    by (auto simp: get_value_def get_def Let_def evict_def s2 ex d)
  moreover have "sessions (cleanup later st2) sid = None \<longleftrightarrow> session_lifetime < later - now"
    by (simp add: cleanup_def s2 ex)
  ultimately show ?thesis ..
qed

lemma session_life_instance:
  "let (sid, st1) = create 5 7 100 new_store; (ok, st2) = set_value 100 sid ''user'' ''sam'' st1 in
   fst (get_value (100 + session_lifetime) sid ''user'' st2) = Some ''sam'' \<and>
   fst (get_value (101 + session_lifetime) sid ''user'' st2) = None"
proof -
  obtain sid st1 where c: "create 5 7 100 new_store = (sid, st1)" by fastforce
  obtain ok st2 where s: "set_value 100 sid ''user'' ''sam'' st1 = (ok, st2)" by fastforce
  show ?thesis
    using session_life [OF c s, of "100 + session_lifetime"]
      session_life [OF c s, of "101 + session_lifetime"]
    by (simp add: c s)
qed



end
