(* ===== verification/Request.thy ===== *)
theory Request
  imports Http_Text
begin

text \<open>
  The HTTP request parser (\<open>src/request.rs\<close>): \<open>Request::parse\<close> on the bytes of a connection,
  \<open>decode_chunked\<close>, \<open>cookies\<close>, \<open>session_id\<close> and \<open>content_length\<close>. Parsing returns
  \<open>Option<Request>\<close>; because slices out of range and checked additions panic, the model has a
  second level of outcome, \<^const>\<open>Panic\<close>. The lemmas are the round trips (chunked bodies,
  whole requests, cookie headers) and the exact way in which chunk decoding can panic.
\<close>

section \<open>Model\<close>

datatype http_method = Get | Post | Delete | Unknown string

record request =
  req_method :: http_method
  req_path :: string
  req_version :: string
  req_headers :: "string \<rightharpoonup> string"
  req_body :: bytes

subsection \<open>Chunked bodies\<close>

text \<open>
  The loop of \<open>decode_chunked\<close>. The addition \<open>pos + chunk_size\<close> is a parameter because it is
  the one sum whose overflow depends on the build profile; the other sums are bounded by the
  length of the buffer.
\<close>

function decode_loop ::
    "(nat \<Rightarrow> nat \<Rightarrow> nat exec) \<Rightarrow> bytes \<Rightarrow> nat \<Rightarrow> bytes \<Rightarrow> bytes option exec" where
  "decode_loop add data pos body =
     (case slice_from data pos of
        Panic \<Rightarrow> Panic
      | Ret tail \<Rightarrow>
          (case find_sub crlf tail of
             None \<Rightarrow> Ret None
           | Some line_end \<Rightarrow>
               if \<not> utf8_ok (take line_end tail) then Ret None
               else
                 (case from_str_radix 16 usize_bound (trim (take line_end tail)) of
                    None \<Rightarrow> Ret None
                  | Some chunk_size \<Rightarrow>
                      if chunk_size = 0 then Ret (Some body)
                      else
                        (case add (pos + line_end + 2) chunk_size of
                           Panic \<Rightarrow> Panic
                         | Ret e \<Rightarrow>
                             if length data < e then Ret None
                             else
                               (case slice data (pos + line_end + 2) e of
                                  Panic \<Rightarrow> Panic
                                | Ret c \<Rightarrow>
                                    decode_loop add data (pos + line_end + 2 + (chunk_size + 2)) (body @ c))))))"
  by pat_completeness auto
termination
proof (relation "measure (\<lambda>(add, data, pos, body). length data - pos)", goal_cases)
  case (2 add data pos body tail line_end chunk_size e c)
  have "line_end + 2 \<le> length tail"
    using find_sub_bound [OF 2(2)] by simp
  moreover have "tail = drop pos data" "pos \<le> length data"
    using 2(1) by (auto simp: slice_from_def split: if_splits)
  ultimately show ?case by simp
qed simp

declare decode_loop.simps [simp del]

text \<open>\<open>decode_chunked\<close> of a development build (overflow checks) and of a release build.\<close>

definition decode_chunked :: "bytes \<Rightarrow> bytes option exec" where
  "decode_chunked data = decode_loop usize_add data 0 []"

definition decode_chunked_release :: "bytes \<Rightarrow> bytes option exec" where
  "decode_chunked_release data = decode_loop (\<lambda>a b. Ret (usize_wrapping_add a b)) data 0 []"

subsection \<open>Requests\<close>

definition parse_method :: "string \<Rightarrow> http_method" where
  "parse_method m =
     (if m = ''GET'' then Get
      else if m = ''POST'' then Post
      else if m = ''DELETE'' then Delete
      else Unknown m)"

definition add_header :: "(string \<rightharpoonup> string) \<Rightarrow> string \<Rightarrow> (string \<rightharpoonup> string)" where
  "add_header headers line =
     (case split_once CHR '':'' line of
        Some (key, value) \<Rightarrow> headers(to_lowercase (trim key) \<mapsto> trim value)
      | None \<Rightarrow> headers)"

definition parse_headers :: "string list \<Rightarrow> (string \<rightharpoonup> string)" where
  "parse_headers lines = foldl add_header Map.empty lines"

definition is_chunked :: "(string \<rightharpoonup> string) \<Rightarrow> bool" where
  "is_chunked headers =
     (case headers ''transfer-encoding'' of
        Some v \<Rightarrow> contains_str ''chunked'' (to_lowercase v)
      | None \<Rightarrow> False)"

definition parse_request :: "bytes \<Rightarrow> request option exec" where
  "parse_request buffer =
     (case find_sub separator buffer of
        None \<Rightarrow> Ret None
      | Some header_end \<Rightarrow>
          (case str_lines (from_utf8_lossy (take header_end buffer)) of
             [] \<Rightarrow> Ret None
           | first_line # lines \<Rightarrow>
               (case split_whitespace first_line of
                  m # path # version # _ \<Rightarrow>
                    (let headers = parse_headers lines;
                         body = drop (header_end + 4) buffer;
                         request = (\<lambda>b. \<lparr>req_method = parse_method m, req_path = path,
                           req_version = version, req_headers = headers, req_body = b\<rparr>)
                     in if is_chunked headers
                        then exec_bind (decode_chunked body) (\<lambda>d. Ret (map_option request d))
                        else Ret (Some (request body)))
                | _ \<Rightarrow> Ret None)))"

subsection \<open>Cookies\<close>

definition add_cookie :: "(string \<rightharpoonup> string) \<Rightarrow> string \<Rightarrow> (string \<rightharpoonup> string)" where
  "add_cookie m pair =
     (case split_once CHR ''='' (trim pair) of
        Some (key, value) \<Rightarrow> m(trim key \<mapsto> trim value)
      | None \<Rightarrow> m)"

definition cookies :: "request \<Rightarrow> (string \<rightharpoonup> string)" where
  "cookies req =
     (case req_headers req ''cookie'' of
        None \<Rightarrow> Map.empty
      | Some v \<Rightarrow> foldl add_cookie Map.empty (split_on CHR '';'' v))"

definition session_id :: "request \<Rightarrow> string option" where
  "session_id req = cookies req ''session_id''"

definition content_length :: "request \<Rightarrow> nat" where
  "content_length req =
     (case req_headers req ''content-length'' of
        None \<Rightarrow> 0
      | Some v \<Rightarrow> (case parse_usize v of None \<Rightarrow> 0 | Some n \<Rightarrow> n))"

section \<open>Chunk decoding\<close>

definition encode_chunk :: "bytes \<Rightarrow> bytes" where
  "encode_chunk c = show_radix 16 (length c) @ crlf @ c @ crlf"

definition encode_chunks :: "bytes list \<Rightarrow> bytes" where
  "encode_chunks cs = concat (map encode_chunk cs) @ ''0'' @ crlf @ crlf"

text \<open>One step of the loop at a chunk header: the size \<open>n\<close> in hexadecimal, CR LF.\<close>

lemma decode_loop_at_size:
  assumes "n < usize_bound" "data = pre @ show_radix 16 n @ crlf @ t"
    and "pos = length pre + length (show_radix 16 n) + 2"
  shows "decode_loop add data (length pre) body =
    (if n = 0 then Ret (Some body)
     else
       (case add pos n of
          Panic \<Rightarrow> Panic
        | Ret e \<Rightarrow>
            if length data < e then Ret None
            else (case slice data pos e of
                    Panic \<Rightarrow> Panic
                  | Ret c \<Rightarrow> decode_loop add data (pos + (n + 2)) (body @ c))))"
proof -
  have "CR \<notin> set (show_radix 16 n)"
    using digit_plain [of 16] by auto
  then have "find_sub crlf (show_radix 16 n @ crlf @ t) = Some (length (show_radix 16 n))"
    by (rule find_sub_fresh_head)
  moreover have "slice_from data (length pre) = Ret (show_radix 16 n @ crlf @ t)"
    by (simp add: slice_from_def assms(2))
  ultimately show ?thesis
    using assms(1) unfolding assms(3) by (subst decode_loop.simps) simp
qed

lemma decode_loop_chunk:
  assumes "c \<noteq> []" "data = pre @ encode_chunk c @ t" "length data < usize_bound"
  shows "decode_loop usize_add data (length pre) body =
    decode_loop usize_add data (length (pre @ encode_chunk c)) (body @ c)"
proof -
  define pos where "pos = length pre + length (show_radix 16 (length c)) + 2"
  have "length c < usize_bound" "data = pre @ show_radix 16 (length c) @ crlf @ (c @ crlf @ t)"
    using assms(2,3) by (simp_all add: encode_chunk_def)
  note step = decode_loop_at_size [OF this pos_def]
  have "usize_add pos (length c) = Ret (pos + length c)"
    using assms(2,3) by (simp add: usize_add_def pos_def encode_chunk_def)
  moreover have "slice data pos (pos + length c) = Ret c" "pos + length c \<le> length data"
    by (simp_all add: slice_def pos_def assms(2) encode_chunk_def)
  moreover have "pos + (length c + 2) = length (pre @ encode_chunk c)"
    by (simp add: pos_def encode_chunk_def)
  ultimately show ?thesis
    using assms(1) by (simp add: step)
qed

lemma decode_loop_chunks:
  assumes "\<forall>c \<in> set cs. c \<noteq> []"
    and "length (pre @ encode_chunks cs @ t) < usize_bound"
  shows "decode_loop usize_add (pre @ encode_chunks cs @ t) (length pre) body =
    Ret (Some (body @ concat cs))"
  using assms
proof (induction cs arbitrary: pre body)
  case Nil
  have "show_radix 16 0 = ''0''"
    by (subst show_radix.simps) (simp add: digit_char_def)
  then show ?case
    using decode_loop_at_size [of 0 _ pre "crlf @ t", OF _ refl refl]
    by (simp add: encode_chunks_def usize_bound_def)
next
  case (Cons c cs)
  have e: "encode_chunks (c # cs) = encode_chunk c @ encode_chunks cs"
    by (simp add: encode_chunks_def)
  have "decode_loop usize_add (pre @ encode_chunk c @ (encode_chunks cs @ t)) (length pre) body =
      decode_loop usize_add ((pre @ encode_chunk c) @ encode_chunks cs @ t)
        (length (pre @ encode_chunk c)) (body @ c)"
    using Cons.prems by (subst decode_loop_chunk [OF _ refl]) (simp_all add: e)
  with Cons.IH [of "pre @ encode_chunk c" "body @ c"] Cons.prems show ?case
    by (simp add: e)
qed

text \<open>The decoded body is made of bytes of the data: it is never longer.\<close>

lemma decode_loop_length:
  assumes "decode_loop usize_add data pos body = Ret (Some b)"
  shows "length b + pos \<le> length body + length data"
  using assms
proof (induction usize_add data pos body rule: decode_loop.induct)
  case (1 data pos body)
  from "1.prems" obtain tail where t: "slice_from data pos = Ret tail"
    by (subst (asm) decode_loop.simps) (auto split: exec.splits)
  from t have pos: "pos \<le> length data" "tail = drop pos data"
    by (auto simp: slice_from_def split: if_splits)
  from "1.prems" t obtain line_end n where l: "find_sub crlf tail = Some line_end"
    and u: "utf8_ok (take line_end tail)"
    and n: "from_str_radix 16 usize_bound (trim (take line_end tail)) = Some n"
    by (subst (asm) decode_loop.simps) (auto split: option.splits if_splits)
  show ?case
  proof (cases "n = 0")
    case True
    with "1.prems" t l u n have "b = body"
      by (subst (asm) decode_loop.simps) simp
    with pos show ?thesis by simp
  next
    case False
    with "1.prems" t l u n obtain e c where e: "usize_add (pos + line_end + 2) n = Ret e"
      and le: "\<not> length data < e" and c: "slice data (pos + line_end + 2) e = Ret c"
      and r: "decode_loop usize_add data (pos + line_end + 2 + (n + 2)) (body @ c) = Ret (Some b)"
      by (subst (asm) decode_loop.simps) (auto split: exec.splits if_splits)
    from "1.hyps" [OF t l _ n False e le c r] u
    have "length b + (pos + line_end + 2 + (n + 2)) \<le> length (body @ c) + length data"
      by simp
    moreover have "length c = n"
      using c e by (auto simp: slice_def usize_add_def split: if_splits)
    ultimately show ?thesis by simp
  qed
qed

text \<open>The two ways in which a chunked body makes the decoder panic.\<close>

lemma slice_from_panic: "length xs < i \<Longrightarrow> slice_from xs i = Panic"
  by (simp add: slice_from_def)

lemma decode_loop_truncated:
  assumes "c \<noteq> []" "data = show_radix 16 (length c) @ crlf @ c @ t" "length t < 2"
    and "length c < usize_bound"
    and add: "add (length (show_radix 16 (length c)) + 2) (length c) =
      Ret (length (show_radix 16 (length c)) + 2 + length c)"
  shows "decode_loop add data 0 [] = Panic"
proof -
  define pos where "pos = length ([] :: bytes) + length (show_radix 16 (length c)) + 2"
  have "data = [] @ show_radix 16 (length c) @ crlf @ (c @ t)"
    by (simp add: assms(2))
  note step = decode_loop_at_size [OF assms(4) this pos_def]
  have "slice data pos (pos + length c) = Ret c" "pos + length c \<le> length data"
    by (simp_all add: slice_def pos_def assms(2))
  moreover have "length data < pos + (length c + 2)"
    using assms(3) by (simp add: pos_def assms(2))
  moreover have "decode_loop add data i body = Panic" if "length data < i" for i body
    using that by (subst decode_loop.simps) (simp add: slice_from_panic)
  ultimately show ?thesis
    using step [of add "[]"] assms(1) add by (simp add: pos_def)
qed

section \<open>Requests\<close>

definition request_line :: "string \<Rightarrow> string \<Rightarrow> string \<Rightarrow> string" where
  "request_line m p v = m @ '' '' @ p @ '' '' @ v"

definition header_line :: "string \<times> string \<Rightarrow> string" where
  "header_line kv = fst kv @ '': '' @ snd kv"

definition render_request ::
    "string \<Rightarrow> string \<Rightarrow> string \<Rightarrow> (string \<times> string) list \<Rightarrow> bytes \<Rightarrow> bytes" where
  "render_request m p v hs body =
     request_line m p v @ crlf @ concat (map (\<lambda>h. header_line h @ crlf) hs) @ crlf @ body"

definition header_map :: "(string \<times> string) list \<Rightarrow> (string \<rightharpoonup> string)" where
  "header_map hs = foldl (\<lambda>m h. m(to_lowercase (fst h) \<mapsto> snd h)) Map.empty hs"

definition field_ok :: "string \<Rightarrow> bool" where
  "field_ok w \<longleftrightarrow> w \<noteq> [] \<and> utf8_ok w \<and> no_ws w"

definition header_ok :: "string \<times> string \<Rightarrow> bool" where
  "header_ok h \<longleftrightarrow>
     utf8_ok (fst h) \<and> utf8_ok (snd h) \<and> trimmed (fst h) \<and> trimmed (snd h) \<and>
     CHR '':'' \<notin> set (fst h) \<and> CR \<notin> set (fst h) \<and> LF \<notin> set (fst h) \<and>
     CR \<notin> set (snd h) \<and> LF \<notin> set (snd h)"

lemma render_request_join:
  "render_request m p v hs body =
     join_crlf (request_line m p v # map header_line hs) @ separator @ body"
proof -
  have "request_line m p v @ crlf @ concat (map (\<lambda>h. header_line h @ crlf) hs) =
      concat (map (\<lambda>l. l @ crlf) (request_line m p v # map header_line hs))"
    by (simp add: comp_def)
  also have "\<dots> = join_crlf (request_line m p v # map header_line hs) @ crlf"
    by (rule concat_lines) simp
  finally show ?thesis
    by (simp add: render_request_def separator_def flip: append_assoc)
qed

lemma request_line_ok:
  assumes "field_ok m" "field_ok p" "field_ok v"
  shows "line_ok (request_line m p v)" "utf8_ok (request_line m p v)"
    "split_whitespace (request_line m p v) = [m, p, v]"
proof -
  have m: "CR \<notin> set m \<and> LF \<notin> set m" and p: "CR \<notin> set p \<and> LF \<notin> set p"
    and v: "CR \<notin> set v \<and> LF \<notin> set v"
    using assms no_ws_no_breaks unfolding field_ok_def by blast+
  then show "line_ok (request_line m p v)"
    by (simp add: line_ok_def request_line_def)
  show "utf8_ok (request_line m p v)"
    using assms by (simp add: request_line_def field_ok_def utf8_ok_append)
  have "split_whitespace (m @ CHR '' '' # p @ CHR '' '' # v) = [m, p, v]"
    using assms by (simp add: field_ok_def utf8_ok_wf_str split_whitespace_Cons split_whitespace_single)
  then show "split_whitespace (request_line m p v) = [m, p, v]"
    by (simp add: request_line_def)
qed

lemma header_line_ok: "header_ok h \<Longrightarrow> line_ok (header_line h) \<and> utf8_ok (header_line h)"
  by (auto simp: header_ok_def line_ok_def header_line_def intro!: utf8_ok_append)

lemma add_header_line:
  "header_ok h \<Longrightarrow> add_header m (header_line h) = m(to_lowercase (fst h) \<mapsto> snd h)"
  using split_once_first [of "CHR '':''" "fst h" "'' '' @ snd h"]
  by (simp add: header_ok_def header_line_def add_header_def trim_space_Cons)

lemma parse_header_lines:
  "\<forall>h \<in> set hs. header_ok h \<Longrightarrow> parse_headers (map header_line hs) = header_map hs"
proof -
  have "\<forall>h \<in> set hs. header_ok h \<Longrightarrow>
      foldl add_header m (map header_line hs) = foldl (\<lambda>m h. m(to_lowercase (fst h) \<mapsto> snd h)) m hs" for m
    by (induction hs arbitrary: m) (simp_all add: add_header_line)
  then show "\<forall>h \<in> set hs. header_ok h \<Longrightarrow> ?thesis"
    by (simp add: parse_headers_def header_map_def)
qed

lemma parse_request_head:
  assumes "field_ok m" "field_ok p" "field_ok v" "\<forall>h \<in> set hs. header_ok h"
  shows "parse_request (render_request m p v hs body) =
    (let request = (\<lambda>b. \<lparr>req_method = parse_method m, req_path = p, req_version = v,
                          req_headers = header_map hs, req_body = b\<rparr>)
     in if is_chunked (header_map hs)
        then exec_bind (decode_chunked body) (\<lambda>d. Ret (map_option request d))
        else Ret (Some (request body)))"
proof -
  let ?ls = "request_line m p v # map header_line hs"
  have ok: "\<forall>l \<in> set ?ls. line_ok l" "\<forall>l \<in> set ?ls. utf8_ok l"
    using assms request_line_ok header_line_ok by auto
  have "find_sub separator (join_crlf ?ls @ separator @ body) = Some (length (join_crlf ?ls))"
    by (rule find_separator) (use ok in auto)
  moreover have "str_lines (join_crlf ?ls) = ?ls"
    using ok by (intro str_lines_join) auto
  moreover have "from_utf8_lossy (join_crlf ?ls) = join_crlf ?ls"
    using utf8_ok_join [OF ok(2)] by (rule from_utf8_lossy_valid)
  moreover have "drop (length (join_crlf ?ls) + 4) (join_crlf ?ls @ separator @ body) = body"
    by (simp add: separator_def)
  ultimately show ?thesis
    using assms request_line_ok [OF assms(1-3)]
    unfolding parse_request_def render_request_join
    by (simp add: parse_header_lines del: join_crlf.simps)
qed

section \<open>Cookies\<close>

definition cookie_ok :: "string \<times> string \<Rightarrow> bool" where
  "cookie_ok kv \<longleftrightarrow>
     fst kv \<noteq> [] \<and> snd kv \<noteq> [] \<and> wf_str (fst kv) \<and> wf_str (snd kv) \<and>
     trimmed (fst kv) \<and> trimmed (snd kv) \<and>
     CHR ''='' \<notin> set (fst kv) \<and> CHR '';'' \<notin> set (fst kv) \<and> CHR '';'' \<notin> set (snd kv)"

definition cookie_pair :: "string \<times> string \<Rightarrow> string" where
  "cookie_pair kv = fst kv @ ''='' @ snd kv"

text \<open>\<open>name=value; name=value; ...\<close>\<close>

fun render_cookies :: "(string \<times> string) list \<Rightarrow> string" where
  "render_cookies [] = []"
| "render_cookies [kv] = cookie_pair kv"
| "render_cookies (kv # kvs) = cookie_pair kv @ ''; '' @ render_cookies kvs"

lemma trim_cookie_pair: "cookie_ok kv \<Longrightarrow> trim (cookie_pair kv) = cookie_pair kv"
  by (rule trim_trimmed) (auto simp: cookie_ok_def trimmed_def cookie_pair_def hd_append last_append)

lemma add_cookie_pair:
  assumes "cookie_ok kv"
  shows "add_cookie m (cookie_pair kv) = m(fst kv \<mapsto> snd kv)"
    and "add_cookie m (CHR '' '' # cookie_pair kv) = m(fst kv \<mapsto> snd kv)"
proof -
  obtain k v where kv: "kv = (k, v)" by (cases kv)
  have "split_once CHR ''='' (cookie_pair kv) = Some (k, v)" "trim k = k" "trim v = v"
    using assms by (simp_all add: kv cookie_ok_def cookie_pair_def split_once_first)
  with trim_cookie_pair [OF assms] show
    "add_cookie m (cookie_pair kv) = m(fst kv \<mapsto> snd kv)"
    "add_cookie m (CHR '' '' # cookie_pair kv) = m(fst kv \<mapsto> snd kv)"
    by (simp_all add: add_cookie_def trim_space_Cons kv)
qed

lemma foldl_cookies:
  "kvs \<noteq> [] \<Longrightarrow> \<forall>kv \<in> set kvs. cookie_ok kv \<Longrightarrow>
   foldl add_cookie m (split_on CHR '';'' (CHR '' '' # render_cookies kvs)) =
     foldl (\<lambda>m kv. m(fst kv \<mapsto> snd kv)) m kvs"
proof (induction kvs arbitrary: m rule: render_cookies.induct)
  case (2 kv)
  then have "CHR '';'' \<notin> set (CHR '' '' # cookie_pair kv)"
    by (simp add: cookie_ok_def cookie_pair_def)
  then have "split_on CHR '';'' (CHR '' '' # cookie_pair kv) = [CHR '' '' # cookie_pair kv]"
    by (rule split_on_single)
  with 2 show ?case by (simp add: add_cookie_pair)
next
  case (3 kv kv' kvs)
  then have "CHR '';'' \<notin> set (CHR '' '' # cookie_pair kv)"
    by (simp add: cookie_ok_def cookie_pair_def)
  from split_on_append [OF this]
  have "split_on CHR '';'' (CHR '' '' # render_cookies (kv # kv' # kvs)) =
      (CHR '' '' # cookie_pair kv) # split_on CHR '';'' (CHR '' '' # render_cookies (kv' # kvs))"
    by simp
  then have "foldl add_cookie m (split_on CHR '';'' (CHR '' '' # render_cookies (kv # kv' # kvs))) =
      foldl add_cookie (m(fst kv \<mapsto> snd kv))
        (split_on CHR '';'' (CHR '' '' # render_cookies (kv' # kvs)))"
    using add_cookie_pair(2) [of kv m] 3(3) by (simp only: foldl_Cons) simp
  also have "\<dots> = foldl (\<lambda>m kv. m(fst kv \<mapsto> snd kv)) (m(fst kv \<mapsto> snd kv)) (kv' # kvs)"
    by (rule 3(1)) (use 3(3) in simp_all)
  finally show ?case by (simp only: foldl_Cons)
qed simp

lemma foldl_cookies_space:
  "foldl add_cookie m (split_on CHR '';'' (CHR '' '' # s)) = foldl add_cookie m (split_on CHR '';'' s)"
  by (cases "split_on CHR '';'' s") (simp_all add: add_cookie_def trim_space_Cons)

section \<open>Properties\<close>

text \<open>
  C18: the chunked encoding of any list of non-empty chunks, whatever follows its last chunk,
  decodes to the concatenation of the chunks.
\<close>

theorem decode_chunked_encode:
  assumes "\<forall>c \<in> set cs. c \<noteq> []" and "length (encode_chunks cs @ t) < usize_bound"
  shows "decode_chunked (encode_chunks cs @ t) = Ret (Some (concat cs))"
  using decode_loop_chunks [of cs "[]" t "[]"] assms by (simp add: decode_chunked_def)

theorem decode_chunked_encode_witness:
  "decode_chunked (encode_chunks [''Hello '', ''world''] @ ''!'') = Ret (Some ''Hello world'')"
  by (subst decode_chunked_encode)
    (simp_all add: encode_chunks_def encode_chunk_def usize_bound_def show_radix.simps)

text \<open>
  Whatever the data, a decoded body is shorter than the data it was decoded from.
\<close>

lemma decode_chunked_length:
  "decode_chunked data = Ret (Some b) \<Longrightarrow> length b \<le> length data"
  using decode_loop_length [of data 0 "[]" b] by (simp add: decode_chunked_def)

lemma decode_chunked_length_instance:
  "length (concat [''abc'']) \<le> length (encode_chunks [''abc''] @ '''')"
  by (rule decode_chunked_length)
    (use decode_loop_chunks [of "[''abc'']" "[]" "''''" "[]"] in
      \<open>simp add: decode_chunked_def encode_chunks_def encode_chunk_def usize_bound_def show_radix.simps\<close>)

text \<open>
  A first chunk that is complete but whose closing CR LF has not arrived (nothing, or only
  one byte of it) makes \<open>decode_chunked\<close> panic, in both build profiles: the position is moved
  past the end of the buffer and the next slice is out of range.
\<close>

lemma decode_chunked_truncated:
  assumes "c \<noteq> []" "length t < 2" "length (show_radix 16 (length c) @ crlf @ c @ t) < usize_bound"
  shows "decode_chunked (show_radix 16 (length c) @ crlf @ c @ t) = Panic \<and>
    decode_chunked_release (show_radix 16 (length c) @ crlf @ c @ t) = Panic"
  unfolding decode_chunked_def decode_chunked_release_def using assms
  by (intro conjI decode_loop_truncated [OF assms(1) refl assms(2)])
    (simp_all add: usize_add_def usize_wrapping_add_def)

lemma decode_chunked_truncated_instance:
  "decode_chunked (show_radix 16 (length ''abc'') @ crlf @ ''abc'' @ [CR]) = Panic \<and>
   decode_chunked_release (show_radix 16 (length ''abc'') @ crlf @ ''abc'' @ [CR]) = Panic"
  by (rule decode_chunked_truncated) (simp_all add: usize_bound_def show_radix.simps)

text \<open>
  A chunk size that fits the 64-bit word but whose end does not makes \<open>decode_chunked\<close> panic
  in both build profiles: with overflow checks at the addition, without them at the slice whose
  end has wrapped around below its start.
\<close>

lemma decode_chunked_huge:
  assumes "n < usize_bound" "usize_bound \<le> length (show_radix 16 n) + 2 + n"
    and "length (show_radix 16 n @ crlf @ t) < usize_bound"
  shows "decode_chunked (show_radix 16 n @ crlf @ t) = Panic \<and>
    decode_chunked_release (show_radix 16 n @ crlf @ t) = Panic"
proof -
  define pos where "pos = length ([] :: bytes) + length (show_radix 16 n) + 2"
  note step = decode_loop_at_size [OF assms(1) _ pos_def, of "show_radix 16 n @ crlf @ t" t, simplified]
  have e: "usize_wrapping_add pos n = pos + n - usize_bound" "pos + n - usize_bound < pos"
    "usize_add pos n = Panic" "n \<noteq> 0"
    using assms
    by (auto simp: usize_wrapping_add_def usize_add_def pos_def mod_if)
  then have "slice (show_radix 16 n @ crlf @ t) pos (pos + n - usize_bound) = Panic"
    by (simp add: slice_def)
  moreover have "\<not> length (show_radix 16 n @ crlf @ t) < pos + n - usize_bound"
    using e(2) by (simp add: pos_def)
  ultimately show ?thesis
    using step e by (simp add: decode_chunked_def decode_chunked_release_def)
qed

lemma decode_chunked_huge_instance:
  "decode_chunked (show_radix 16 (2 ^ 64 - 1) @ crlf @ ''abc'') = Panic \<and>
   decode_chunked_release (show_radix 16 (2 ^ 64 - 1) @ crlf @ ''abc'') = Panic"
  by (rule decode_chunked_huge) (simp_all add: usize_bound_def show_radix.simps)

text \<open>
  C17: a request in wire format (request line, header lines, an empty line, body) whose headers
  do not ask for the chunked encoding is parsed to its method, target, version, headers and body.
\<close>

theorem parse_request_render:
  assumes "field_ok m" "field_ok p" "field_ok v" "\<forall>h \<in> set hs. header_ok h"
    and "\<not> is_chunked (header_map hs)"
  shows "parse_request (render_request m p v hs body) =
    Ret (Some \<lparr>req_method = parse_method m, req_path = p, req_version = v,
               req_headers = header_map hs, req_body = body\<rparr>)"
  using assms(5) by (simp add: parse_request_head [OF assms(1-4)])

lemmas request_eval =
  field_ok_def header_ok_def header_map_def no_ws_def trimmed_def is_chunked_def to_lowercase_def
  parse_method_def lower_byte_eval

theorem parse_request_render_witness:
  "parse_request (render_request ''GET'' ''/a'' ''HTTP/1.1'' [(''Host'', ''x:80'')] ''body'') =
    Ret (Some \<lparr>req_method = Get, req_path = ''/a'', req_version = ''HTTP/1.1'',
               req_headers = [''host'' \<mapsto> ''x:80''], req_body = ''body''\<rparr>)"
  by (subst parse_request_render) (simp_all add: request_eval)

text \<open>
  A request in wire format that asks for the chunked encoding, with a body of non-empty
  chunks, is parsed to the concatenation of its chunks.
\<close>

lemma parse_request_chunked:
  assumes "field_ok m" "field_ok p" "field_ok v" "\<forall>h \<in> set hs. header_ok h"
    and "is_chunked (header_map hs)" "\<forall>c \<in> set cs. c \<noteq> []"
    and "length (encode_chunks cs) < usize_bound"
  shows "parse_request (render_request m p v hs (encode_chunks cs)) =
    Ret (Some \<lparr>req_method = parse_method m, req_path = p, req_version = v,
               req_headers = header_map hs, req_body = concat cs\<rparr>)"
  using assms(5-7) decode_loop_chunks [of cs "[]" "[]" "[]"]
  by (simp add: parse_request_head [OF assms(1-4)] decode_chunked_def)

lemma parse_request_chunked_instance:
  "parse_request (render_request ''POST'' ''/up'' ''HTTP/1.1''
      [(''Transfer-Encoding'', ''Chunked'')] (encode_chunks [''abc'', ''de''])) =
    Ret (Some \<lparr>req_method = Post, req_path = ''/up'', req_version = ''HTTP/1.1'',
               req_headers = [''transfer-encoding'' \<mapsto> ''Chunked''], req_body = ''abcde''\<rparr>)"
  by (subst parse_request_chunked)
    (simp_all add: request_eval contains_str_def encode_chunks_def encode_chunk_def usize_bound_def
      show_radix.simps)

text \<open>
  Parsing can only panic inside the decoding of a chunked body, so a request without a
  chunked \<open>Transfer-Encoding\<close> header never makes it panic.
\<close>

lemma parse_request_panic:
  assumes "parse_request buffer = Panic"
  shows "\<exists>h first_line lines. find_sub separator buffer = Some h \<and>
    str_lines (from_utf8_lossy (take h buffer)) = first_line # lines \<and>
    is_chunked (parse_headers lines) \<and> decode_chunked (drop (h + 4) buffer) = Panic"
  using assms
  by (auto simp: parse_request_def Let_def exec_simps split: option.splits list.splits if_splits)

lemma parse_request_panic_instance:
  "\<exists>h first_line lines. find_sub separator
      (render_request ''POST'' ''/'' ''HTTP/1.1'' [(''Transfer-Encoding'', ''chunked'')]
        (show_radix 16 (length ''abc'') @ crlf @ ''abc'' @ [])) = Some h \<and>
    str_lines (from_utf8_lossy (take h
      (render_request ''POST'' ''/'' ''HTTP/1.1'' [(''Transfer-Encoding'', ''chunked'')]
        (show_radix 16 (length ''abc'') @ crlf @ ''abc'' @ [])))) = first_line # lines \<and>
    is_chunked (parse_headers lines) \<and>
    decode_chunked (drop (h + 4)
      (render_request ''POST'' ''/'' ''HTTP/1.1'' [(''Transfer-Encoding'', ''chunked'')]
        (show_radix 16 (length ''abc'') @ crlf @ ''abc'' @ []))) = Panic"
proof (rule parse_request_panic)
  have "decode_loop usize_add (show_radix 16 (length ''abc'') @ crlf @ ''abc'' @ []) 0 [] = Panic"
    by (rule decode_loop_truncated [OF _ refl])
      (simp_all add: usize_bound_def usize_add_def show_radix.simps)
  then show "parse_request (render_request ''POST'' ''/'' ''HTTP/1.1''
      [(''Transfer-Encoding'', ''chunked'')]
      (show_radix 16 (length ''abc'') @ crlf @ ''abc'' @ [])) = Panic"
    by (subst parse_request_head)
      (simp_all add: request_eval contains_str_def decode_chunked_def exec_simps)
qed

text \<open>
  The announced \<open>Content-Length\<close> plays no part in parsing: for a header block that announces
  \<open>n\<close> bytes, every body, shorter or longer than \<open>n\<close>, is accepted and kept as it is.
\<close>

lemma content_length_not_enforced:
  assumes "field_ok m" "field_ok p" "field_ok v" "\<forall>h \<in> set hs. header_ok h"
    and "\<not> is_chunked (header_map hs)" "n < usize_bound"
    and "header_map hs ''content-length'' = Some (show_nat n)"
  shows "\<forall>body. \<exists>r. parse_request (render_request m p v hs body) = Ret (Some r) \<and>
    content_length r = n \<and> req_body r = body"
  using assms(5-7)
  by (simp add: parse_request_head [OF assms(1-4)] content_length_def from_str_radix_show)

lemma content_length_not_enforced_instance:
  "\<forall>body. \<exists>r. parse_request
     (render_request ''POST'' ''/'' ''HTTP/1.1'' [(''Content-Length'', show_nat 10)] body) =
       Ret (Some r) \<and> content_length r = 10 \<and> req_body r = body"
  by (rule content_length_not_enforced)
    (simp_all add: request_eval usize_bound_def show_radix.simps digit_char_def)

text \<open>
  C29: the cookies of a request whose \<open>Cookie\<close> header lists \<open>name=value\<close> pairs are these pairs, the
  last one winning for a repeated name.
\<close>

theorem cookies_render:
  assumes "kvs \<noteq> []" "\<forall>kv \<in> set kvs. cookie_ok kv"
    and "req_headers req ''cookie'' = Some (render_cookies kvs)"
  shows "cookies req = map_of (rev kvs)"
proof -
  have "cookies req = foldl (\<lambda>m kv. m(fst kv \<mapsto> snd kv)) Map.empty kvs"
    using foldl_cookies [OF assms(1,2), of Map.empty] assms(3)
    by (simp only: cookies_def option.case foldl_cookies_space)
  also have "\<dots> = map_of (rev kvs)"
    by (induction kvs rule: rev_induct) (auto simp: fun_eq_iff)
  finally show ?thesis .
qed

theorem cookies_render_witness:
  "session_id \<lparr>req_method = Get, req_path = ''/'', req_version = ''HTTP/1.1'',
      req_headers = [''cookie'' \<mapsto> render_cookies [(''user'', ''sam''), (''session_id'', ''1f'')]],
      req_body = []\<rparr> = Some ''1f''"
  unfolding session_id_def
  by (subst cookies_render [where kvs = "[(''user'', ''sam''), (''session_id'', ''1f'')]"])
    (simp_all add: cookie_ok_def trimmed_def)

end
