(* ===== verification/Response.thy ===== *)
theory Response
  imports Request
begin

text \<open>
  HTTP responses (\<open>src/response.rs\<close>) and their serialization (\<open>Server::serialize_response\<close> in
  \<open>src/server.rs\<close>, and the older \<open>Response::send\<close>). The lemmas show that the bytes written are a
  head of well-formed lines and the body, which a reader gets back by the rules the server itself
  uses for requests, and that only \<open>serialize_response\<close> honours a redirect.
\<close>

section \<open>Model\<close>

datatype status_code =
    StatusOk
  | BadRequest
  | Forbidden
  | NotFound
  | MethodNotAllowed
  | ContentTooLarge
  | InternalServerError

fun as_str :: "status_code \<Rightarrow> string" where
  "as_str StatusOk = ''200 OK''"
| "as_str BadRequest = ''400 Bad Request''"
| "as_str Forbidden = ''403 Forbidden''"
| "as_str NotFound = ''404 Not Found''"
| "as_str MethodNotAllowed = ''405 Method Not Allowed''"
| "as_str ContentTooLarge = ''413 Content Too Large''"
| "as_str InternalServerError = ''500 Internal Server Error''"

record response =
  rsp_status :: status_code
  rsp_content_type :: string
  rsp_body :: bytes
  rsp_cookies :: "string list"
  rsp_redirect :: "string option"

definition new_response :: "status_code \<Rightarrow> string \<Rightarrow> bytes \<Rightarrow> response" where
  "new_response status content_type body =
     \<lparr>rsp_status = status, rsp_content_type = content_type, rsp_body = body,
      rsp_cookies = [], rsp_redirect = None\<rparr>"

definition redirect_response :: "string \<Rightarrow> bytes \<Rightarrow> response" where
  "redirect_response loc body =
     (new_response StatusOk ''text/html'' body)\<lparr>rsp_redirect := Some loc\<rparr>"

definition set_cookie :: "response \<Rightarrow> string \<Rightarrow> string \<Rightarrow> response" where
  "set_cookie res name val =
     res\<lparr>rsp_cookies := rsp_cookies res @ [name @ ''='' @ val @ ''; HttpOnly; SameSite=Strict'']\<rparr>"

definition error_page :: "status_code \<Rightarrow> response" where
  "error_page status =
     new_response status ''text/html''
       (''<html><body><h1>'' @ as_str status @ ''</h1></body></html>'')"

subsection \<open>Serialization\<close>

definition cookie_headers :: "response \<Rightarrow> string" where
  "cookie_headers res = concat (map (\<lambda>c. ''Set-Cookie: '' @ c @ crlf) (rsp_cookies res))"

definition response_head :: "string \<Rightarrow> response \<Rightarrow> string \<Rightarrow> string" where
  "response_head status res rest_headers =
     ''HTTP/1.1 '' @ status @ crlf @
     ''Content-Type: '' @ rsp_content_type res @ crlf @
     ''Content-Length: '' @ show_nat (length (rsp_body res)) @ crlf @
     rest_headers @ crlf"

definition serialize_response :: "response \<Rightarrow> bytes" where
  "serialize_response res =
     response_head
       (if rsp_redirect res \<noteq> None then ''301 Moved Permanently'' else as_str (rsp_status res))
       res
       ((case rsp_redirect res of None \<Rightarrow> [] | Some l \<Rightarrow> ''Location: '' @ l @ crlf) @
        cookie_headers res)
     @ rsp_body res"

text \<open>
  \<open>send\<close> writes to a blocking stream. \<open>write_all\<close> is the stream's: the new state of the stream
  and whether the call succeeded.
\<close>

definition send :: "(bytes \<Rightarrow> 's \<Rightarrow> bool \<times> 's) \<Rightarrow> response \<Rightarrow> 's \<Rightarrow> 's" where
  "send write_all res stream =
     (case write_all (response_head (as_str (rsp_status res)) res (cookie_headers res)) stream of
        (False, stream') \<Rightarrow> stream'
      | (True, stream') \<Rightarrow> snd (write_all (rsp_body res) stream'))"

section \<open>The head of a response\<close>

definition text_ok :: "string \<Rightarrow> bool" where
  "text_ok s \<longleftrightarrow> CR \<notin> set s \<and> LF \<notin> set s"

definition response_ok :: "response \<Rightarrow> bool" where
  "response_ok res \<longleftrightarrow>
     text_ok (rsp_content_type res) \<and> (\<forall>c \<in> set (rsp_cookies res). text_ok c) \<and>
     (\<forall>l. rsp_redirect res = Some l \<longrightarrow> text_ok l)"

definition status_text :: "response \<Rightarrow> string" where
  "status_text res =
     (case rsp_redirect res of None \<Rightarrow> as_str (rsp_status res) | Some _ \<Rightarrow> ''301 Moved Permanently'')"

definition head_lines :: "response \<Rightarrow> string list" where
  "head_lines res =
     [''HTTP/1.1 '' @ status_text res,
      ''Content-Type: '' @ rsp_content_type res,
      ''Content-Length: '' @ show_nat (length (rsp_body res))] @
     (case rsp_redirect res of None \<Rightarrow> [] | Some l \<Rightarrow> [''Location: '' @ l]) @
     map (\<lambda>c. ''Set-Cookie: '' @ c) (rsp_cookies res)"

lemma digits_text_ok: "text_ok (show_nat n)"
  unfolding text_ok_def using digit_plain [of 10] by auto

lemma as_str_text_ok: "text_ok (as_str s)"
  by (cases s) (simp_all add: text_ok_def)

lemma serialize_lines: "serialize_response res = concat (map (\<lambda>l. l @ crlf) (head_lines res)) @ crlf @ rsp_body res"
  by (simp add: serialize_response_def response_head_def head_lines_def status_text_def
      cookie_headers_def comp_def split: option.splits)

lemma serialize_join: "serialize_response res = join_crlf (head_lines res) @ separator @ rsp_body res"
proof -
  have "concat (map (\<lambda>l. l @ crlf) (head_lines res)) = join_crlf (head_lines res) @ crlf"
    by (rule concat_lines) (simp add: head_lines_def)
  then show ?thesis by (simp add: serialize_lines separator_def)
qed

lemma line_ok_text: "l \<noteq> [] \<Longrightarrow> text_ok l \<Longrightarrow> line_ok l"
  by (simp add: line_ok_def text_ok_def)

lemma text_ok_Cons [simp]: "text_ok (c # s) \<longleftrightarrow> c \<noteq> CR \<and> c \<noteq> LF \<and> text_ok s"
  by (auto simp: text_ok_def)

lemma text_ok_append [simp]: "text_ok (s @ t) \<longleftrightarrow> text_ok s \<and> text_ok t"
  by (auto simp: text_ok_def)

lemma text_ok_Nil [simp]: "text_ok []"
  by (simp add: text_ok_def)

lemma head_lines_ok:
  assumes "response_ok res" "l \<in> set (head_lines res)"
  shows "line_ok l"
proof (rule line_ok_text)
  show "l \<noteq> []"
    using assms(2) by (auto simp: head_lines_def split: option.splits)
  have "text_ok (status_text res)"
    by (simp add: status_text_def as_str_text_ok split: option.split)
  then show "text_ok l"
    using assms by (auto simp: head_lines_def response_ok_def digits_text_ok split: option.splits)
qed

lemma response_head_end:
  "response_ok res \<Longrightarrow> find_sub separator (serialize_response res) = Some (length (join_crlf (head_lines res)))"
  unfolding serialize_join
  by (rule find_separator) (simp add: head_lines_def, use head_lines_ok in blast)

lemma response_on_the_wire:
  assumes "response_ok res"
  shows "find_sub separator (serialize_response res) = Some (length (join_crlf (head_lines res)))"
    and "str_lines (take (length (join_crlf (head_lines res))) (serialize_response res)) = head_lines res"
    and "drop (length (join_crlf (head_lines res)) + 4) (serialize_response res) = rsp_body res"
proof -
  show "find_sub separator (serialize_response res) = Some (length (join_crlf (head_lines res)))"
    using assms by (rule response_head_end)
  have "str_lines (join_crlf (head_lines res)) = head_lines res"
    by (rule str_lines_join) (use assms head_lines_ok in blast)
  then show "str_lines (take (length (join_crlf (head_lines res))) (serialize_response res)) = head_lines res"
    by (simp add: serialize_join)
  show "drop (length (join_crlf (head_lines res)) + 4) (serialize_response res) = rsp_body res"
    by (simp add: serialize_join separator_def)
qed

text \<open>Responses built by the constructors are well-formed.\<close>

lemma response_ok_intros [intro!]:
  "text_ok ct \<Longrightarrow> response_ok (new_response s ct b)"
  "text_ok l \<Longrightarrow> response_ok (redirect_response l b)"
  "response_ok res \<Longrightarrow> text_ok n \<Longrightarrow> text_ok v \<Longrightarrow> response_ok (set_cookie res n v)"
  "response_ok (error_page s)"
  by (auto simp: response_ok_def new_response_def redirect_response_def set_cookie_def
      error_page_def as_str_text_ok)

section \<open>Properties\<close>

text \<open>
  A serialized response is a head and the body: the first empty line ends the head, the lines
  of the head are the status line, the content type, the length, the redirect target if there is
  one and one line for each cookie, and what follows is the body, whatever bytes it holds.
\<close>

lemma serialize_response_head:
  assumes "response_ok res"
  shows "\<exists>h. find_sub separator (serialize_response res) = Some h \<and>
    str_lines (take h (serialize_response res)) = head_lines res \<and>
    drop (h + 4) (serialize_response res) = rsp_body res"
  using response_on_the_wire [OF assms] by blast

lemma serialize_response_head_instance:
  "\<exists>h. find_sub separator (serialize_response (set_cookie (redirect_response ''/new'' ''moved'') ''a'' ''b'')) = Some h \<and>
    str_lines (take h (serialize_response (set_cookie (redirect_response ''/new'' ''moved'') ''a'' ''b''))) =
      head_lines (set_cookie (redirect_response ''/new'' ''moved'') ''a'' ''b'') \<and>
    drop (h + 4) (serialize_response (set_cookie (redirect_response ''/new'' ''moved'') ''a'' ''b'')) =
      rsp_body (set_cookie (redirect_response ''/new'' ''moved'') ''a'' ''b'')"
  by (rule serialize_response_head) (auto simp: text_ok_def)

lemma add_header_text:
  "CHR '':'' \<notin> set k \<Longrightarrow> add_header m (k @ CHR '':'' # v) = m(to_lowercase (trim k) \<mapsto> trim v)"
  using split_once_first [of "CHR '':''" k v] by (simp add: add_header_def)

lemma foldl_set_cookie:
  "k \<noteq> ''set-cookie'' \<Longrightarrow> foldl add_header m (map (\<lambda>c. ''Set-Cookie: '' @ c) cs) k = m k"
proof (induction cs arbitrary: m)
  case (Cons c cs)
  have "to_lowercase (trim ''Set-Cookie'') = ''set-cookie''"
    by (simp add: trimmed_def to_lowercase_def lower_byte_eval)
  then have "add_header m (''Set-Cookie: '' @ c) = m(''set-cookie'' \<mapsto> trim (CHR '' '' # c))"
    using add_header_text [of "''Set-Cookie''" m "CHR '' '' # c"] by simp
  with Cons show ?case by simp
qed simp

lemma parse_head_lines_length:
  "parse_headers (tl (head_lines res)) ''content-length'' = Some (show_nat (length (rsp_body res)))"
proof -
  have names: "to_lowercase (trim ''Content-Type'') = ''content-type''"
    "to_lowercase (trim ''Content-Length'') = ''content-length''"
    "to_lowercase (trim ''Location'') = ''location''"
    by (simp_all add: trimmed_def to_lowercase_def lower_byte_eval)
  have fields: "add_header m (''Content-Type: '' @ v) = m(''content-type'' \<mapsto> trim v)"
    "add_header m (''Content-Length: '' @ v) = m(''content-length'' \<mapsto> trim v)"
    "add_header m (''Location: '' @ v) = m(''location'' \<mapsto> trim v)" for m v
    using names add_header_text [of "''Content-Type''" m "CHR '' '' # v"]
      add_header_text [of "''Content-Length''" m "CHR '' '' # v"]
      add_header_text [of "''Location''" m "CHR '' '' # v"]
    by (simp_all add: trim_space_Cons)
  define m where "m = add_header (add_header Map.empty (''Content-Type: '' @ rsp_content_type res))
    (''Content-Length: '' @ show_nat (length (rsp_body res)))"
  have "m ''content-length'' = Some (show_nat (length (rsp_body res)))"
    by (simp only: m_def fields) simp
  moreover have "add_header m (''Location: '' @ l) ''content-length'' = m ''content-length''" for l
    by (simp only: fields) simp
  moreover have "parse_headers (tl (head_lines res)) =
      foldl add_header (case rsp_redirect res of None \<Rightarrow> m | Some l \<Rightarrow> add_header m (''Location: '' @ l))
        (map (\<lambda>c. ''Set-Cookie: '' @ c) (rsp_cookies res))"
    by (simp only: parse_headers_def head_lines_def append_Cons append_Nil list.sel foldl_Cons
        foldl_append m_def) (simp split: option.split)
  moreover have "''content-length'' \<noteq> ''set-cookie''"
    by simp
  ultimately show ?thesis
    using foldl_set_cookie [of "''content-length''"] by (cases "rsp_redirect res") simp_all
qed

text \<open>
  A reader that applies the header rules of the server to a serialized response finds in the
  \<open>Content-Length\<close> field the number of bytes that follow the head, provided no field the program
  puts in after it repeats that name (redirect and cookie fields do not).
\<close>

lemma serialize_response_length:
  assumes "response_ok res" "length (rsp_body res) < usize_bound"
  shows "\<exists>h n. find_sub separator (serialize_response res) = Some h \<and>
    parse_headers (tl (str_lines (take h (serialize_response res)))) ''content-length'' = Some n \<and>
    parse_usize n = Some (length (drop (h + 4) (serialize_response res)))"
proof -
  have "str_lines (join_crlf (head_lines res)) = head_lines res"
    by (rule str_lines_join) (use assms(1) head_lines_ok in blast)
  then show ?thesis
    using response_head_end [OF assms(1)] assms(2)
    by (simp add: serialize_join parse_head_lines_length separator_def from_str_radix_show)
qed

lemma serialize_response_length_instance:
  "\<exists>h n. find_sub separator (serialize_response (error_page NotFound)) = Some h \<and>
    parse_headers (tl (str_lines (take h (serialize_response (error_page NotFound))))) ''content-length'' = Some n \<and>
    parse_usize n = Some (length (drop (h + 4) (serialize_response (error_page NotFound))))"
  by (rule serialize_response_length)
    (rule response_ok_intros, simp add: error_page_def new_response_def usize_bound_def)

lemma send_append:
  "send (\<lambda>b s. (True, s @ b)) res out =
     out @ response_head (as_str (rsp_status res)) res (cookie_headers res) @ rsp_body res"
  by (simp add: send_def)

text \<open>
  \<open>send\<close> and \<open>serialize_response\<close> agree on a response without redirect: over a stream that
  appends, \<open>send\<close> writes exactly the serialized bytes. With a redirect they differ: \<open>send\<close> writes
  the response's own status and no \<open>Location\<close>.
\<close>

lemma send_serialize:
  "send (\<lambda>b s. (True, s @ b)) res out = out @ serialize_response res \<longleftrightarrow>
     rsp_redirect res = None"
proof
  assume "send (\<lambda>b s. (True, s @ b)) res out = out @ serialize_response res"
  then have "response_head (as_str (rsp_status res)) res (cookie_headers res) @ rsp_body res =
      serialize_response res"
    by (simp add: send_append)
  then show "rsp_redirect res = None"
    by (cases "rsp_redirect res"; cases "rsp_status res")
      (simp_all add: serialize_response_def response_head_def)
qed (simp add: send_append serialize_response_def)

end
