(* ===== verification/Cgi.thy ===== *)
theory Cgi
  imports Response
begin

text \<open>
  CGI (\<open>src/cgi.rs\<close>): the command a script is started with, its standard input, the polling loop
  with its time limit, and the parsing of its output. The child process is a parameter: what it
  does with its input, how each poll of it answers, what it has printed when it is collected.

  The lemmas bound the polling loop, give the response for scripts that finish and for scripts
  that never do, and show how the output is cut into head and body.
\<close>

section \<open>Model\<close>

record cgi_runner =
  run_interpreter :: string
  run_script_path :: string
  run_timeout :: nat

definition ms :: nat where
  "ms = 10 ^ 6"

definition secs :: nat where
  "secs = 10 ^ 9"

definition new_runner :: "string \<Rightarrow> string \<Rightarrow> cgi_runner" where
  "new_runner interpreter script_path =
     \<lparr>run_interpreter = interpreter, run_script_path = script_path, run_timeout = 10 * secs\<rparr>"


fun method_str :: "http_method \<Rightarrow> string" where
  "method_str Get = ''GET''"
| "method_str Post = ''POST''"
| "method_str Delete = ''DELETE''"
| "method_str (Unknown s) = s"

definition query_string :: "string \<Rightarrow> string" where
  "query_string p = (case split_once CHR ''?'' p of Some (_, query) \<Rightarrow> query | None \<Rightarrow> [])"

subsection \<open>The child process\<close>

record command =
  cmd_program :: string
  cmd_arg :: string
  cmd_env :: "(string \<times> string) list"

text \<open>
  The standard input of the child: the body, after which the pipe is closed, or a pipe that is
  never written to and stays open until the child is collected.
\<close>

datatype stdin = Body_then_eof bytes | Left_open

datatype poll = Exited | Running | Poll_error

datatype write_outcome = Written | Write_error | Blocks

record child_output =
  out_success :: bool
  out_stdout :: bytes

record child =
  ch_write :: "bytes \<Rightarrow> write_outcome"
  ch_poll :: "stdin \<Rightarrow> nat \<Rightarrow> poll"
  ch_output :: "stdin \<Rightarrow> child_output option"

text \<open>
  \<open>wait_with_timeout\<close>: \<open>i\<close> counts the polls, \<open>elapsed\<close> is \<open>start.elapsed()\<close> at poll \<open>i\<close> and
  \<open>jitter i\<close> the time an iteration takes beyond the 10 ms it sleeps.
\<close>

datatype wait_end = Collect nat | Kill nat | Give_up nat

function wait_loop :: "(nat \<Rightarrow> poll) \<Rightarrow> (nat \<Rightarrow> nat) \<Rightarrow> nat \<Rightarrow> nat \<Rightarrow> nat \<Rightarrow> wait_end" where
  "wait_loop poll jitter timeout i elapsed =
     (case poll i of
        Exited \<Rightarrow> Collect i
      | Poll_error \<Rightarrow> Give_up i
      | Running \<Rightarrow>
          if timeout < elapsed then Kill i
          else wait_loop poll jitter timeout (Suc i) (elapsed + 10 * ms + jitter i))"
  by pat_completeness auto
termination
  by (relation "measure (\<lambda>(poll, jitter, timeout, i, elapsed). Suc timeout - elapsed)")
    (auto simp: ms_def)

declare wait_loop.simps [simp del]

definition wait_with_timeout :: "child \<Rightarrow> stdin \<Rightarrow> (nat \<Rightarrow> nat) \<Rightarrow> nat \<Rightarrow> child_output option" where
  "wait_with_timeout c input jitter timeout =
     (case wait_loop (ch_poll c input) jitter timeout 0 0 of
        Collect _ \<Rightarrow> ch_output c input
      | Kill _ \<Rightarrow> None
      | Give_up _ \<Rightarrow> None)"

subsection \<open>The output of a script\<close>

definition alt_sep :: bytes where
  "alt_sep = [LF, LF]"

definition status_of_code :: "nat \<Rightarrow> status_code" where
  "status_of_code code =
     (if code = 200 then StatusOk
      else if code = 400 then BadRequest
      else if code = 403 then Forbidden
      else if code = 404 then NotFound
      else if code = 500 then InternalServerError
      else StatusOk)"

definition cgi_code :: "string \<Rightarrow> nat" where
  "cgi_code val =
     (case split_whitespace (trim val) of
        [] \<Rightarrow> 200
      | w # _ \<Rightarrow> (case parse_u16 w of Some n \<Rightarrow> n | None \<Rightarrow> 200))"

definition cgi_header :: "string \<times> status_code \<Rightarrow> string \<Rightarrow> string \<times> status_code" where
  "cgi_header acc line =
     (case split_once CHR '':'' line of
        None \<Rightarrow> acc
      | Some (key, val) \<Rightarrow>
          if to_lowercase (trim key) = ''content-type'' then (trim val, snd acc)
          else if to_lowercase (trim key) = ''status'' then (fst acc, status_of_code (cgi_code val))
          else acc)"

definition cgi_split :: "bytes \<Rightarrow> (bytes \<times> bytes) option" where
  "cgi_split out =
     (case find_sub separator out of
        Some pos \<Rightarrow> Some (take pos out, drop (pos + 4) out)
      | None \<Rightarrow>
          (case find_sub alt_sep out of
             Some pos \<Rightarrow> Some (take pos out, drop (pos + 2) out)
           | None \<Rightarrow> None))"

definition parse_cgi_output :: "bytes \<Rightarrow> response" where
  "parse_cgi_output out =
     (case cgi_split out of
        None \<Rightarrow> error_page InternalServerError
      | Some (header_bytes, body) \<Rightarrow>
          (case foldl cgi_header (''text/html'', StatusOk) (str_lines (from_utf8_lossy header_bytes)) of
             (content_type, status) \<Rightarrow> new_response status content_type body))"

subsection \<open>Running a script\<close>

definition header_or_empty :: "request \<Rightarrow> string \<Rightarrow> string" where
  "header_or_empty req name = (case req_headers req name of Some v \<Rightarrow> v | None \<Rightarrow> [])"

definition cgi_command :: "cgi_runner \<Rightarrow> request \<Rightarrow> command" where
  "cgi_command r req =
     \<lparr>cmd_program = run_interpreter r, cmd_arg = run_script_path r,
      cmd_env =
        [(''QUERY_STRING'', header_or_empty req ''x-query-string''),
         (''REQUEST_METHOD'', method_str (req_method req)),
         (''PATH_INFO'', req_path req),
         (''CONTENT_LENGTH'', show_nat (length (req_body req))),
         (''CONTENT_TYPE'', header_or_empty req ''content-type''),
         (''SERVER_PROTOCOL'', ''HTTP/1.1''),
         (''GATEWAY_INTERFACE'', ''CGI/1.1'')]\<rparr>"

text \<open>\<open>None\<close>: the call never returns, because the write to the pipe blocks for ever.\<close>

definition run :: "(command \<Rightarrow> child option) \<Rightarrow> (nat \<Rightarrow> nat) \<Rightarrow> cgi_runner \<Rightarrow> request \<Rightarrow> response option" where
  "run spawn jitter r req =
     (case spawn (cgi_command r req) of
        None \<Rightarrow> Some (error_page InternalServerError)
      | Some c \<Rightarrow>
          if req_body req \<noteq> [] \<and> ch_write c (req_body req) = Blocks then None
          else
            (let input = (if req_body req = [] then Left_open else Body_then_eof (req_body req)) in
             Some
               (case wait_with_timeout c input jitter (10 * secs) of
                  None \<Rightarrow> error_page InternalServerError
                | Some out \<Rightarrow>
                    if \<not> out_success out then error_page InternalServerError
                    else parse_cgi_output (out_stdout out))))"

section \<open>The polling loop\<close>



lemma wait_loop_killed:
  "(\<forall>i. poll i = Running) \<Longrightarrow> \<exists>n. wait_loop poll jitter timeout i elapsed = Kill n"
proof (induction poll jitter timeout i elapsed rule: wait_loop.induct)
  case (1 poll jitter timeout i elapsed)
  then have "poll i = Running" by blast
  with 1 have "timeout < elapsed \<or>
      (\<exists>n. wait_loop poll jitter timeout (Suc i) (elapsed + 10 * ms + jitter i) = Kill n)"
    by blast
  with \<open>poll i = Running\<close> show ?case by (subst wait_loop.simps) auto
qed

lemma wait_loop_collected:
  "(\<forall>j < n. poll (i + j) = Running) \<Longrightarrow> poll (i + n) = Exited \<Longrightarrow>
   elapsed + (\<Sum>j < n. 10 * ms + jitter (i + j)) \<le> timeout \<Longrightarrow>
   wait_loop poll jitter timeout i elapsed = Collect (i + n)"
proof (induction n arbitrary: i elapsed)
  case 0
  then show ?case by (subst wait_loop.simps) simp
next
  case (Suc n)
  let ?e = "elapsed + 10 * ms + jitter i"
  have "poll i = Running" using Suc.prems(1) by (metis add.right_neutral zero_less_Suc)
  moreover have "?e + (\<Sum>j < n. 10 * ms + jitter (Suc i + j)) \<le> timeout"
    using Suc.prems(3) by (simp add: sum.lessThan_Suc_shift del: sum.lessThan_Suc)
  moreover have "\<forall>j < n. poll (Suc i + j) = Running" "poll (Suc i + n) = Exited"
    using Suc.prems(1,2) by (metis Suc_less_eq add_Suc_shift, simp)
  ultimately show ?case
    using Suc.IH [of "Suc i" ?e] by (subst wait_loop.simps) simp
qed

section \<open>The output of a script\<close>

text \<open>A script's output: a status line, a content type, an empty line, the body.\<close>

definition cgi_status_line :: "nat \<Rightarrow> string \<Rightarrow> string" where
  "cgi_status_line code reason = ''Status: '' @ show_nat code @ '' '' @ reason"

definition render_cgi :: "nat \<Rightarrow> string \<Rightarrow> string \<Rightarrow> bytes \<Rightarrow> bytes" where
  "render_cgi code reason ct body =
     cgi_status_line code reason @ crlf @ ''Content-Type: '' @ ct @ crlf @ crlf @ body"






lemma text_ok_show_nat [simp]: "text_ok (show_nat n)"
  by (rule digits_text_ok)



section \<open>Properties\<close>



text \<open>
  A head that a script ends with two line feeds is cut in the right place only if the body
  holds no CR LF CR LF: the end of the head is looked for in the whole output, first as
  CR LF CR LF, so the part of the body up to there is taken for head lines and lost.
\<close>

lemma parse_cgi_cut_in_body:
  assumes "CR \<notin> set head" "CR \<notin> set b"
  shows "rsp_body (parse_cgi_output (head @ alt_sep @ b @ separator @ rest)) = rest"
proof -
  have "find_sub separator ((head @ alt_sep @ b) @ separator @ rest) = Some (length (head @ alt_sep @ b))"
    unfolding separator_def append_Cons append_Nil
    using assms find_sub_fresh_head [of CR "head @ alt_sep @ b" "[LF, CR, LF]" rest]
    by (simp add: alt_sep_def)
  then have "cgi_split (head @ alt_sep @ b @ separator @ rest) = Some (head @ alt_sep @ b, rest)"
    unfolding cgi_split_def by (simp add: separator_def)
  then show ?thesis
    by (simp add: parse_cgi_output_def new_response_def split: prod.split)
qed

lemma parse_cgi_cut_in_body_instance:
  "rsp_body (parse_cgi_output (''Content-Type: text/plain'' @ alt_sep @ ''mail'' @ separator @ ''text'')) = ''text''"
  by (rule parse_cgi_cut_in_body) simp_all


text \<open>
  C26: a script that exits within ten seconds is answered with its output, or with a 500 page when
  it failed.
\<close>

theorem run_in_time:
  assumes "spawn (cgi_command r req) = Some c"
    and "input = (if req_body req = [] then Left_open else Body_then_eof (req_body req))"
    and "req_body req = [] \<or> ch_write c (req_body req) \<noteq> Blocks"
    and "\<forall>j < n. ch_poll c input j = Running" "ch_poll c input n = Exited"
    and "(\<Sum>j < n. 10 * ms + jitter j) \<le> 10 * secs"
    and "ch_output c input = Some out"
  shows "run spawn jitter r req =
    Some (if out_success out then parse_cgi_output (out_stdout out) else error_page InternalServerError)"
proof -
  have "wait_loop (ch_poll c input) jitter (10 * secs) 0 0 = Collect n"
    using wait_loop_collected [of n "ch_poll c input" 0 0 jitter "10 * secs"] assms(4-6) by simp
  then have "wait_with_timeout c input jitter (10 * secs) = Some out"
    by (simp add: wait_with_timeout_def assms(7))
  then show ?thesis
    using assms(1,3) by (auto simp: run_def Let_def simp flip: assms(2))
qed

theorem run_in_time_witness:
  "run (\<lambda>_. Some \<lparr>ch_write = (\<lambda>_. Written), ch_poll = (\<lambda>_ i. if i < 3 then Running else Exited),
        ch_output = (\<lambda>_. Some \<lparr>out_success = True, out_stdout = render_cgi 200 ''OK'' ''a/b'' ''hi''\<rparr>)\<rparr>)
     (\<lambda>_. 5) (new_runner ''sh'' ''x.sh'')
     \<lparr>req_method = Get, req_path = ''/x.sh'', req_version = ''HTTP/1.1'', req_headers = Map.empty, req_body = []\<rparr> =
   Some (parse_cgi_output (render_cgi 200 ''OK'' ''a/b'' ''hi''))"
  using run_in_time [of "\<lambda>_. Some \<lparr>ch_write = (\<lambda>_. Written), ch_poll = (\<lambda>_ i. if i < 3 then Running else Exited),
        ch_output = (\<lambda>_. Some \<lparr>out_success = True, out_stdout = render_cgi 200 ''OK'' ''a/b'' ''hi''\<rparr>)\<rparr>"
      _ _ _ _ 3 "\<lambda>_. 5" "\<lparr>out_success = True, out_stdout = render_cgi 200 ''OK'' ''a/b'' ''hi''\<rparr>", OF refl refl]
  by (simp add: ms_def secs_def)

text \<open>
  C36: the standard input of a script is closed only when there is a body to write. A script that
  reads it to its end before it exits is never answered on a request without body: it is killed
  after ten seconds and the answer is a 500 page.
\<close>

theorem run_waits_for_eof:
  assumes "spawn (cgi_command r req) = Some c" "req_body req = []"
    and "\<forall>i. ch_poll c Left_open i = Running"
  shows "run spawn jitter r req = Some (error_page InternalServerError)"
proof -
  obtain n where "wait_loop (ch_poll c Left_open) jitter (10 * secs) 0 0 = Kill n"
    using wait_loop_killed [OF assms(3)] by blast
  then show ?thesis
    using assms(1,2) by (simp add: run_def wait_with_timeout_def)
qed

theorem run_waits_for_eof_witness:
  "run (\<lambda>_. Some \<lparr>ch_write = (\<lambda>_. Written),
        ch_poll = (\<lambda>input _. if input = Left_open then Running else Exited),
        ch_output = (\<lambda>_. None)\<rparr>) (\<lambda>_. 0) (new_runner ''sh'' ''x.sh'')
     \<lparr>req_method = Get, req_path = ''/x.sh'', req_version = ''HTTP/1.1'', req_headers = Map.empty, req_body = []\<rparr> =
   Some (error_page InternalServerError)"
  by (rule run_waits_for_eof [OF refl]) simp_all

end
