(* ===== verification/Handler.thy ===== *)
theory Handler
  imports Config_Types Files Session Cgi
begin

text \<open>
  The request handlers (\<open>src/handler.rs\<close>), over a world of files and sessions and an environment
  that supplies the clock, the process id, the faults of the file system and the child processes.
  Every handler returns the response and the new world; a handler that runs a script may block
  for ever (\<^const>\<open>None\<close>).
\<close>

section \<open>Model\<close>

record world =
  w_files :: file_system
  w_sessions :: session_store

text \<open>\<open>env_spawn\<close> starts a child; \<open>env_effect\<close> is what a started child does to the files.\<close>

record environment =
  env_faults :: faults
  env_now :: instant
  env_nanos :: "32 word"
  env_pid :: "32 word"
  env_jitter :: "nat \<Rightarrow> nat"
  env_spawn :: "file_system \<Rightarrow> command \<Rightarrow> child option"
  env_effect :: "command \<Rightarrow> bytes \<Rightarrow> file_system \<Rightarrow> file_system"

subsection \<open>Choosing a location\<close>

definition get_content_type :: "string \<Rightarrow> string" where
  "get_content_type p =
     (if suffix ''.html'' p then ''text/html''
      else if suffix ''.css'' p then ''text/css''
      else if suffix ''.js'' p then ''application/javascript''
      else if suffix ''.png'' p then ''image/png''
      else if suffix ''.jpg'' p then ''image/jpeg''
      else if suffix ''.json'' p then ''application/json''
      else if suffix ''.txt'' p then ''text/plain''
      else ''application/octet-stream'')"

text \<open>\<open>max_by_key\<close> on the length of the path keeps the last of several maxima.\<close>

definition longer :: "location option \<Rightarrow> location \<Rightarrow> location option" where
  "longer best loc =
     (case best of
        None \<Rightarrow> Some loc
      | Some b \<Rightarrow> if length (loc_path b) \<le> length (loc_path loc) then Some loc else Some b)"

definition match_location :: "string \<Rightarrow> server_config \<Rightarrow> location option" where
  "match_location p conf =
     foldl longer None (filter (\<lambda>loc. prefix (loc_path loc) p) (srv_locations conf))"

fun same_method :: "config_method \<Rightarrow> http_method \<Rightarrow> bool" where
  "same_method CGet Get = True"
| "same_method CPost Post = True"
| "same_method CDelete Delete = True"
| "same_method _ _ = False"

definition is_method_allowed :: "http_method \<Rightarrow> location \<Rightarrow> bool" where
  "is_method_allowed m loc \<longleftrightarrow>
     loc_methods loc = [] \<or> (\<exists>cm \<in> set (loc_methods loc). same_method cm m)"

definition find_cgi :: "string \<Rightarrow> location \<Rightarrow> CGI option" where
  "find_cgi p loc =
     (case loc_cgi loc of
        Some cgi \<Rightarrow> if suffix (cgi_extension cgi) p then Some cgi else None
      | None \<Rightarrow> None)"

definition strip_location_prefix :: "string \<Rightarrow> string \<Rightarrow> string" where
  "strip_location_prefix url loc =
     trim_start_matches CHR ''/'' (case strip_prefix_str loc url of Some r \<Rightarrow> r | None \<Rightarrow> url)"

subsection \<open>Error pages\<close>

fun error_code :: "status_code \<Rightarrow> nat option" where
  "error_code NotFound = Some 404"
| "error_code Forbidden = Some 403"
| "error_code InternalServerError = Some 500"
| "error_code BadRequest = Some 400"
| "error_code MethodNotAllowed = Some 405"
| "error_code ContentTooLarge = Some 413"
| "error_code StatusOk = None"

definition error_response :: "faults \<Rightarrow> file_system \<Rightarrow> status_code \<Rightarrow> server_config \<Rightarrow> response" where
  "error_response fl fs status conf =
     (case error_code status of
        None \<Rightarrow> error_page status
      | Some code \<Rightarrow>
          (case srv_error_pages conf code of
             None \<Rightarrow> error_page status
           | Some page_path \<Rightarrow>
               (case read_file fl fs page_path of
                  Some contents \<Rightarrow> new_response status ''text/html'' contents
                | None \<Rightarrow> error_page status)))"

subsection \<open>Files\<close>

definition parent_row :: "string \<Rightarrow> string" where
  "parent_row url =
     (if url = ''/'' then []
      else
        ''<tr><td><a href=''@ [CHR 0x27] @
        (case path_parent url of Some p \<Rightarrow> p | None \<Rightarrow> ''/'') @
        ''/'' @ [CHR 0x27] @ ''>..</a></td><td>-</td><td>-</td></tr>'' @ [LF])"

definition entry_row :: "string \<Rightarrow> string \<times> entry option \<Rightarrow> string" where
  "entry_row url ent =
     (case ent of (name, meta) \<Rightarrow>
        (case meta of
           None \<Rightarrow> []
         | Some e \<Rightarrow>
             (let name_str = from_utf8_lossy name;
                  display_name = (case e of Directory \<Rightarrow> name_str @ ''/'' | File _ \<Rightarrow> name_str);
                  size = (case e of Directory \<Rightarrow> ''-'' | File d \<Rightarrow> show_nat (length d) @ '' bytes'');
                  href = trim_end_matches CHR ''/'' url @ ''/'' @ display_name
              in ''<tr><td><a href='' @ [CHR 0x27] @ href @ [CHR 0x27] @ ''>'' @ display_name @
                 ''</a></td><td>'' @ size @ ''</td></tr>'' @ [LF])))"

definition listing_page :: "string \<Rightarrow> string \<Rightarrow> string" where
  "listing_page url rows =
     ''<!DOCTYPE html>'' @ [LF] @
     ''<html>'' @ [LF] @
     ''<head>'' @ [LF] @
     ''    <title>Index of '' @ url @ ''</title>'' @ [LF] @
     ''    <style>'' @ [LF] @
     ''        body  { font-family: monospace; padding: 2rem; }'' @ [LF] @
     ''        h1    { border-bottom: 1px solid #ccc; padding-bottom: 0.5rem; }'' @ [LF] @
     ''        table { border-collapse: collapse; width: 100%; }'' @ [LF] @
     ''        td    { padding: 0.3rem 1rem; }'' @ [LF] @
     ''        tr:hover { background: #f5f5f5; }'' @ [LF] @
     ''        a     { text-decoration: none; color: #0066cc; }'' @ [LF] @
     ''        a:hover { text-decoration: underline; }'' @ [LF] @
     ''    </style>'' @ [LF] @
     ''</head>'' @ [LF] @
     ''<body>'' @ [LF] @
     ''    <h1>Index of '' @ url @ ''</h1>'' @ [LF] @
     ''    <table>'' @ [LF] @
     ''        <tr><th align='' @ [CHR 0x27] @ ''left'' @ [CHR 0x27] @ ''>Name</th><th align='' @
       [CHR 0x27] @ ''left'' @ [CHR 0x27] @ ''>Size</th></tr>'' @ [LF] @
     ''        '' @ rows @ [LF] @
     ''    </table>'' @ [LF] @
     ''</body>'' @ [LF] @
     ''</html>''"

definition serve_directory :: "faults \<Rightarrow> file_system \<Rightarrow> string \<Rightarrow> string \<Rightarrow> server_config \<Rightarrow> response" where
  "serve_directory fl fs url dir conf =
     (let autoindex = (case match_location url conf of Some loc \<Rightarrow> loc_autoindex loc | None \<Rightarrow> False) in
      if \<not> autoindex then error_response fl fs Forbidden conf
      else
        (case read_dir fl fs dir of
           None \<Rightarrow> error_response fl fs InternalServerError conf
         | Some entries \<Rightarrow>
             new_response StatusOk ''text/html''
               (listing_page url
                 (parent_row url @ concat (map (entry_row url) (sort_key fst entries))))))"

definition serve_file :: "faults \<Rightarrow> file_system \<Rightarrow> string \<Rightarrow> string \<Rightarrow> server_config \<Rightarrow> response" where
  "serve_file fl fs p root conf =
     (let file_path = root @ p;
          meta = (case metadata fl fs file_path of
                    Some m \<Rightarrow> Some m
                  | None \<Rightarrow> metadata fl fs (root @ trim_end_matches CHR ''/'' p))
      in case meta of
           None \<Rightarrow> error_response fl fs NotFound conf
         | Some Directory \<Rightarrow>
             (case read_file fl fs (trim_end_matches CHR ''/'' file_path @ ''/index.html'') of
                Some contents \<Rightarrow> new_response StatusOk ''text/html'' contents
              | None \<Rightarrow> serve_directory fl fs p file_path conf)
         | Some (File _) \<Rightarrow>
             (case read_file fl fs file_path of
                Some contents \<Rightarrow> new_response StatusOk (get_content_type p) contents
              | None \<Rightarrow> error_response fl fs NotFound conf))"

definition handle_post :: "faults \<Rightarrow> request \<Rightarrow> string \<Rightarrow> server_config \<Rightarrow> file_system \<Rightarrow> response \<times> file_system" where
  "handle_post fl req root conf fs =
     (if req_body req = [] then (error_response fl fs BadRequest conf, fs)
      else
        (let file_path = root @ req_path req;
             made = (case path_parent file_path of
                       None \<Rightarrow> (True, fs)
                     | Some parent \<Rightarrow> create_dir_all fl parent fs)
         in case made of
              (False, fs') \<Rightarrow> (error_response fl fs' InternalServerError conf, fs')
            | (True, fs') \<Rightarrow>
                (case write_file fl file_path (req_body req) fs' of
                   (True, fs'') \<Rightarrow>
                     (new_response StatusOk ''text/html''
                       (''<html><body><h1>Uploaded to '' @ req_path req @ ''</h1></body></html>''), fs'')
                 | (False, fs'') \<Rightarrow> (error_response fl fs'' InternalServerError conf, fs''))))"

definition handle_delete :: "faults \<Rightarrow> request \<Rightarrow> string \<Rightarrow> server_config \<Rightarrow> file_system \<Rightarrow> response \<times> file_system" where
  "handle_delete fl req root conf fs =
     (case remove_file fl (root @ req_path req) fs of
        (True, fs') \<Rightarrow>
          (new_response StatusOk ''text/html''
            (''<html><body><h1>Deleted '' @ req_path req @ ''</h1></body></html>''), fs')
      | (False, fs') \<Rightarrow> (error_response fl fs' NotFound conf, fs'))"

subsection \<open>Sessions\<close>

definition add_param :: "(string \<rightharpoonup> string) \<Rightarrow> string \<Rightarrow> (string \<rightharpoonup> string)" where
  "add_param m pair = (case split_once CHR ''='' pair of Some (k, v) \<Rightarrow> m(k \<mapsto> v) | None \<Rightarrow> m)"

definition form_params :: "bytes \<Rightarrow> (string \<rightharpoonup> string)" where
  "form_params body = foldl add_param Map.empty (split_on CHR ''&'' (from_utf8_lossy body))"

definition handle_login :: "environment \<Rightarrow> request \<Rightarrow> session_store \<Rightarrow> response \<times> session_store" where
  "handle_login env req st =
     (let params = form_params (req_body req);
          username = (case params ''username'' of Some v \<Rightarrow> v | None \<Rightarrow> []);
          password = (case params ''password'' of Some v \<Rightarrow> v | None \<Rightarrow> [])
      in if username = ''admin'' \<and> password = ''secret''
         then
           (case create (env_nanos env) (env_pid env) (env_now env) st of (sid, st1) \<Rightarrow>
              (case set_value (env_now env) sid ''username'' username st1 of (_, st2) \<Rightarrow>
                 (set_cookie
                    (new_response StatusOk ''text/html'' ''<html><body><h1>Logged in!</h1></body></html>'')
                    ''session_id'' sid, st2)))
         else
           (new_response StatusOk ''text/html'' ''<html><body><h1>Invalid credentials</h1></body></html>'', st))"

definition handle_logout :: "request \<Rightarrow> session_store \<Rightarrow> response \<times> session_store" where
  "handle_logout req st =
     (set_cookie
        (new_response StatusOk ''text/html'' ''<html><body><h1>Logged out</h1></body></html>'')
        ''session_id'' ''deleted; Max-Age=0'',
      case session_id req of Some sid \<Rightarrow> destroy sid st | None \<Rightarrow> st)"

definition handle_whoami ::
    "environment \<Rightarrow> request \<Rightarrow> server_config \<Rightarrow> file_system \<Rightarrow> session_store \<Rightarrow> response \<times> session_store" where
  "handle_whoami env req conf fs st =
     (let (username, st') =
        (case session_id req of
           Some sid \<Rightarrow> get_value (env_now env) sid ''username'' st
         | None \<Rightarrow> (None, st))
      in case username of
           Some name \<Rightarrow>
             (new_response StatusOk ''text/html''
               (''<html><body><h1>You are: '' @ name @ ''</h1></body></html>''), st')
         | None \<Rightarrow> (error_response (env_faults env) fs Forbidden conf, st'))"

subsection \<open>Dispatch\<close>

definition run_cgi :: "environment \<Rightarrow> cgi_runner \<Rightarrow> request \<Rightarrow> world \<Rightarrow> (response \<times> world) option" where
  "run_cgi env r req w =
     (case run (env_spawn env (w_files w)) (env_jitter env) r req of
        None \<Rightarrow> None
      | Some res \<Rightarrow>
          Some (res,
            if env_spawn env (w_files w) (cgi_command r req) = None then w
            else w\<lparr>w_files := env_effect env (cgi_command r req) (req_body req) (w_files w)\<rparr>))"

text \<open>The adjusted request that the code builds for POST and DELETE is not passed on.\<close>

definition handle_with_route :: "environment \<Rightarrow> request \<Rightarrow> server_config \<Rightarrow> world \<Rightarrow> (response \<times> world) option" where
  "handle_with_route env req conf w =
     (let fl = env_faults env; fs = w_files w in
      case match_location (req_path req) conf of
        None \<Rightarrow> Some (error_response fl fs NotFound conf, w)
      | Some loc \<Rightarrow>
          if \<not> is_method_allowed (req_method req) loc
          then Some (error_response fl fs MethodNotAllowed conf, w)
          else if req_method req = Get \<or> req_method req = Post then
            (case find_cgi (req_path req) loc of
               Some cgi \<Rightarrow>
                 run_cgi env
                   (new_runner (cgi_interpreter cgi)
                     (loc_root loc @ ''/'' @ strip_location_prefix (req_path req) (loc_path loc)))
                   req w
             | None \<Rightarrow>
                 if req_method req = Get
                 then Some (serve_file fl fs (req_path req) (loc_root loc) conf, w)
                 else
                   (case handle_post fl req (loc_root loc) conf fs of
                      (res, fs') \<Rightarrow> Some (res, w\<lparr>w_files := fs'\<rparr>)))
          else if req_method req = Delete then
            (case handle_delete fl req (loc_root loc) conf fs of
               (res, fs') \<Rightarrow> Some (res, w\<lparr>w_files := fs'\<rparr>))
          else Some (error_response fl fs MethodNotAllowed conf, w))"

definition redirect_body :: "string \<Rightarrow> bytes" where
  "redirect_body to =
     ''<html><body>Redirecting to <a href='' @ [CHR 0x27] @ to @ [CHR 0x27] @ ''>'' @ to @
     ''</a></body></html>''"

definition redirect_of :: "request \<Rightarrow> server_config \<Rightarrow> string option" where
  "redirect_of req conf =
     (case match_location (req_path req) conf of Some loc \<Rightarrow> loc_redirect loc | None \<Rightarrow> None)"

definition build_response :: "environment \<Rightarrow> request \<Rightarrow> server_config \<Rightarrow> world \<Rightarrow> (response \<times> world) option" where
  "build_response env req conf w =
     (case redirect_of req conf of
        Some to \<Rightarrow> Some (redirect_response to (redirect_body to), w)
      | None \<Rightarrow>
          if req_path req = ''/login'' \<and> req_method req = Post then
            (case handle_login env req (w_sessions w) of
               (res, st) \<Rightarrow> Some (res, w\<lparr>w_sessions := st\<rparr>))
          else if req_path req = ''/logout'' \<and> req_method req = Post then
            (case handle_logout req (w_sessions w) of
               (res, st) \<Rightarrow> Some (res, w\<lparr>w_sessions := st\<rparr>))
          else if req_path req = ''/whoami'' then
            (case handle_whoami env req conf (w_files w) (w_sessions w) of
               (res, st) \<Rightarrow> Some (res, w\<lparr>w_sessions := st\<rparr>))
          else handle_with_route env req conf w)"

subsection \<open>The helper of the tests\<close>

definition root_config :: "string \<Rightarrow> server_config" where
  "root_config root =
     \<lparr>srv_host = ''127.0.0.1'', srv_port = 8080, srv_name = None, srv_max_body = 1024 * 1024,
      srv_error_pages = Map.empty,
      srv_locations =
        [\<lparr>loc_path = ''/'', loc_root = root, loc_index = Some ''index.html'', loc_methods = [],
          loc_autoindex = False, loc_redirect = None, loc_cgi = None\<rparr>]\<rparr>"

definition handle_with_root ::
    "environment \<Rightarrow> (bytes \<Rightarrow> 's \<Rightarrow> bool \<times> 's) \<Rightarrow> request \<Rightarrow> string \<Rightarrow> world \<Rightarrow> 's \<Rightarrow> ('s \<times> world) option" where
  "handle_with_root env write_all req root w stream =
     (case build_response env req (root_config root) w of
        None \<Rightarrow> None
      | Some (res, w') \<Rightarrow> Some (send write_all res stream, w'))"

end
