(* ===== verification/Server.thy ===== *)
theory Server
  imports Handler Config_Parser
begin

text \<open>
  The event loop of one listener thread (\<open>src/server.rs\<close>) over the kernel's readiness interface
  (\<open>src/epoll.rs\<close>). The state holds the three maps of \<open>Server::run\<close>, the interest list of the
  epoll instance, which descriptors are open, and the bytes each socket has accepted. What the
  kernel answers to \<open>accept\<close>, \<open>read\<close> and \<open>write\<close> is part of an event.
\<close>

section \<open>Model\<close>

type_synonym fd = nat

datatype interest = Readable | Writable

record server_state =
  sv_world :: world
  sv_read :: "fd \<rightharpoonup> bytes"
  sv_write :: "fd \<rightharpoonup> bytes"
  sv_times :: "fd \<rightharpoonup> instant"
  sv_watch :: "fd \<rightharpoonup> interest"
  sv_open :: "fd \<Rightarrow> bool"
  sv_sent :: "fd \<Rightarrow> bytes"

text \<open>How a call can end: normally, by an error that ends \<open>run\<close>, by a panic of the thread, or never.\<close>

datatype 'a outcome = Done 'a | Failed | Crashed | Blocked

fun outcome_bind :: "'a outcome \<Rightarrow> ('a \<Rightarrow> 'b outcome) \<Rightarrow> 'b outcome" where
  "outcome_bind (Done x) f = f x"
| "outcome_bind Failed f = Failed"
| "outcome_bind Crashed f = Crashed"
| "outcome_bind Blocked f = Blocked"

subsection \<open>Epoll and descriptors\<close>

text \<open>\<open>EPOLL_CTL_ADD\<close> fails on a registered descriptor, \<open>EPOLL_CTL_MOD\<close> on one that is not;
  closing a descriptor takes it off the interest list.\<close>

definition epoll_add :: "fd \<Rightarrow> server_state \<Rightarrow> server_state option" where
  "epoll_add fd st =
     (if sv_watch st fd = None then Some (st\<lparr>sv_watch := (sv_watch st)(fd \<mapsto> Readable)\<rparr>) else None)"

definition watch_write :: "fd \<Rightarrow> server_state \<Rightarrow> server_state" where
  "watch_write fd st =
     (if sv_watch st fd = None then st else st\<lparr>sv_watch := (sv_watch st)(fd \<mapsto> Writable)\<rparr>)"

definition watch_read :: "fd \<Rightarrow> server_state \<Rightarrow> server_state" where
  "watch_read fd st =
     (if sv_watch st fd = None then st else st\<lparr>sv_watch := (sv_watch st)(fd \<mapsto> Readable)\<rparr>)"

definition epoll_remove :: "fd \<Rightarrow> server_state \<Rightarrow> server_state" where
  "epoll_remove fd st = st\<lparr>sv_watch := (sv_watch st)(fd := None)\<rparr>"

definition close_fd :: "fd \<Rightarrow> server_state \<Rightarrow> server_state" where
  "close_fd fd st =
     st\<lparr>sv_open := (sv_open st)(fd := False), sv_watch := (sv_watch st)(fd := None)\<rparr>"

subsection \<open>Accepting\<close>

text \<open>An accepted descriptor, and whether it could be made non-blocking.\<close>

datatype accept_result = Accepted fd bool | Accept_would_block | Accept_error

text \<open>A stream that is not forgotten is closed when the error leaves the function.\<close>

fun accept_connections :: "instant \<Rightarrow> accept_result list \<Rightarrow> server_state \<Rightarrow> server_state outcome" where
  "accept_connections now [] st = Done st"
| "accept_connections now (Accept_would_block # rs) st = Done st"
| "accept_connections now (Accept_error # rs) st = Done st"
| "accept_connections now (Accepted fd nonblocking # rs) st =
     (if \<not> nonblocking then Failed
      else
        (case epoll_add fd (st\<lparr>sv_open := (sv_open st)(fd := True), sv_sent := (sv_sent st)(fd := [])\<rparr>) of
           None \<Rightarrow> Failed
         | Some st' \<Rightarrow>
             accept_connections now rs
               (st'\<lparr>sv_read := (sv_read st')(fd \<mapsto> []), sv_times := (sv_times st')(fd \<mapsto> now)\<rparr>)))"

subsection \<open>Reading\<close>

datatype read_result = Data bytes | Eof | Read_would_block | Read_error

datatype drain_end = Drained | Disconnected | Broken

fun drain :: "read_result list \<Rightarrow> bytes option \<Rightarrow> drain_end \<times> bytes option" where
  "drain [] b = (Drained, b)"
| "drain (Data d # rs) b = drain rs (map_option (\<lambda>x. x @ d) b)"
| "drain (Eof # rs) b = (Disconnected, b)"
| "drain (Read_would_block # rs) b = (Drained, b)"
| "drain (Read_error # rs) b = (Broken, b)"

definition match_config :: "server_config list \<Rightarrow> request \<Rightarrow> server_config exec" where
  "match_config configs req =
     (case configs of
        [] \<Rightarrow> Panic
      | first # _ \<Rightarrow>
          (let host = (case req_headers req ''host'' of
                         Some h \<Rightarrow> hd (split_on CHR '':'' h) | None \<Rightarrow> [])
           in Ret (case find (\<lambda>c. srv_name c = Some host) configs of Some c \<Rightarrow> c | None \<Rightarrow> first)))"

definition forget :: "fd \<Rightarrow> server_state \<Rightarrow> server_state" where
  "forget fd st =
     (epoll_remove fd st)\<lparr>sv_read := (sv_read st)(fd := None), sv_write := (sv_write st)(fd := None)\<rparr>"

definition respond :: "fd \<Rightarrow> response \<Rightarrow> server_state \<Rightarrow> server_state" where
  "respond fd res st =
     watch_write fd (st\<lparr>sv_write := (sv_write st)(fd \<mapsto> serialize_response res)\<rparr>)"

text \<open>The configuration whose body limit applies: that of the request's host, or the first.\<close>

definition limit_config :: "server_config list \<Rightarrow> bytes \<Rightarrow> server_config exec" where
  "limit_config configs data =
     exec_bind (parse_request data)
       (\<lambda>r. case r of
          Some req \<Rightarrow> match_config configs req
        | None \<Rightarrow> (case configs of [] \<Rightarrow> Panic | first # _ \<Rightarrow> Ret first))"

definition take_query :: "request \<Rightarrow> request" where
  "take_query req =
     (case split_once CHR ''?'' (req_path req) of
        Some (p, query) \<Rightarrow>
          req\<lparr>req_path := p, req_headers := (req_headers req)(''x-query-string'' \<mapsto> query)\<rparr>
      | None \<Rightarrow> req\<lparr>req_headers := (req_headers req)(''x-query-string'' \<mapsto> [])\<rparr>)"

definition answer :: "environment \<Rightarrow> server_config list \<Rightarrow> bytes \<Rightarrow> world \<Rightarrow> (response \<times> world) outcome" where
  "answer env configs data w =
     (case parse_request data of
        Panic \<Rightarrow> Crashed
      | Ret None \<Rightarrow> Done (error_page BadRequest, w)
      | Ret (Some r) \<Rightarrow>
          (let req = take_query r in
           case match_config configs req of
             Panic \<Rightarrow> Crashed
           | Ret conf \<Rightarrow>
               (case build_response env req conf w of
                  None \<Rightarrow> Blocked
                | Some (res, w') \<Rightarrow> Done (res, w'))))"

definition handle_read ::
    "environment \<Rightarrow> server_config list \<Rightarrow> fd \<Rightarrow> read_result list \<Rightarrow> server_state \<Rightarrow> server_state outcome" where
  "handle_read env configs fd rs st =
     (case drain rs (sv_read st fd) of
        (Disconnected, _) \<Rightarrow> Done (forget fd st)
      | (Broken, _) \<Rightarrow> Done (close_fd fd (forget fd st))
      | (Drained, None) \<Rightarrow> Done (st\<lparr>sv_read := (sv_read st)(fd := None)\<rparr>)
      | (Drained, Some data) \<Rightarrow>
          (case limit_config configs data of
             Panic \<Rightarrow> Crashed
           | Ret conf \<Rightarrow>
               if srv_max_body conf < length data
               then Done (respond fd (error_page ContentTooLarge)
                 (st\<lparr>sv_read := (sv_read st)(fd \<mapsto> data)\<rparr>))
               else
                 outcome_bind (answer env configs data (sv_world st))
                   (\<lambda>(res, w).
                      Done ((respond fd res (st\<lparr>sv_world := w\<rparr>))\<lparr>sv_read := (sv_read st)(fd := None)\<rparr>))))"

subsection \<open>Writing\<close>

datatype write_result = Wrote nat | Write_would_block | Write_failed

datatype write_end = Complete | Retry | Aborted

fun write_loop :: "write_result list \<Rightarrow> bytes \<Rightarrow> write_end \<times> bytes \<times> bytes" where
  "write_loop rs [] = (Complete, [], [])"
| "write_loop [] data = (Retry, [], data)"
| "write_loop (Write_would_block # rs) data = (Retry, [], data)"
| "write_loop (Write_failed # rs) data = (Aborted, [], data)"
| "write_loop (Wrote n # rs) data =
     (if n = 0 then (Aborted, [], data)
      else
        (case write_loop rs (drop n data) of (e, sent, left) \<Rightarrow> (e, take n data @ sent, left)))"

definition hang_up :: "fd \<Rightarrow> server_state \<Rightarrow> server_state" where
  "hang_up fd st = close_fd fd ((epoll_remove fd st)\<lparr>sv_write := (sv_write st)(fd := None)\<rparr>)"

definition handle_write :: "fd \<Rightarrow> write_result list \<Rightarrow> server_state \<Rightarrow> server_state" where
  "handle_write fd rs st =
     (case sv_write st fd of
        None \<Rightarrow> hang_up fd st
      | Some data \<Rightarrow>
          (case write_loop rs data of
             (e, sent, left) \<Rightarrow>
               (let st' = st\<lparr>sv_write := (sv_write st)(fd \<mapsto> left),
                             sv_sent := (sv_sent st)(fd := sv_sent st fd @ sent)\<rparr>
                in if e = Retry then st' else hang_up fd st')))"

subsection \<open>The loop\<close>

definition timeout_secs :: nat where
  "timeout_secs = 30"

definition timed_out :: "instant \<Rightarrow> server_state \<Rightarrow> fd \<Rightarrow> bool" where
  "timed_out now st fd =
     (case sv_times st fd of Some t \<Rightarrow> timeout_secs < (now - t) div secs | None \<Rightarrow> False)"

definition without :: "(fd \<Rightarrow> bool) \<Rightarrow> (fd \<rightharpoonup> 'a) \<Rightarrow> (fd \<rightharpoonup> 'a)" where
  "without P m = (\<lambda>fd. if P fd then None else m fd)"

definition close_timed_out :: "instant \<Rightarrow> server_state \<Rightarrow> server_state" where
  "close_timed_out now st =
     (let late = timed_out now st in
      st\<lparr>sv_watch := without late (sv_watch st), sv_read := without late (sv_read st),
         sv_write := without late (sv_write st), sv_times := without late (sv_times st),
         sv_open := (\<lambda>fd. sv_open st fd \<and> \<not> late fd)\<rparr>)"

record event =
  ev_fd :: fd
  ev_writable :: bool
  ev_now :: instant
  ev_accepts :: "accept_result list"
  ev_reads :: "read_result list"
  ev_writes :: "write_result list"
  ev_env :: environment

definition handle_event :: "server_config list \<Rightarrow> fd \<Rightarrow> event \<Rightarrow> server_state \<Rightarrow> server_state outcome" where
  "handle_event configs listener ev st =
     (if ev_fd ev = listener then accept_connections (ev_now ev) (ev_accepts ev) st
      else if ev_writable ev then
        Done ((handle_write (ev_fd ev) (ev_writes ev) st)
          \<lparr>sv_times := (sv_times st)(ev_fd ev := None)\<rparr>)
      else handle_read (ev_env ev) configs (ev_fd ev) (ev_reads ev) st)"

fun handle_events :: "server_config list \<Rightarrow> fd \<Rightarrow> event list \<Rightarrow> server_state \<Rightarrow> server_state outcome" where
  "handle_events configs listener [] st = Done st"
| "handle_events configs listener (ev # evs) st =
     outcome_bind (handle_event configs listener ev st) (handle_events configs listener evs)"

definition iteration :: "server_config list \<Rightarrow> fd \<Rightarrow> instant \<Rightarrow> event list \<Rightarrow> server_state \<Rightarrow> server_state outcome" where
  "iteration configs listener now evs st = handle_events configs listener evs (close_timed_out now st)"

definition start :: "fd \<Rightarrow> world \<Rightarrow> server_state" where
  "start listener w =
     \<lparr>sv_world = w, sv_read = Map.empty, sv_write = Map.empty, sv_times = Map.empty,
      sv_watch = [listener \<mapsto> Readable], sv_open = (\<lambda>fd. fd = listener), sv_sent = (\<lambda>_. [])\<rparr>"

text \<open>The loop of \<open>run\<close> as far as its first iterations go: what each call of \<open>epoll_wait\<close> returned.\<close>

datatype wait_result = Wait_failed | Ready instant "event list"

fun run_loop :: "server_config list \<Rightarrow> fd \<Rightarrow> wait_result list \<Rightarrow> server_state \<Rightarrow> server_state outcome" where
  "run_loop configs listener [] st = Done st"
| "run_loop configs listener (Wait_failed # rs) st = Failed"
| "run_loop configs listener (Ready now evs # rs) st =
     outcome_bind (iteration configs listener now evs st) (run_loop configs listener rs)"

text \<open>The start of \<open>run\<close>: the socket \<open>bind\<close> gave, and whether it could be made non-blocking, an epoll
  instance created and the socket registered.\<close>

record startup =
  su_bind :: "fd option"
  su_nonblocking :: bool
  su_epoll :: bool
  su_add :: bool

definition run_server :: "server_config list \<Rightarrow> startup \<Rightarrow> wait_result list \<Rightarrow> world \<Rightarrow> server_state outcome" where
  "run_server configs su rs w =
     (if configs = [] then Crashed
      else
        (case su_bind su of
           None \<Rightarrow> Failed
         | Some listener \<Rightarrow>
             if \<not> su_nonblocking su \<or> \<not> su_epoll su \<or> \<not> su_add su then Failed
             else run_loop configs listener rs (start listener w)))"

end
