(* ===== verification/Handler_Correct.thy ===== *)
theory Handler_Correct
  imports Handler Config_Parser
begin

text \<open>
  The correctness of the handlers: which location is chosen, what a request may change, uploads
  read back by downloads, the files a path can reach, redirects and the life of a login.
\<close>

section \<open>Locations\<close>

lemma foldl_longer_keeps:
  "\<forall>y \<in> set ys. length (loc_path y) < length (loc_path l) \<Longrightarrow> foldl longer (Some l) ys = Some l"
  by (induction ys) (auto simp: longer_def)

lemma foldl_longer_last:
  assumes "\<forall>x \<in> set xs. length (loc_path x) \<le> length (loc_path l)"
    and "\<And>b. best = Some b \<Longrightarrow> length (loc_path b) \<le> length (loc_path l)"
  shows "longer (foldl longer best xs) l = Some l"
  using assms
proof (induction xs arbitrary: best)
  case (Cons x xs)
  show ?case
    using Cons.prems by (simp, intro Cons.IH) (auto simp: longer_def split: option.splits if_splits)
qed (auto simp: longer_def split: option.splits)

lemma foldl_longer_split:
  "ls \<noteq> [] \<Longrightarrow> \<exists>xs l ys. ls = xs @ l # ys \<and> foldl longer None ls = Some l \<and>
     (\<forall>x \<in> set xs. length (loc_path x) \<le> length (loc_path l)) \<and>
     (\<forall>y \<in> set ys. length (loc_path y) < length (loc_path l))"
proof (induction ls rule: rev_induct)
  case (snoc z ls)
  show ?case
  proof (cases "ls = []")
    case True
    then show ?thesis by (intro exI [of _ "[]"] exI [of _ z]) (simp add: longer_def)
  next
    case False
    with snoc.IH obtain xs l ys where l: "ls = xs @ l # ys" "foldl longer None ls = Some l"
      "\<forall>x \<in> set xs. length (loc_path x) \<le> length (loc_path l)"
      "\<forall>y \<in> set ys. length (loc_path y) < length (loc_path l)"
      by blast
    have f: "foldl longer None (ls @ [z]) = longer (Some l) z"
      by (simp only: foldl_append l(2) foldl_Cons foldl_Nil)
    show ?thesis
    proof (cases "length (loc_path l) \<le> length (loc_path z)")
      case True
      then have "\<forall>x \<in> set ls. length (loc_path x) \<le> length (loc_path z)"
        using l(1,3,4) by (auto intro: order_trans less_imp_le)
      moreover have "foldl longer None (ls @ [z]) = Some z"
        unfolding f using True by (simp add: longer_def)
      ultimately show ?thesis
        by (rule_tac x = ls in exI, rule_tac x = z in exI, rule_tac x = "[]" in exI)
          (simp del: foldl_append)
    next
      case False
      then have "foldl longer None (ls @ [z]) = Some l"
        unfolding f by (simp add: longer_def)
      with l False show ?thesis
        by (rule_tac x = xs in exI, rule_tac x = l in exI, rule_tac x = "ys @ [z]" in exI)
          (simp del: foldl_append)
    qed
  qed
qed simp

section \<open>Responses of the handlers\<close>

lemma error_response_status [simp]: "rsp_status (error_response fl fs s conf) = s"
  by (cases s) (auto simp: error_response_def error_page_def new_response_def split: option.split)

lemma new_response_simps [simp]:
  "rsp_status (new_response s ct b) = s" "rsp_body (new_response s ct b) = b"
  "rsp_content_type (new_response s ct b) = ct" "rsp_redirect (new_response s ct b) = None"
  "rsp_cookies (new_response s ct b) = []"
  by (simp_all add: new_response_def)

lemma handle_post_ok:
  assumes "handle_post fl req root conf fs = (res, fs')" "rsp_status res = StatusOk"
  obtains fs1 where "adds_dirs fs fs1" "write_file fl (root @ req_path req) (req_body req) fs1 = (True, fs')"
proof -
  let ?p = "root @ req_path req"
  define made where "made = (case path_parent ?p of None \<Rightarrow> (True, fs) | Some q \<Rightarrow> create_dir_all fl q fs)"
  obtain ok fs1 where m: "made = (ok, fs1)" by fastforce
  then have d: "adds_dirs fs fs1"
    using adds_dirs_create by (auto simp: made_def split: option.splits)
  from assms m have "ok" "write_file fl ?p (req_body req) fs1 = (True, fs')"
    by (auto simp: handle_post_def Let_def simp flip: made_def split: if_splits bool.splits prod.splits)
  with d show thesis using that by blast
qed

lemma handle_delete_ok:
  assumes "handle_delete fl req root conf fs = (res, fs')" "rsp_status res = StatusOk"
  shows "remove_file fl (root @ req_path req) fs = (True, fs')"
  using assms by (auto simp: handle_delete_def split: bool.splits prod.splits)

text \<open>A request that is neither redirected nor for a session route goes to its location.\<close>

definition routed :: "http_method \<Rightarrow> request \<Rightarrow> server_config \<Rightarrow> location \<Rightarrow> bool" where
  "routed m req conf loc \<longleftrightarrow>
     req_method req = m \<and> req_path req \<notin> {''/login'', ''/logout'', ''/whoami''} \<and>
     match_location (req_path req) conf = Some loc \<and> loc_redirect loc = None \<and>
     is_method_allowed m loc \<and> find_cgi (req_path req) loc = None"

lemma routed_response:
  "routed Get req conf loc \<Longrightarrow> build_response env req conf w =
     Some (serve_file (env_faults env) (w_files w) (req_path req) (loc_root loc) conf, w)"
  "routed Post req conf loc \<Longrightarrow> build_response env req conf w =
     (case handle_post (env_faults env) req (loc_root loc) conf (w_files w) of
        (res, fs) \<Rightarrow> Some (res, w\<lparr>w_files := fs\<rparr>))"
  "routed Delete req conf loc \<Longrightarrow> build_response env req conf w =
     (case handle_delete (env_faults env) req (loc_root loc) conf (w_files w) of
        (res, fs) \<Rightarrow> Some (res, w\<lparr>w_files := fs\<rparr>))"
  by (auto simp: routed_def build_response_def redirect_of_def handle_with_route_def Let_def)

lemma serve_existing_file:
  assumes "resolve fs (root @ p) = Inr l" "lookup fs l = Some (File d)"
    and "\<not> denied fl Op_metadata (root @ p)" "\<not> denied fl Op_read (root @ p)"
  shows "serve_file fl fs p root conf = new_response StatusOk (get_content_type p) d"
  using assms by (simp add: serve_file_def Let_def metadata_def read_file_def)

lemma serve_missing_file:
  assumes "resolve fs (root @ p) = Inr l" "lookup fs l = None"
  shows "serve_file fl fs p root conf = error_response fl fs NotFound conf"
proof -
  have "trim_end_matches CHR ''/'' p = p \<or> (\<exists>q. p = q @ ''/'')"
    by (cases p rule: rev_cases) (auto simp: trim_end_matches_def)
  moreover have False if "p = q @ ''/''" for q
  proof (cases "root @ q = []")
    case True
    with assms that show False by (simp add: resolve_def walk_step lookup_def del: walk.simps(2))
  next
    case False
    with assms that resolve_slash [of "root @ q" fs l] show False by simp
  qed
  ultimately have "trim_end_matches CHR ''/'' p = p" by blast
  with assms show ?thesis by (simp add: serve_file_def Let_def metadata_def)
qed

section \<open>A small server\<close>

text \<open>A configuration, an environment and a world that the instances of the properties use.\<close>

definition example_location :: location where
  "example_location =
     (empty_location ''/'')\<lparr>loc_root := ''www'', loc_methods := [CGet, CPost, CDelete]\<rparr>"

definition example_config :: server_config where
  "example_config =
     \<lparr>srv_host = ''h'', srv_port = 80, srv_name = None, srv_max_body = 1000,
      srv_error_pages = Map.empty,
      srv_locations = [example_location, (empty_location ''/old'')\<lparr>loc_redirect := Some ''/new''\<rparr>]\<rparr>"

definition example_env :: environment where
  "example_env =
     \<lparr>env_faults = no_faults, env_now = 100, env_nanos = 5, env_pid = 7, env_jitter = (\<lambda>_. 0),
      env_spawn = (\<lambda>_ _. None), env_effect = (\<lambda>_ _ fs. fs)\<rparr>"

definition example_files :: file_system where
  "example_files =
     \<lparr>fs_entries = [([''srv''], Directory), ([''srv'', ''www''], Directory), ([''srv'', ''key''], File ''secret''),
        ([''srv'', ''www'', ''a.txt''], File ''hello'')],
      fs_cwd = [''srv'']\<rparr>"

definition example_world :: world where
  "example_world = \<lparr>w_files = example_files, w_sessions = new_store\<rparr>"

definition example_request :: "http_method \<Rightarrow> string \<Rightarrow> bytes \<Rightarrow> request" where
  "example_request m p body =
     \<lparr>req_method = m, req_path = p, req_version = ''HTTP/1.1'', req_headers = Map.empty, req_body = body\<rparr>"

lemmas example_defs =
  example_location_def example_config_def example_env_def example_files_def example_world_def
  example_request_def empty_location_def no_faults_def

lemma example_routed:
  "m \<in> {Get, Post, Delete} \<Longrightarrow> prefix ''/'' p \<Longrightarrow> \<not> prefix ''/old'' p \<Longrightarrow>
   p \<notin> {''/login'', ''/logout'', ''/whoami''} \<Longrightarrow>
   routed m (example_request m p body) example_config example_location"
  by (auto simp: routed_def example_defs match_location_def longer_def is_method_allowed_def find_cgi_def)

lemma example_upload:
  "build_response example_env (example_request Post ''/d/b.css'' ''x{}'') example_config example_world =
     Some (new_response StatusOk ''text/html'' ''<html><body><h1>Uploaded to /d/b.css</h1></body></html>'',
       example_world\<lparr>w_files := example_files\<lparr>fs_entries := fs_entries example_files @
         [([''srv'', ''www'', ''d''], Directory), ([''srv'', ''www'', ''d'', ''b.css''], File ''x{}'')]\<rparr>\<rparr>)"
proof -
  have "path_parent ''www/d/b.css'' = Some ''www/d''"
    by code_simp
  moreover have "create_dir_all no_faults ''www/d'' example_files =
      (True, example_files\<lparr>fs_entries := fs_entries example_files @ [([''srv'', ''www'', ''d''], Directory)]\<rparr>)"
    by code_simp
  moreover have "write_file no_faults ''www/d/b.css'' ''x{}'' (example_files\<lparr>fs_entries := fs_entries example_files @ [([''srv'', ''www'', ''d''], Directory)]\<rparr>) = 
      (True, example_files\<lparr>fs_entries := fs_entries example_files @
         [([''srv'', ''www'', ''d''], Directory), ([''srv'', ''www'', ''d'', ''b.css''], File ''x{}'')]\<rparr>)"
    by code_simp
  ultimately show ?thesis
    by (subst routed_response(2) [OF example_routed])
      (simp_all add: handle_post_def Let_def example_defs)
qed

section \<open>Properties\<close>

text \<open>
  C25: the location of a path is the one whose path is its longest prefix, the last of them if the
  configuration repeats it; no location is found exactly when none is a prefix.
\<close>

theorem match_location_spec:
  "(match_location p conf = None \<longleftrightarrow> (\<forall>loc \<in> set (srv_locations conf). \<not> prefix (loc_path loc) p)) \<and>
   (match_location p conf = Some l \<longleftrightarrow>
     (\<exists>xs ys. filter (\<lambda>loc. prefix (loc_path loc) p) (srv_locations conf) = xs @ l # ys \<and>
       (\<forall>x \<in> set xs. length (loc_path x) \<le> length (loc_path l)) \<and>
       (\<forall>y \<in> set ys. length (loc_path y) < length (loc_path l))))"
proof -
  let ?ls = "filter (\<lambda>loc. prefix (loc_path loc) p) (srv_locations conf)"
  have "foldl longer None ?ls = None \<longleftrightarrow> ?ls = []"
    using foldl_longer_split [of ?ls] by (cases "?ls = []") auto
  moreover have "foldl longer None ?ls = Some l" if "?ls = xs @ l # ys"
    "\<forall>x \<in> set xs. length (loc_path x) \<le> length (loc_path l)"
    "\<forall>y \<in> set ys. length (loc_path y) < length (loc_path l)" for xs ys
    using foldl_longer_last [OF that(2), of None] foldl_longer_keeps [OF that(3)] by (simp add: that(1))
  moreover have "\<exists>xs ys. ?ls = xs @ l # ys \<and> (\<forall>x \<in> set xs. length (loc_path x) \<le> length (loc_path l)) \<and>
      (\<forall>y \<in> set ys. length (loc_path y) < length (loc_path l))" if "foldl longer None ?ls = Some l"
    using foldl_longer_split [of ?ls] that by (cases "?ls = []") auto
  ultimately show ?thesis
    unfolding match_location_def by (auto simp: filter_empty_conv)
qed

theorem match_location_spec_witness:
  "match_location ''/img/a.png''
     \<lparr>srv_host = ''h'', srv_port = 80, srv_name = None, srv_max_body = 1, srv_error_pages = Map.empty,
      srv_locations = [(empty_location ''/img'')\<lparr>loc_root := ''a''\<rparr>, empty_location ''/'',
        (empty_location ''/img'')\<lparr>loc_root := ''b''\<rparr>]\<rparr> = Some ((empty_location ''/img'')\<lparr>loc_root := ''b''\<rparr>)"
proof -
  let ?conf = "\<lparr>srv_host = ''h'', srv_port = 80, srv_name = None, srv_max_body = 1, srv_error_pages = Map.empty,
      srv_locations = [(empty_location ''/img'')\<lparr>loc_root := ''a''\<rparr>, empty_location ''/'',
        (empty_location ''/img'')\<lparr>loc_root := ''b''\<rparr>]\<rparr>"
  show ?thesis
    by (rule match_location_spec [THEN conjunct2, THEN iffD2],
        rule exI [of _ "[(empty_location ''/img'')\<lparr>loc_root := ''a''\<rparr>, empty_location ''/'']"], rule exI [of _ "[]"])
      (simp add: empty_location_def)
qed

text \<open>
  C10: a file that was uploaded with status 200 is served by the next GET of the same path: the
  body of the upload, with the content type of the path's extension, and nothing changes.
\<close>

theorem upload_then_download:
  assumes "routed Post post conf loc" "routed Get dl conf loc" "req_path dl = req_path post"
    and "build_response env post conf w = Some (res, w1)" "rsp_status res = StatusOk"
    and "\<not> denied (env_faults env2) Op_metadata (loc_root loc @ req_path post)"
    and "\<not> denied (env_faults env2) Op_read (loc_root loc @ req_path post)"
  shows "build_response env2 dl conf w1 =
    Some (new_response StatusOk (get_content_type (req_path post)) (req_body post), w1)"
proof -
  obtain fs where h: "handle_post (env_faults env) post (loc_root loc) conf (w_files w) = (res, fs)"
    and w1: "w1 = w\<lparr>w_files := fs\<rparr>"
    using assms(4) by (auto simp: routed_response(2) [OF assms(1)] split: prod.splits)
  from handle_post_ok [OF h assms(5)] obtain fs1
    where wr: "write_file (env_faults env) (loc_root loc @ req_path post) (req_body post) fs1 = (True, fs)" .
  from write_file_True [OF wr] obtain l where l: "resolve fs1 (loc_root loc @ req_path post) = Inr l" "l \<noteq> []"
    "lookup fs1 l \<noteq> Some Directory" "fs = put_entry fs1 l (File (req_body post))" .
  have "resolve fs (loc_root loc @ req_path post) = Inr l"
    using l resolve_same_dirs [OF same_dirs_put [OF l(2,3)]] by simp
  moreover have "lookup fs l = Some (File (req_body post))"
    using l(2,4) by (simp add: lookup_put)
  ultimately show ?thesis
    using serve_existing_file [of fs "loc_root loc" "req_path post" l, OF _ _ assms(6,7)]
    by (simp add: routed_response(1) [OF assms(2)] assms(3) w1)
qed

theorem upload_then_download_witness:
  "\<exists>res w1. build_response example_env (example_request Post ''/d/b.css'' ''x{}'') example_config example_world = Some (res, w1) \<and>
     build_response example_env (example_request Get ''/d/b.css'' []) example_config w1 =
       Some (new_response StatusOk ''text/css'' ''x{}'', w1)"
proof (intro exI conjI)
  show "build_response example_env (example_request Post ''/d/b.css'' ''x{}'') example_config example_world =
      Some (new_response StatusOk ''text/html'' ''<html><body><h1>Uploaded to /d/b.css</h1></body></html>'',
       example_world\<lparr>w_files := example_files\<lparr>fs_entries := fs_entries example_files @
         [([''srv'', ''www'', ''d''], Directory), ([''srv'', ''www'', ''d'', ''b.css''], File ''x{}'')]\<rparr>\<rparr>)"
    by (rule example_upload)
  from upload_then_download [where ?env2.0 = example_env,
      OF example_routed example_routed [of Get "''/d/b.css''" "[]"] _ this]
  show "build_response example_env (example_request Get ''/d/b.css'' []) example_config
      (example_world\<lparr>w_files := example_files\<lparr>fs_entries := fs_entries example_files @
         [([''srv'', ''www'', ''d''], Directory), ([''srv'', ''www'', ''d'', ''b.css''], File ''x{}'')]\<rparr>\<rparr>) =
      Some (new_response StatusOk ''text/css'' ''x{}'',
       example_world\<lparr>w_files := example_files\<lparr>fs_entries := fs_entries example_files @
         [([''srv'', ''www'', ''d''], Directory), ([''srv'', ''www'', ''d'', ''b.css''], File ''x{}'')]\<rparr>\<rparr>)"
    by (simp add: example_env_def no_faults_def example_request_def get_content_type_def suffix_def)
qed

text \<open>
  After a DELETE that was answered with status 200 a GET of the same path is answered with the
  404 page.
\<close>

lemma delete_then_download:
  assumes "routed Delete del conf loc" "routed Get dl conf loc" "req_path dl = req_path del"
    and "build_response env del conf w = Some (res, w1)" "rsp_status res = StatusOk"
  shows "build_response env2 dl conf w1 =
    Some (error_response (env_faults env2) (w_files w1) NotFound conf, w1)"
proof -
  obtain fs where h: "handle_delete (env_faults env) del (loc_root loc) conf (w_files w) = (res, fs)"
    and w1: "w1 = w\<lparr>w_files := fs\<rparr>"
    using assms(4) by (auto simp: routed_response(3) [OF assms(1)] split: prod.splits)
  from remove_file_True [OF handle_delete_ok [OF h assms(5)]] obtain l d
    where l: "resolve (w_files w) (loc_root loc @ req_path del) = Inr l" "l \<noteq> []"
      "lookup (w_files w) l = Some (File d)"
      "fs = (w_files w)\<lparr>fs_entries := AList.delete l (fs_entries (w_files w))\<rparr>" .
  have "resolve fs (loc_root loc @ req_path del) = Inr l"
    using l resolve_same_dirs [OF same_dirs_delete [of "w_files w" l]] by simp
  moreover have "lookup fs l = None"
    using l(2,4) by (simp add: lookup_delete)
  ultimately show ?thesis
    using serve_missing_file [of fs "loc_root loc" "req_path del" l]
    by (simp add: routed_response(1) [OF assms(2)] assms(3) w1)
qed

lemma delete_then_download_instance:
  "\<exists>res w1. build_response example_env (example_request Delete ''/a.txt'' []) example_config example_world = Some (res, w1) \<and>
     build_response example_env (example_request Get ''/a.txt'' []) example_config w1 =
       Some (error_page NotFound, w1)"
proof -
  have "remove_file no_faults ''www/a.txt'' example_files =
      (True, example_files\<lparr>fs_entries := butlast (fs_entries example_files)\<rparr>)"
    by code_simp
  then have d: "build_response example_env (example_request Delete ''/a.txt'' []) example_config example_world =
      Some (new_response StatusOk ''text/html'' ''<html><body><h1>Deleted /a.txt</h1></body></html>'',
        example_world\<lparr>w_files := example_files\<lparr>fs_entries := butlast (fs_entries example_files)\<rparr>\<rparr>)"
    by (subst routed_response(3) [OF example_routed])
      (simp_all add: handle_delete_def example_defs)
  from delete_then_download [where ?env2.0 = example_env,
      OF example_routed example_routed [of Get "''/a.txt''" "[]"] _ this]
  have "build_response example_env (example_request Get ''/a.txt'' []) example_config
        (example_world\<lparr>w_files := example_files\<lparr>fs_entries := butlast (fs_entries example_files)\<rparr>\<rparr>) =
      Some (error_page NotFound,
        example_world\<lparr>w_files := example_files\<lparr>fs_entries := butlast (fs_entries example_files)\<rparr>\<rparr>)"
    by (simp add: example_request_def error_response_def example_config_def)
  with d show ?thesis by blast
qed

text \<open>
  C12: files change only where the location of the path allows it. If a response comes with changed
  files, the path is not redirected and its location allows the method, which is POST or DELETE
  unless a script was run.
\<close>

theorem files_change_only_where_allowed:
  assumes "build_response env req conf w = Some (res, w1)" "w_files w1 \<noteq> w_files w"
  shows "\<exists>loc. match_location (req_path req) conf = Some loc \<and> loc_redirect loc = None \<and>
    is_method_allowed (req_method req) loc \<and>
    (req_method req \<in> {Post, Delete} \<or> find_cgi (req_path req) loc \<noteq> None)"
proof -
  have "redirect_of req conf = None" "handle_with_route env req conf w = Some (res, w1)"
    using assms by (auto simp: build_response_def split: option.splits if_splits prod.splits)
  then show ?thesis
    using assms(2)
    by (auto simp: handle_with_route_def redirect_of_def Let_def
        split: option.splits if_splits prod.splits)
qed

theorem files_change_only_where_allowed_witness:
  "\<exists>loc. match_location (req_path (example_request Post ''/d/b.css'' ''x{}'')) example_config = Some loc \<and>
    loc_redirect loc = None \<and>
    is_method_allowed (req_method (example_request Post ''/d/b.css'' ''x{}'')) loc \<and>
    (req_method (example_request Post ''/d/b.css'' ''x{}'') \<in> {Post, Delete} \<or>
     find_cgi (req_path (example_request Post ''/d/b.css'' ''x{}'')) loc \<noteq> None)"
  by (rule files_change_only_where_allowed [OF example_upload])
    (simp add: example_world_def example_files_def)





text \<open>
  C35: nothing normalizes a path before it is joined to the root. A GET of \<open>/../name\<close> is answered with
  the file \<open>name\<close> next to the root directory, a file that is not below the root.
\<close>

theorem path_escapes_root:
  assumes "routed Get req conf loc" "req_path req = ''/../'' @ name"
    and "name \<notin> {[], ''.'', ''..''}" "CHR ''/'' \<notin> set name" "CHR 0x00 \<notin> set name"
    and "resolve (w_files w) (loc_root loc) = Inr r" "lookup (w_files w) r = Some Directory"
    and "lookup (w_files w) (butlast r) = Some Directory" "r \<noteq> []" "last r \<noteq> name"
    and "lookup (w_files w) (butlast r @ [name]) = Some (File d)" "env_faults env = no_faults"
  shows "build_response env req conf w =
      Some (new_response StatusOk (get_content_type (req_path req)) d, w) \<and>
    \<not> prefix r (butlast r @ [name])"
proof
  have root: "loc_root loc \<noteq> []"
    using assms(6) by (auto simp: resolve_def)
  have "split_on CHR ''/'' (''..'' @ CHR ''/'' # name) = [''..'', name]"
    by (subst split_on_append) (simp_all add: split_on_single assms(4))
  then have "resolve (w_files w) (loc_root loc @ req_path req) = Inr (butlast r @ [name])"
    using resolve_append [OF root, of "w_files w" "''..'' @ CHR ''/'' # name"] assms(3,5-8)
    by (simp add: assms(2))
  from serve_existing_file [OF this assms(11)]
  show "build_response env req conf w = Some (new_response StatusOk (get_content_type (req_path req)) d, w)"
    by (simp add: routed_response(1) [OF assms(1)] assms(12) no_faults_def)
  show "\<not> prefix r (butlast r @ [name])"
  proof
    assume "prefix r (butlast r @ [name])"
    then obtain zs where zs: "butlast r @ [name] = r @ zs"
      by (auto simp: prefix_def)
    then have "length (butlast r @ [name]) = length (r @ zs)"
      by (rule arg_cong)
    then have "zs = []"
      using assms(9) by (cases "length r") simp_all
    with zs have "r = butlast r @ [name]" by simp
    with assms(10) show False by (metis last_snoc)
  qed
qed

theorem path_escapes_root_witness:
  "build_response example_env (example_request Get ''/../key'' []) example_config example_world =
     Some (new_response StatusOk ''application/octet-stream'' ''secret'', example_world) \<and>
   \<not> prefix [''srv'', ''www''] [''srv'', ''key'']"
  using path_escapes_root [OF example_routed [of Get "''/../key''" "[]"], where name = "''key''"
      and w = example_world and r = "[''srv'', ''www'']" and d = "''secret''" and env = example_env]
  by (simp add: example_defs resolve_def lookup_def get_content_type_def suffix_def)

end
