(* ===== verification/Server_Correct.thy ===== *)
theory Server_Correct
  imports Server Handler_Correct
begin

text \<open>
  The correctness of the event loop: the invariant of its reachable states, the choice of the
  virtual host, the answer to a complete, a partial and an oversized request, the delivery of a
  response by partial writes, and the time limit on connections.
\<close>

section \<open>Steps and reachable states\<close>

text \<open>A read from a descriptor that is not open fails.\<close>

definition kernel_ok :: "event \<Rightarrow> server_state \<Rightarrow> bool" where
  "kernel_ok ev st \<longleftrightarrow> (sv_open st (ev_fd ev) \<or> (\<exists>rs. ev_reads ev = Read_error # rs))"

inductive server_step :: "server_config list \<Rightarrow> fd \<Rightarrow> server_state \<Rightarrow> server_state \<Rightarrow> bool"
  for configs :: "server_config list" and listener :: fd where
  step_tick: "server_step configs listener st (close_timed_out now st)"
| step_event: "kernel_ok ev st \<Longrightarrow> handle_event configs listener ev st = Done st' \<Longrightarrow>
    server_step configs listener st st'"

inductive_cases server_stepE: "server_step configs listener st st'"

abbreviation reaches :: "server_config list \<Rightarrow> fd \<Rightarrow> server_state \<Rightarrow> server_state \<Rightarrow> bool" where
  "reaches configs listener \<equiv> (server_step configs listener)\<^sup>*\<^sup>*"

definition server_inv :: "fd \<Rightarrow> server_state \<Rightarrow> bool" where
  "server_inv listener st \<longleftrightarrow>
     (\<forall>fd. sv_watch st fd \<noteq> None \<longrightarrow> sv_open st fd) \<and>
     (\<forall>fd. sv_write st fd \<noteq> None \<longrightarrow> sv_open st fd) \<and>
     (\<forall>fd. fd \<noteq> listener \<and> sv_watch st fd = Some Writable \<longrightarrow> sv_write st fd \<noteq> None) \<and>
     (\<forall>fd. fd \<noteq> listener \<and> sv_watch st fd = Some Readable \<longrightarrow> sv_read st fd \<noteq> None) \<and>
     sv_watch st listener = Some Readable \<and> sv_times st listener = None"

lemmas state_defs =
  epoll_add_def watch_write_def epoll_remove_def close_fd_def forget_def respond_def hang_up_def

lemma inv_start: "server_inv listener (start listener w)"
  by (simp add: server_inv_def start_def)

lemma inv_tick: "server_inv listener st \<Longrightarrow> server_inv listener (close_timed_out now st)"
  by (auto simp: server_inv_def close_timed_out_def without_def timed_out_def Let_def)

lemma inv_accept:
  "accept_connections now rs st = Done st' \<Longrightarrow> server_inv listener st \<Longrightarrow> server_inv listener st'"
proof (induction now rs st rule: accept_connections.induct)
  case (4 now fd nonblocking rs st)
  let ?st1 = "st\<lparr>sv_open := (sv_open st)(fd := True), sv_sent := (sv_sent st)(fd := [])\<rparr>"
  from "4.prems"(1) have nb: nonblocking and n: "sv_watch st fd = None"
    by (auto simp: epoll_add_def split: if_splits)
  let ?st2 = "?st1\<lparr>sv_watch := (sv_watch st)(fd \<mapsto> Readable)\<rparr>"
  let ?st3 = "?st2\<lparr>sv_read := (sv_read st)(fd \<mapsto> []), sv_times := (sv_times st)(fd \<mapsto> now)\<rparr>"
  have add: "epoll_add fd ?st1 = Some ?st2" using n by (simp add: epoll_add_def)
  from "4.prems"(2) n have "server_inv listener ?st3"
    by (auto simp: server_inv_def)
  moreover from "4.prems"(1) nb add have "accept_connections now rs ?st3 = Done st'" by simp
  ultimately show ?case using "4.IH" [of ?st2] nb add by simp
qed simp_all

lemma drain_option: "drain rs b = (e, b') \<Longrightarrow> b' = None \<longleftrightarrow> b = None"
  by (induction rs b rule: drain.induct) auto

lemma inv_respond:
  "server_inv listener st \<Longrightarrow> sv_open st fd \<Longrightarrow> fd \<noteq> listener \<Longrightarrow>
   server_inv listener ((respond fd res (st\<lparr>sv_world := w\<rparr>))\<lparr>sv_read := (sv_read st)(fd := b)\<rparr>)"
  by (auto simp: server_inv_def respond_def watch_write_def)

lemma inv_respond_kept:
  "server_inv listener st \<Longrightarrow> sv_open st fd \<Longrightarrow> fd \<noteq> listener \<Longrightarrow>
   server_inv listener (respond fd res (st\<lparr>sv_read := (sv_read st)(fd := b)\<rparr>))"
  by (auto simp: server_inv_def respond_def watch_write_def)

lemma inv_forget:
  "server_inv listener st \<Longrightarrow> fd \<noteq> listener \<Longrightarrow> server_inv listener (forget fd st)"
  "server_inv listener st \<Longrightarrow> fd \<noteq> listener \<Longrightarrow> server_inv listener (close_fd fd (forget fd st))"
  by (simp_all add: server_inv_def state_defs)

lemma inv_read:
  assumes "handle_read env configs fd rs st = Done st'" "server_inv listener st" "fd \<noteq> listener"
    and "sv_open st fd \<or> (\<exists>rs'. rs = Read_error # rs')"
  shows "server_inv listener st'"
proof -
  obtain e b where d: "drain rs (sv_read st fd) = (e, b)" by fastforce
  consider "e = Disconnected" | "e = Broken" | "e = Drained" "b = None" | data where "e = Drained" "b = Some data"
    by (cases e; cases b) auto
  then show ?thesis
  proof cases
    case 3
    then have "sv_read st fd = None"
      using drain_option [OF d] by simp
    then have "st' = st"
      using assms(1) d 3 by (simp add: handle_read_def fun_upd_idem)
    with assms(2) show ?thesis by simp
  next
    case 4
    then have op: "sv_open st fd" using assms(4) d by auto
    from 4 d assms(1) obtain conf where "limit_config configs data = Ret conf"
      by (auto simp: handle_read_def split: exec.splits)
    with 4 d assms(1) show ?thesis
      using inv_respond [OF assms(2) op assms(3)] inv_respond_kept [OF assms(2) op assms(3)]
      by (cases "answer env configs data (sv_world st)") (auto simp: handle_read_def split: if_splits)
  qed (use assms(1) d inv_forget [OF assms(2,3)] in \<open>auto simp: handle_read_def\<close>)
qed

lemma inv_write:
  "server_inv listener st \<Longrightarrow> fd \<noteq> listener \<Longrightarrow> server_inv listener (handle_write fd rs st)"
  by (auto simp: server_inv_def handle_write_def state_defs Let_def split: option.splits prod.splits)

lemma inv_event:
  assumes "handle_event configs listener ev st = Done st'" "server_inv listener st" "kernel_ok ev st"
  shows "server_inv listener st'"
proof -
  consider "ev_fd ev = listener" | "ev_fd ev \<noteq> listener" "ev_writable ev" | "ev_fd ev \<noteq> listener" "\<not> ev_writable ev"
    by blast
  then show ?thesis
  proof cases
    case 1
    with assms(1,2) inv_accept show ?thesis by (auto simp: handle_event_def)
  next
    case 2
    have "server_inv listener (s\<lparr>sv_times := (sv_times st)(ev_fd ev := None)\<rparr>)"
      if "server_inv listener s" for s
      using that assms(2) 2 by (auto simp: server_inv_def)
    with 2 inv_write [OF assms(2)] assms(1) show ?thesis by (auto simp: handle_event_def)
  next
    case 3
    with assms inv_read show ?thesis by (auto simp: handle_event_def kernel_ok_def)
  qed
qed

section \<open>Reading and writing\<close>

lemma drain_data:
  "drain (map Data ds @ [Read_would_block]) (Some b) = (Drained, Some (b @ concat ds))"
  by (induction ds arbitrary: b) simp_all

lemma take_query_host: "match_config configs (take_query req) = match_config configs req"
  by (simp add: match_config_def take_query_def split: option.split prod.split)

lemma respond_simps [simp]:
  "sv_write (respond fd res st) = (sv_write st)(fd \<mapsto> serialize_response res)"
  "sv_read (respond fd res st) = sv_read st" "sv_world (respond fd res st) = sv_world st"
  "sv_times (respond fd res st) = sv_times st" "sv_open (respond fd res st) = sv_open st"
  "sv_sent (respond fd res st) = sv_sent st"
  by (simp_all add: respond_def watch_write_def)


lemma write_loop_Wrote:
  "data \<noteq> [] \<Longrightarrow> 0 < n \<Longrightarrow> write_loop (Wrote n # rs) data =
     (case write_loop rs (drop n data) of (e, sent, left) \<Rightarrow> (e, take n data @ sent, left))"
  by (cases data) simp_all


lemma handle_write_world [simp]: "sv_world (handle_write fd rs st) = sv_world st"
  by (simp add: handle_write_def Let_def state_defs split: option.split prod.split)




text \<open>
  A complete request that has arrived in any number of pieces, within the limit of its virtual
  host, is answered by the handlers of that host, with the query split off its path: the
  serialized response is pending, the connection is watched for writing if it was watched, its
  read buffer is gone, and no other connection is touched.
\<close>

lemma serve_request:
  assumes "sv_read st fd = Some old" "parse_request (old @ concat ds) = Ret (Some req)"
    and "match_config configs req = Ret conf" "length (old @ concat ds) \<le> srv_max_body conf"
    and "build_response env (take_query req) conf (sv_world st) = Some (res, w)"
  shows "\<exists>st'. handle_read env configs fd (map Data ds @ [Read_would_block]) st = Done st' \<and>
    sv_write st' = (sv_write st)(fd \<mapsto> serialize_response res) \<and>
    sv_read st' = (sv_read st)(fd := None) \<and> sv_world st' = w \<and>
    sv_watch st' = (if sv_watch st fd = None then sv_watch st else (sv_watch st)(fd \<mapsto> Writable)) \<and>
    sv_open st' = sv_open st \<and> sv_times st' = sv_times st \<and> sv_sent st' = sv_sent st"
proof -
  have "limit_config configs (old @ concat ds) = Ret conf"
    by (simp add: limit_config_def assms(2,3))
  moreover have "answer env configs (old @ concat ds) (sv_world st) = Done (res, w)"
    by (simp add: answer_def assms(2,3,5) take_query_host)
  ultimately show ?thesis
    using assms(1,4) by (simp add: handle_read_def drain_data) (simp add: respond_def watch_write_def)
qed

section \<open>A small run\<close>

text \<open>The small server with one connection, descriptor 5, and a request it sends.\<close>

definition example_state :: "bytes \<Rightarrow> server_state" where
  "example_state data =
     (start 3 example_world)\<lparr>sv_read := [5 \<mapsto> data], sv_times := [5 \<mapsto> 0],
        sv_watch := [3 \<mapsto> Readable, 5 \<mapsto> Readable], sv_open := (\<lambda>fd. fd = 3 \<or> fd = 5)\<rparr>"

definition example_event :: event where
  "example_event =
     \<lparr>ev_fd = 3, ev_writable = False, ev_now = 0, ev_accepts = [Accepted 5 True, Accept_would_block],
      ev_reads = [], ev_writes = [], ev_env = example_env\<rparr>"

definition example_get :: request where
  "example_get =
     \<lparr>req_method = Get, req_path = ''/a.txt?x=1'', req_version = ''HTTP/1.1'',
      req_headers = [''host'' \<mapsto> ''h:80''], req_body = []\<rparr>"

definition example_bytes :: bytes where
  "example_bytes = render_request ''GET'' ''/a.txt?x=1'' ''HTTP/1.1'' [(''Host'', ''h:80'')] []"

lemma example_parse: "parse_request example_bytes = Ret (Some example_get)"
  unfolding example_bytes_def example_get_def
  by (subst parse_request_head) (simp_all add: request_eval)

lemma example_match: "match_config [example_config] example_get = Ret example_config"
  by (simp add: match_config_def example_get_def example_config_def)

lemma example_served:
  "build_response example_env (take_query example_get) example_config example_world =
     Some (new_response StatusOk ''text/plain'' ''hello'', example_world)"
proof -
  have q: "req_path (take_query example_get) = ''/a.txt''" "req_method (take_query example_get) = Get"
    by (simp_all add: take_query_def example_get_def)
  then have "routed Get (take_query example_get) example_config example_location"
    by (simp add: routed_def example_defs match_location_def longer_def is_method_allowed_def find_cgi_def)
  moreover have "serve_file no_faults example_files ''/a.txt'' ''www'' example_config =
      new_response StatusOk (get_content_type ''/a.txt'') ''hello''"
    by (rule serve_existing_file [where l = "[''srv'', ''www'', ''a.txt'']"])
      (simp_all add: example_files_def resolve_def lookup_def no_faults_def)
  ultimately show ?thesis
    by (simp add: routed_response(1) q get_content_type_def suffix_def)
      (simp add: example_env_def example_world_def example_location_def)
qed

section \<open>Properties\<close>

text \<open>
  C4: in every state the loop of a listener can reach from its start, watched descriptors and those
  with a pending response are open, a connection watched for writing has a pending response, one
  watched for reading has a buffer, and the listening socket is open, watched and never timed.
\<close>

theorem server_invariant:
  assumes "reaches configs listener (start listener w) st"
  shows "server_inv listener st"
  using assms
proof (induction rule: rtranclp_induct)
  case base
  then show ?case by (rule inv_start)
next
  case (step st st')
  from step(2) show ?case
    by (cases rule: server_step.cases) (use step(3) inv_tick inv_event in blast)+
qed

theorem server_invariant_witness:
  "server_inv 3 (example_state [])"
proof (rule server_invariant)
  have "handle_event [example_config] 3 example_event (start 3 example_world) = Done (example_state [])"
    by (simp add: handle_event_def example_event_def start_def epoll_add_def example_state_def fun_eq_iff)
  then have "server_step [example_config] 3 (start 3 example_world) (example_state [])"
    by (rule step_event [rotated]) (simp add: kernel_ok_def example_event_def start_def)
  then show "reaches [example_config] 3 (start 3 example_world) (example_state [])"
    by (rule r_into_rtranclp)
qed

lemma serve_request_instance:
  "\<exists>st'. handle_read example_env [example_config] 5
      (map Data [take 10 example_bytes, drop 10 example_bytes] @ [Read_would_block]) (example_state []) = Done st' \<and>
    sv_write st' 5 = Some (serialize_response (new_response StatusOk ''text/plain'' ''hello'')) \<and>
    sv_watch st' 5 = Some Writable"
proof -
  have st: "sv_read (example_state []) 5 = Some []" "sv_world (example_state []) = example_world"
    "sv_watch (example_state []) 5 = Some Readable"
    by (simp_all add: example_state_def start_def)
  have "length example_bytes \<le> srv_max_body example_config"
    by (simp add: example_bytes_def render_request_def request_line_def header_line_def example_config_def)
  then show ?thesis
    using serve_request [OF st(1), of "[take 10 example_bytes, drop 10 example_bytes]" example_get
        "[example_config]" example_config example_env "new_response StatusOk ''text/plain'' ''hello''" example_world]
      example_parse example_match example_served st
    by auto
qed

text \<open>
  C34: a request is answered when the socket has no more data for now, not when it is complete: as
  long as the end of the head has not arrived the answer is a 400, and what had arrived is
  discarded.
\<close>

theorem partial_request_refused:
  assumes "sv_read st fd = Some old" "find_sub separator (old @ concat ds) = None"
    and "length (old @ concat ds) \<le> srv_max_body conf"
  shows "\<exists>st'. handle_read env (conf # configs) fd (map Data ds @ [Read_would_block]) st = Done st' \<and>
    sv_write st' fd = Some (serialize_response (error_page BadRequest)) \<and> sv_read st' fd = None"
proof -
  have p: "parse_request (old @ concat ds) = Ret None"
    by (simp add: parse_request_def assms(2))
  then have "limit_config (conf # configs) (old @ concat ds) = Ret conf"
    "answer env (conf # configs) (old @ concat ds) (sv_world st) = Done (error_page BadRequest, sv_world st)"
    by (simp_all add: limit_config_def answer_def)
  with assms(1,3) show ?thesis
    by (simp add: handle_read_def drain_data)
qed

theorem partial_request_refused_witness:
  "\<exists>st'. handle_read example_env [example_config] 5
      (map Data [''GET / HTTP/1.1'' @ crlf @ ''Host: h''] @ [Read_would_block]) (example_state []) = Done st' \<and>
    sv_write st' 5 = Some (serialize_response (error_page BadRequest)) \<and> sv_read st' 5 = None"
  by (rule partial_request_refused [where old = "[]"])
    (simp_all add: example_state_def example_config_def separator_def)

text \<open>
  The body limit of a host is compared with the length of everything received, head included,
  and what exceeds it is answered with 413 and stays in the read buffer.
\<close>

lemma oversized_request_refused:
  assumes "sv_read st fd = Some old" "parse_request (old @ concat ds) = Ret (Some req)"
    and "match_config configs req = Ret conf" "srv_max_body conf < length (old @ concat ds)"
  shows "\<exists>st'. handle_read env configs fd (map Data ds @ [Read_would_block]) st = Done st' \<and>
    sv_write st' fd = Some (serialize_response (error_page ContentTooLarge)) \<and>
    sv_read st' fd = Some (old @ concat ds) \<and> sv_world st' = sv_world st"
proof -
  have "limit_config configs (old @ concat ds) = Ret conf"
    by (simp add: limit_config_def assms(2,3))
  with assms(1,4) show ?thesis
    by (simp add: handle_read_def drain_data)
qed

lemma oversized_request_refused_instance:
  "\<exists>st'. handle_read example_env [example_config\<lparr>srv_max_body := 20\<rparr>] 5
      (map Data [example_bytes] @ [Read_would_block]) (example_state []) = Done st' \<and>
    sv_write st' 5 = Some (serialize_response (error_page ContentTooLarge)) \<and>
    sv_read st' 5 = Some ([] @ concat [example_bytes]) \<and> sv_world st' = sv_world (example_state [])"
proof (rule oversized_request_refused)
  show "sv_read (example_state []) 5 = Some []"
    by (simp add: example_state_def)
  show "parse_request ([] @ concat [example_bytes]) = Ret (Some example_get)"
    by (simp add: example_parse)
  show "match_config [example_config\<lparr>srv_max_body := 20\<rparr>] example_get = Ret (example_config\<lparr>srv_max_body := 20\<rparr>)"
    by (simp add: match_config_def example_get_def example_config_def)
  show "srv_max_body (example_config\<lparr>srv_max_body := 20\<rparr>) < length ([] @ concat [example_bytes])"
    by (simp add: example_bytes_def render_request_def request_line_def header_line_def)
qed







text \<open>
  The virtual host of a request is the first server whose name is the part of the \<open>Host\<close> field
  before a colon, and the first server of the listener when there is none.
\<close>

lemma match_config_spec:
  assumes "req_headers req ''host'' = Some (name @ port)" "CHR '':'' \<notin> set name"
    and "port = [] \<or> hd port = CHR '':''" "configs = first # others"
  shows "match_config configs req =
    Ret (case find (\<lambda>c. srv_name c = Some name) configs of Some c \<Rightarrow> c | None \<Rightarrow> first)"
proof -
  have "hd (split_on CHR '':'' (name @ port)) = name"
    using assms(2,3) by (cases port) (auto simp: split_on_single split_on_append)
  then show ?thesis
    by (simp add: match_config_def assms(1,4))
qed

lemma match_config_spec_instance:
  "match_config [example_config, example_config\<lparr>srv_name := Some ''h''\<rparr>] example_get =
     Ret (example_config\<lparr>srv_name := Some ''h''\<rparr>)"
  using match_config_spec [of example_get "''h''" "'':80''" "[example_config, example_config\<lparr>srv_name := Some ''h''\<rparr>]" example_config]
  by (simp add: example_get_def example_config_def)

text \<open>
  C31: a request whose last chunk has arrived without its closing CR LF ends the listener: the thread
  panics while handling the event, so no later event of any connection is handled.
\<close>

theorem truncated_chunk_kills_listener:
  assumes "ev_fd ev \<noteq> listener" "\<not> ev_writable ev" "ev_reads ev = map Data ds @ [Read_would_block]"
    and "sv_read st (ev_fd ev) = Some []"
    and "concat ds = render_request m p v hs (show_radix 16 (length c) @ crlf @ c @ t)"
    and "field_ok m" "field_ok p" "field_ok v" "\<forall>h \<in> set hs. header_ok h" "is_chunked (header_map hs)"
    and "c \<noteq> []" "length t < 2" "length (concat ds) < usize_bound"
  shows "handle_events configs listener (ev # evs) st = Crashed"
proof -
  have len: "length (show_radix 16 (length c) @ crlf @ c @ t) < usize_bound"
    using assms(13) by (simp add: assms(5) render_request_def)
  have "decode_loop usize_add (show_radix 16 (length c) @ crlf @ c @ t) 0 [] = Panic"
    by (rule decode_loop_truncated [OF assms(11) refl assms(12)]) (use len in \<open>simp_all add: usize_add_def\<close>)
  then have "parse_request (concat ds) = Panic"
    by (simp add: assms(5) parse_request_head [OF assms(6-9)] assms(10) decode_chunked_def)
  then have "limit_config configs ([] @ concat ds) = Panic"
    by (simp add: limit_config_def)
  then show ?thesis
    using assms(1-4) by (simp add: handle_event_def handle_read_def drain_data)
qed

theorem truncated_chunk_kills_listener_witness:
  "handle_events [example_config] 3
     (example_event\<lparr>ev_fd := 5, ev_reads := map Data
        [render_request ''POST'' ''/'' ''HTTP/1.1'' [(''Transfer-Encoding'', ''chunked'')]
          (show_radix 16 (length ''abc'') @ crlf @ ''abc'' @ [])] @ [Read_would_block]\<rparr> # [example_event])
     (example_state []) = Crashed"
proof (rule truncated_chunk_kills_listener)
  let ?req = "render_request ''POST'' ''/'' ''HTTP/1.1'' [(''Transfer-Encoding'', ''chunked'')]
    (show_radix 16 (length ''abc'') @ crlf @ ''abc'' @ [])"
  show "concat [?req] = ?req" by simp
  show "length (concat [?req]) < usize_bound"
    by (simp add: render_request_def request_line_def header_line_def usize_bound_def show_radix.simps)
qed (simp_all add: example_event_def example_state_def request_eval contains_str_def)

end
