(* ===== verification/Process.thy ===== *)
theory Process
  imports Config_Load Server_Correct
begin

text \<open>
  The whole process (\<open>src/main.rs\<close>): the start from the command line and the configuration file, and
  the listener threads side by side. Threads have their own buffers, times and epoll instance, and
  share the files, the sessions and the table of open descriptors. A step of the process is a step
  of one thread on its view of the shared state.
\<close>

section \<open>Start\<close>

definition config_path :: "string list \<Rightarrow> string" where
  "config_path args = (case args of _ # p # _ \<Rightarrow> p | _ \<Rightarrow> ''config.conf'')"

datatype start_result = Exit_error load_error | Exit_panic | Listen "string \<rightharpoonup> server_config list"

definition main_start :: "string list \<Rightarrow> (string \<Rightarrow> bytes option) \<Rightarrow> start_result" where
  "main_start args read =
     (case from_file (read (config_path args)) of
        Panic \<Rightarrow> Exit_panic
      | Ret (Inl e) \<Rightarrow> Exit_error e
      | Ret (Inr config) \<Rightarrow> Listen (group_servers (cfg_servers config)))"

section \<open>Threads\<close>

record process =
  pr_world :: world
  pr_open :: "fd \<Rightarrow> bool"
  pr_threads :: "string \<rightharpoonup> server_state"

text \<open>The state as a thread sees it, and the effect of its step on the process: the descriptors it
  closed leave the interest lists of the others.\<close>

definition view :: "process \<Rightarrow> string \<Rightarrow> server_state option" where
  "view pr a =
     map_option (\<lambda>l. l\<lparr>sv_world := pr_world pr, sv_open := pr_open pr\<rparr>) (pr_threads pr a)"

definition see_closed :: "(fd \<Rightarrow> bool) \<Rightarrow> server_state \<Rightarrow> server_state" where
  "see_closed is_open l = l\<lparr>sv_watch := (\<lambda>fd. if is_open fd then sv_watch l fd else None)\<rparr>"

definition commit :: "string \<Rightarrow> server_state \<Rightarrow> process \<Rightarrow> process" where
  "commit a st pr =
     \<lparr>pr_world = sv_world st, pr_open = sv_open st,
      pr_threads = (\<lambda>b. if b = a then Some st else map_option (see_closed (sv_open st)) (pr_threads pr b))\<rparr>"

definition start_process :: "string list \<Rightarrow> (string \<Rightarrow> fd) \<Rightarrow> world \<Rightarrow> process" where
  "start_process addrs listener w =
     \<lparr>pr_world = w, pr_open = (\<lambda>fd. fd \<in> listener ` set addrs),
      pr_threads = (\<lambda>a. if a \<in> set addrs then Some (start (listener a) w) else None)\<rparr>"

text \<open>\<open>accept\<close> returns descriptors that are not open, and an event is for a watched descriptor.\<close>

fun fresh_accepts :: "(fd \<Rightarrow> bool) \<Rightarrow> accept_result list \<Rightarrow> bool" where
  "fresh_accepts is_open [] = True"
| "fresh_accepts is_open (Accepted fd nb # rs) = (\<not> is_open fd \<and> fresh_accepts (is_open(fd := True)) rs)"
| "fresh_accepts is_open (_ # rs) = True"

definition deliverable :: "event \<Rightarrow> server_state \<Rightarrow> bool" where
  "deliverable ev st \<longleftrightarrow> sv_watch st (ev_fd ev) \<noteq> None \<and> fresh_accepts (sv_open st) (ev_accepts ev)"

text \<open>A thread that ends drops its buffers and closes its listening socket, its epoll instance and the
  stream it was working on; the other connections it has accepted stay open.\<close>

inductive process_step ::
    "(string \<rightharpoonup> server_config list) \<Rightarrow> (string \<Rightarrow> fd) \<Rightarrow> process \<Rightarrow> process \<Rightarrow> bool"
  for groups :: "string \<rightharpoonup> server_config list" and listener :: "string \<Rightarrow> fd" where
  thread_tick: "view pr a = Some st \<Longrightarrow> process_step groups listener pr (commit a (close_timed_out now st) pr)"
| thread_event: "view pr a = Some st \<Longrightarrow> groups a = Some configs \<Longrightarrow> deliverable ev st \<Longrightarrow>
    handle_event configs (listener a) ev st = Done st' \<Longrightarrow>
    process_step groups listener pr (commit a st' pr)"
| thread_end: "view pr a = Some st \<Longrightarrow> groups a = Some configs \<Longrightarrow> deliverable ev st \<Longrightarrow>
    handle_event configs (listener a) ev st \<in> {Failed, Crashed} \<Longrightarrow>
    (\<forall>fd. pr_open pr fd \<longrightarrow> is_open fd \<or> fd = listener a \<or> fd = ev_fd ev) \<Longrightarrow>
    process_step groups listener pr
      (pr\<lparr>pr_open := is_open,
         pr_threads := (\<lambda>b. if b = a then None else map_option (see_closed is_open) (pr_threads pr b))\<rparr>)"

section \<open>What one event changes\<close>








section \<open>The invariant of the process\<close>




lemma see_closed_simps [simp]:
  "sv_watch (see_closed is_open l) fd = (if is_open fd then sv_watch l fd else None)"
  "sv_times (see_closed is_open l) = sv_times l"
  by (simp_all add: see_closed_def)








section \<open>Properties\<close>

lemma main_start_groups:
  assumes "main_start args read = Listen groups"
  obtains c where "from_file (read (config_path args)) = Ret (Inr c)"
    and "groups = group_servers (cfg_servers c)"
  using assms by (auto simp: main_start_def split: exec.splits sum.splits)

lemma find_name:
  "distinct (map srv_name g) \<Longrightarrow> s \<in> set g \<Longrightarrow> find (\<lambda>c. srv_name c = srv_name s) g = Some s"
  by (induction g) auto

text \<open>
  C14: when the program starts it has at least one listener, every listener has at least one server
  (so that the configuration \<open>run\<close> indexes exists), all its servers have its address, and the
  listeners have the servers of the configuration file, each in exactly one. A server with a name
  is the one chosen at its address for a request whose \<open>Host\<close> field has that name before a port.
\<close>

theorem listeners_of_configuration:
  assumes "main_start args read = Listen groups"
  shows "\<exists>c. from_file (read (config_path args)) = Ret (Inr c) \<and> groups \<noteq> Map.empty \<and>
    (\<forall>a g. groups a = Some g \<longrightarrow> g \<noteq> [] \<and> set g = {s \<in> set (cfg_servers c). addr s = a}) \<and>
    (\<forall>s \<in> set (cfg_servers c). \<exists>g. groups (addr s) = Some g \<and>
       (\<forall>n rest req. srv_name s = Some n \<and> CHR '':'' \<notin> set n \<and> (rest = [] \<or> hd rest = CHR '':'') \<and>
          req_headers req ''host'' = Some (n @ rest) \<longrightarrow> match_config g req = Ret s))"
proof -
  obtain c where c: "from_file (read (config_path args)) = Ret (Inr c)"
    and g: "groups = group_servers (cfg_servers c)"
    using main_start_groups [OF assms] .
  note ok = from_file_loaded [OF c]
  have grp: "groups (addr s) = Some (filter (\<lambda>x. addr x = addr s) (cfg_servers c))"
    if "s \<in> set (cfg_servers c)" for s
    using that by (auto simp: g group_servers_spec Let_def filter_empty_conv)
  have "match_config (filter (\<lambda>x. addr x = addr s) (cfg_servers c)) req = Ret s"
    if "s \<in> set (cfg_servers c)" "srv_name s = Some n" "CHR '':'' \<notin> set n" "rest = [] \<or> hd rest = CHR '':''"
      "req_headers req ''host'' = Some (n @ rest)" for s n rest req
  proof -
    let ?g = "filter (\<lambda>x. addr x = addr s) (cfg_servers c)"
    have "s \<in> set ?g" using that(1) by simp
    then obtain first others where f: "?g = first # others" by (cases ?g) auto
    from find_name [OF group_names_distinct [OF ok(3)] \<open>s \<in> set ?g\<close>] that(2)
    have "find (\<lambda>c. srv_name c = Some n) ?g = Some s" by simp
    then show ?thesis
      using match_config_spec [OF that(5,3,4) f] by simp
  qed
  moreover have "groups \<noteq> Map.empty"
    using grp [of "hd (cfg_servers c)"] ok(1) by auto
  moreover have "\<forall>a g. groups a = Some g \<longrightarrow> g \<noteq> [] \<and> set g = {s \<in> set (cfg_servers c). addr s = a}"
    by (auto simp: g group_servers_spec Let_def split: if_splits)
  ultimately show ?thesis using c grp by blast
qed


section \<open>A descriptor closed by another thread\<close>

lemma view_commit: "view (commit a st pr) a = Some st"
  by (simp add: view_def commit_def)

lemma view_commit_other:
  "b \<noteq> a \<Longrightarrow> pr_threads pr b = Some m \<Longrightarrow>
   view (commit a st pr) b = Some (see_closed (sv_open st) m\<lparr>sv_world := sv_world st, sv_open := sv_open st\<rparr>)"
  by (simp add: view_def commit_def)

definition accept_event :: "fd \<Rightarrow> fd \<Rightarrow> instant \<Rightarrow> event" where
  "accept_event l fd now =
     \<lparr>ev_fd = l, ev_writable = False, ev_now = now, ev_accepts = [Accepted fd True, Accept_would_block],
      ev_reads = [], ev_writes = [], ev_env = example_env\<rparr>"

definition error_event :: "fd \<Rightarrow> event" where
  "error_event fd =
     \<lparr>ev_fd = fd, ev_writable = False, ev_now = 0, ev_accepts = [], ev_reads = [Read_error],
      ev_writes = [], ev_env = example_env\<rparr>"

lemma accept_step:
  assumes "view pr a = Some st" "groups a = Some configs" "sv_watch st (listener a) \<noteq> None"
    and "\<not> sv_open st fd" "sv_watch st fd = None"
  shows "process_step groups listener pr
    (commit a (st\<lparr>sv_open := (sv_open st)(fd := True), sv_sent := (sv_sent st)(fd := []),
       sv_watch := (sv_watch st)(fd \<mapsto> Readable), sv_read := (sv_read st)(fd \<mapsto> []),
       sv_times := (sv_times st)(fd \<mapsto> now)\<rparr>) pr)"
  by (rule thread_event [where configs = configs and ev = "accept_event (listener a) fd now", OF assms(1)])
    (use assms in \<open>simp_all add: deliverable_def accept_event_def handle_event_def epoll_add_def\<close>)

lemma error_step:
  assumes "view pr a = Some st" "groups a = Some configs" "sv_watch st fd \<noteq> None" "fd \<noteq> listener a"
  shows "process_step groups listener pr (commit a (close_fd fd (forget fd st)) pr)"
  by (rule thread_event [where configs = configs and ev = "error_event fd", OF assms(1)])
    (use assms in \<open>simp_all add: deliverable_def error_event_def handle_event_def handle_read_def\<close>)

text \<open>
  C24: a connection that one thread closed after a read error keeps its connection time there, because
  the error path of \<open>handle_read\<close> does not remove it. When another thread then accepts a connection
  and the kernel gives it the same descriptor number, the first thread's time limit closes that
  connection as soon as it is accepted.
\<close>

theorem foreign_close:
  assumes "a \<in> set addrs" "b \<in> set addrs" "a \<noteq> b" "inj_on listener (set addrs)"
    and "groups a = Some ca" "groups b = Some cb" "fd \<notin> listener ` set addrs" "31 * secs \<le> now"
  shows "\<exists>pr m st. (process_step groups listener)\<^sup>*\<^sup>* (start_process addrs listener w) pr \<and>
    pr_threads pr b = Some m \<and> sv_watch m fd = Some Readable \<and> sv_times m fd = Some now \<and> pr_open pr fd \<and>
    view pr a = Some st \<and> process_step groups listener pr (commit a (close_timed_out now st) pr) \<and>
    \<not> pr_open (commit a (close_timed_out now st) pr) fd"
proof -
  let ?p0 = "start_process addrs listener w"
  let ?open = "\<lambda>x. x \<in> listener ` set addrs"
  define s0 where "s0 = (start (listener a) w)\<lparr>sv_open := ?open\<rparr>"
  define s1 where "s1 = s0\<lparr>sv_open := ?open(fd := True), sv_sent := (sv_sent s0)(fd := []),
    sv_watch := (sv_watch s0)(fd \<mapsto> Readable), sv_read := (sv_read s0)(fd \<mapsto> []),
    sv_times := (sv_times s0)(fd \<mapsto> 0)\<rparr>"
  define s2 where "s2 = close_fd fd (forget fd s1)"
  have v0: "view ?p0 a = Some s0"
    using assms(1) by (simp add: view_def start_process_def s0_def start_def)
  have "listener a \<noteq> fd" "listener b \<noteq> fd" using assms(1,2,7) by auto
  then have 1: "process_step groups listener ?p0 (commit a s1 ?p0)"
    using accept_step [OF v0, of groups ca listener fd 0] assms(5,7) by (simp add: s0_def start_def s1_def)
  let ?p1 = "commit a s1 ?p0"
  have 2: "process_step groups listener ?p1 (commit a s2 ?p1)"
    using error_step [OF view_commit, of groups a ca s1 fd listener ?p0] assms(5) \<open>listener a \<noteq> fd\<close>
    by (simp add: s2_def s1_def)
  let ?p2 = "commit a s2 ?p1"
  have o2: "sv_open s2 = ?open" and w2: "sv_world s2 = w" and t2: "sv_times s2 fd = Some 0"
    using assms(7) by (simp_all add: fun_eq_iff s2_def s1_def s0_def start_def close_fd_def forget_def epoll_remove_def)
  obtain k where k: "view ?p2 b = Some k" and kw: "sv_watch k (listener b) \<noteq> None" "sv_watch k fd = None"
    and ko: "sv_open k = ?open"
  proof -
    have b1: "pr_threads ?p1 b = Some (see_closed (sv_open s1) (start (listener b) w))"
      using assms(2,3) by (simp add: commit_def start_process_def)
    show thesis
      by (rule that [OF view_commit_other [OF _ b1]])
        (use assms(2,3,7) \<open>listener b \<noteq> fd\<close> in \<open>auto simp: o2 s1_def start_def\<close>)
  qed
  define s3 where "s3 = k\<lparr>sv_open := ?open(fd := True), sv_sent := (sv_sent k)(fd := []),
    sv_watch := (sv_watch k)(fd \<mapsto> Readable), sv_read := (sv_read k)(fd \<mapsto> []),
    sv_times := (sv_times k)(fd \<mapsto> now)\<rparr>"
  have 3: "process_step groups listener ?p2 (commit b s3 ?p2)"
    using accept_step [OF k, of groups cb listener fd now] kw(1) assms(6,7) kw(2) by (simp add: s3_def ko)
  let ?p3 = "commit b s3 ?p2"
  let ?st = "see_closed (sv_open s3) s2\<lparr>sv_world := sv_world s3, sv_open := sv_open s3\<rparr>"
  have v3: "view ?p3 a = Some ?st"
    by (rule view_commit_other [OF assms(3)]) (simp add: commit_def)
  have "31 \<le> now div secs"
    using div_le_mono [OF assms(8), of secs] by (simp add: secs_def)
  then have "timed_out now ?st fd"
    by (simp add: timed_out_def timeout_secs_def t2)
  then have closed: "\<not> pr_open (commit a (close_timed_out now ?st) ?p3) fd"
    by (simp add: commit_def close_timed_out_def Let_def)
  have "(process_step groups listener)\<^sup>*\<^sup>* ?p0 ?p3"
    using 1 2 3 by (meson converse_rtranclp_into_rtranclp rtranclp.rtrancl_refl)
  moreover have "pr_threads ?p3 b = Some s3" "sv_watch s3 fd = Some Readable" "sv_times s3 fd = Some now"
    "pr_open ?p3 fd"
    by (simp_all add: commit_def s3_def)
  ultimately show ?thesis
    using thread_tick [OF v3, of groups listener now] closed v3 by blast
qed

definition two_groups :: "string \<rightharpoonup> server_config list" where
  "two_groups = [''h:80'' \<mapsto> [example_config], ''h:81'' \<mapsto> [example_config]]"

definition two_listeners :: "string \<Rightarrow> fd" where
  "two_listeners a = (if a = ''h:80'' then 3 else 4)"

lemma two_listeners_inj: "inj_on two_listeners {''h:80'', ''h:81''}"
  by (simp add: two_listeners_def)

theorem foreign_close_witness:
  "\<exists>pr m st. (process_step two_groups two_listeners)\<^sup>*\<^sup>* (start_process [''h:80'', ''h:81''] two_listeners example_world) pr \<and>
    pr_threads pr ''h:81'' = Some m \<and> sv_watch m 5 = Some Readable \<and> sv_times m 5 = Some (31 * secs) \<and>
    pr_open pr 5 \<and> view pr ''h:80'' = Some st \<and>
    process_step two_groups two_listeners pr (commit ''h:80'' (close_timed_out (31 * secs) st) pr) \<and>
    \<not> pr_open (commit ''h:80'' (close_timed_out (31 * secs) st) pr) 5"
  by (rule foreign_close [where ca = "[example_config]" and cb = "[example_config]"])
    (use two_listeners_inj in \<open>simp_all add: two_groups_def two_listeners_def\<close>)


theorem listeners_of_configuration_witness:
  "\<exists>groups g c. main_start [''localserver'', ''my.conf'']
       [''my.conf'' \<mapsto> ''server { host h; port 80; } server { host h; port 80; server_name n; }''] = Listen groups \<and>
     groups ''h:80'' = Some g \<and> c \<in> set g \<and> srv_name c = Some ''n'' \<and>
     match_config g (example_get\<lparr>req_headers := [''host'' \<mapsto> ''n:80'']\<rparr>) = Ret c"
proof -
  let ?text = "''server { host h; port 80; } server { host h; port 80; server_name n; }''"
  let ?read = "[''my.conf'' \<mapsto> ?text]"
  let ?args = "[''localserver'', ''my.conf'']"
  have "case from_file (Some ?text) of
      Ret (Inr c) \<Rightarrow> \<exists>s \<in> set (cfg_servers c). srv_name s = Some ''n'' \<and> addr s = ''h:80'' | _ \<Rightarrow> False"
    by (simp add: from_file_def lex_eval parse_eval server_key_def addr_def show_radix.simps digit_char_def
        cong: sum_bind_weak_cong)
  then obtain c s where c: "from_file (Some ?text) = Ret (Inr c)" and s: "s \<in> set (cfg_servers c)"
    and n: "srv_name s = Some ''n''" "addr s = ''h:80''"
    by (auto split: exec.splits sum.splits)
  then have m: "main_start ?args ?read = Listen (group_servers (cfg_servers c))"
    by (simp add: main_start_def config_path_def)
  from listeners_of_configuration [OF m] c have
    all: "\<forall>a g. group_servers (cfg_servers c) a = Some g \<longrightarrow> g \<noteq> [] \<and> set g = {s \<in> set (cfg_servers c). addr s = a}"
    and host: "\<forall>s \<in> set (cfg_servers c). \<exists>g. group_servers (cfg_servers c) (addr s) = Some g \<and>
       (\<forall>n rest req. srv_name s = Some n \<and> CHR '':'' \<notin> set n \<and> (rest = [] \<or> hd rest = CHR '':'') \<and>
          req_headers req ''host'' = Some (n @ rest) \<longrightarrow> match_config g req = Ret s)"
    by (simp_all add: config_path_def)
  from host s n obtain g where g: "group_servers (cfg_servers c) ''h:80'' = Some g"
    and h: "\<And>n rest req. srv_name s = Some n \<and> CHR '':'' \<notin> set n \<and> (rest = [] \<or> hd rest = CHR '':'') \<and>
          req_headers req ''host'' = Some (n @ rest) \<Longrightarrow> match_config g req = Ret s"
    by metis
  from all g s n have "s \<in> set g" by blast
  moreover have "match_config g (example_get\<lparr>req_headers := [''host'' \<mapsto> ''n:80'']\<rparr>) = Ret s"
    by (rule h [of "''n''" "'':80''"]) (simp add: n)
  ultimately show ?thesis using m g n(1) by blast
qed

end
