(* ===== verification/Chunk_Reference.thy ===== *)
theory Chunk_Reference
  imports Server_Correct
begin

text \<open>
  A reference decoder for chunked bodies that consumes its input chunk by chunk, with no positions
  and no slices; \<open>decode_chunked\<close> (\<open>src/request.rs\<close>) computes the same in both build profiles. From it
  come the exact inputs on which decoding panics, and with it the only way a listener thread crashes.
\<close>

section \<open>The reference decoder\<close>

text \<open>The number on the first line, if it is one, and what follows the line.\<close>

definition size_line :: "bytes \<Rightarrow> (nat \<times> bytes) option" where
  "size_line s =
     (case find_sub crlf s of
        None \<Rightarrow> None
      | Some i \<Rightarrow>
          if utf8_ok (take i s)
          then map_option (\<lambda>n. (n, drop (i + 2) s)) (from_str_radix 16 usize_bound (trim (take i s)))
          else None)"

lemma size_line_length: "size_line s = Some (n, rest) \<Longrightarrow> length rest + 2 \<le> length s"
  by (auto simp: size_line_def dest: find_sub_bound split: option.splits if_splits)

text \<open>\<open>k\<close> counts the bytes before \<open>s\<close>, for the one test that looks at positions: that the end of a
  chunk fits a \<open>usize\<close>.\<close>

function read_chunks :: "nat \<Rightarrow> bytes \<Rightarrow> bytes option exec" where
  "read_chunks k s =
     (case size_line s of
        None \<Rightarrow> Ret None
      | Some (n, rest) \<Rightarrow>
          (let start = k + (length s - length rest) in
           if n = 0 then Ret (Some [])
           else if usize_bound \<le> start + n then Panic
           else if length rest < n then Ret None
           else if length rest < n + 2 then Panic
           else exec_bind (read_chunks (start + n + 2) (drop (n + 2) rest))
             (\<lambda>r. Ret (map_option ((@) (take n rest)) r))))"
  by pat_completeness auto
termination
  by (relation "measure (\<lambda>(k, s). length s)") (auto dest: size_line_length)

declare read_chunks.simps [simp del]

text \<open>The inputs on which the reference decoder has no result: complete chunks up to one whose end is
  not a \<open>usize\<close>, or whose data is there but not the two bytes after it.\<close>

inductive crash_at :: "nat \<Rightarrow> bytes \<Rightarrow> bool" where
  crash_huge: "size_line s = Some (n, rest) \<Longrightarrow> 0 < n \<Longrightarrow>
    usize_bound \<le> k + (length s - length rest) + n \<Longrightarrow> crash_at k s"
| crash_cut: "size_line s = Some (n, rest) \<Longrightarrow> 0 < n \<Longrightarrow>
    n \<le> length rest \<Longrightarrow> length rest < n + 2 \<Longrightarrow> crash_at k s"
| crash_later: "size_line s = Some (n, rest) \<Longrightarrow> 0 < n \<Longrightarrow> n + 2 \<le> length rest \<Longrightarrow>
    crash_at (k + (length s - length rest) + n + 2) (drop (n + 2) rest) \<Longrightarrow> crash_at k s"

lemma crash_at_panics: "crash_at k s \<Longrightarrow> read_chunks k s = Panic"
  by (induction rule: crash_at.induct) (subst read_chunks.simps; simp add: Let_def)+

lemma panic_crashes: "read_chunks k s = Panic \<Longrightarrow> crash_at k s"
proof (induction k s rule: read_chunks.induct)
  case (1 k s)
  from "1.prems" obtain n rest where s: "size_line s = Some (n, rest)" and n: "0 < n"
    by (subst (asm) read_chunks.simps) (auto simp: Let_def split: option.splits if_splits)
  let ?start = "k + (length s - length rest)"
  consider "usize_bound \<le> ?start + n" | "length rest < n" "\<not> usize_bound \<le> ?start + n"
    | "n \<le> length rest" "length rest < n + 2"
    | "\<not> usize_bound \<le> ?start + n" "n + 2 \<le> length rest" by linarith
  then show ?case
  proof cases
    case 1
    with s n show ?thesis by (rule crash_huge)
  next
    case 2
    with "1.prems" s n show ?thesis by (subst (asm) read_chunks.simps) simp
  next
    case 3
    with s n show ?thesis by (rule crash_cut)
  next
    case 4
    with "1.prems" s n have "read_chunks (?start + n + 2) (drop (n + 2) rest) = Panic"
      by (subst (asm) read_chunks.simps) (simp add: Let_def exec_simps)
    with "1.IH" [OF s refl refl] n 4 have "crash_at (?start + n + 2) (drop (n + 2) rest)" by simp
    with s n 4(2) show ?thesis by (rule crash_later)
  qed
qed

section \<open>The loop computes the reference decoder\<close>

text \<open>How the loop adds: right when the sum fits, and otherwise so that the slice is refused.\<close>

definition adds :: "(nat \<Rightarrow> nat \<Rightarrow> nat exec) \<Rightarrow> bool" where
  "adds add \<longleftrightarrow>
     (\<forall>a b. a + b < usize_bound \<longrightarrow> add a b = Ret (a + b)) \<and>
     (\<forall>a b. a < usize_bound \<and> b < usize_bound \<and> usize_bound \<le> a + b \<longrightarrow>
        add a b = Panic \<or> (\<exists>e. add a b = Ret e \<and> e < a))"

lemma adds_profiles: "adds usize_add" "adds (\<lambda>a b. Ret (usize_wrapping_add a b))"
  by (auto simp: adds_def usize_add_def usize_wrapping_add_def mod_if)

lemma size_line_bound: "size_line s = Some (n, rest) \<Longrightarrow> n < usize_bound"
  using from_str_radix_bound [of 16 usize_bound _ n]
  by (auto simp: size_line_def usize_bound_def split: option.splits if_splits)

lemma decode_loop_size_line:
  assumes "pos \<le> length data"
  shows "decode_loop add data pos body =
    (case size_line (drop pos data) of
       None \<Rightarrow> Ret None
     | Some (n, rest) \<Rightarrow>
         (let start = length data - length rest in
          if n = 0 then Ret (Some body)
          else
            (case add start n of
               Panic \<Rightarrow> Panic
             | Ret e \<Rightarrow>
                 if length data < e then Ret None
                 else
                   (case slice data start e of
                      Panic \<Rightarrow> Panic
                    | Ret c \<Rightarrow> decode_loop add data (start + (n + 2)) (body @ c)))))"
proof (cases "find_sub crlf (drop pos data)")
  case None
  with assms show ?thesis by (subst decode_loop.simps) (simp add: slice_from_def size_line_def)
next
  case (Some i)
  define tail where "tail = drop pos data"
  from find_sub_bound [OF Some] assms have "length data - length (drop (i + 2) tail) = pos + i + 2"
    by (simp add: tail_def)
  moreover have "slice_from data pos = Ret tail" using assms by (simp add: slice_from_def tail_def)
  moreover have "find_sub crlf tail = Some i" using Some by (simp add: tail_def)
  ultimately show ?thesis
    unfolding tail_def [symmetric]
    by (subst decode_loop.simps) (auto simp: size_line_def Let_def split: option.split simp del: add_2_eq_Suc' add_2_eq_Suc
      cong: exec.case_cong if_cong)
qed

lemma decode_loop_past: "length data < pos \<Longrightarrow> decode_loop add data pos body = Panic"
  by (subst decode_loop.simps) (simp add: slice_from_def)

lemma decode_loop_reads:
  assumes "adds add" "pos \<le> length data" "length data < usize_bound"
  shows "decode_loop add data pos body =
    exec_bind (read_chunks pos (drop pos data)) (\<lambda>r. Ret (map_option ((@) body) r))"
  using assms(2)
proof (induction "length data - pos" arbitrary: pos body rule: less_induct)
  case less
  show ?case
  proof (cases "size_line (drop pos data)")
    case None
    with less.prems show ?thesis by (simp add: decode_loop_size_line read_chunks.simps)
  next
    case (Some p)
    obtain n rest where s: "size_line (drop pos data) = Some (n, rest)"
      using Some by (cases p) simp
    define start where "start = length data - length rest"
    from size_line_length [OF s] less.prems have len: "length rest + 2 + pos \<le> length data" by simp
    then have start: "pos + (length (drop pos data) - length rest) = start" "pos + 2 \<le> start"
      "start + length rest = length data"
      by (simp_all add: start_def)
    have rest: "rest = drop start data"
    proof -
      from s obtain i where "rest = drop (i + 2) (drop pos data)"
        by (auto simp: size_line_def split: option.splits if_splits)
      then have r: "rest = drop (pos + i + 2) data" by (simp add: add.commute add.left_commute)
      show ?thesis
      proof (cases "pos + i + 2 \<le> length data")
        case True
        with r show ?thesis by (simp add: start_def)
      next
        case False
        with r show ?thesis by (simp add: start_def)
      qed
    qed
    note loop = decode_loop_size_line [OF less.prems, of add body, unfolded s option.case prod.case, folded start_def]
    note ref = read_chunks.simps [of pos "drop pos data", unfolded s option.case prod.case start(1)]
    consider "n = 0" | "0 < n" "usize_bound \<le> start + n" | "0 < n" "start + n < usize_bound" by linarith
    then show ?thesis
    proof cases
      case 1
      then show ?thesis by (simp add: loop ref Let_def)
    next
      case 2
      have "start < usize_bound" "n < usize_bound"
        using size_line_bound [OF s] start(3) assms(3) by simp_all
      with 2 assms(1) consider "add start n = Panic" | e where "add start n = Ret e" "e < start"
        unfolding adds_def by blast
      then show ?thesis
      proof cases
        case 1
        with 2 show ?thesis by (simp add: loop ref Let_def)
      next
        case (2 e)
        with \<open>0 < n\<close> \<open>usize_bound \<le> start + n\<close> start(3) show ?thesis
          by (simp add: loop ref Let_def slice_def)
      qed
    next
      case 3
      then have add: "add start n = Ret (start + n)"
        using assms(1) by (simp add: adds_def)
      consider "length rest < n" | "n \<le> length rest" "length rest < n + 2" | "n + 2 \<le> length rest" by linarith
      then show ?thesis
      proof cases
        case 1
        with 3 add start(3) show ?thesis by (simp add: loop ref Let_def)
      next
        case 2
        with 3 add start(3) show ?thesis
          by (simp add: loop ref Let_def slice_def decode_loop_past)
      next
        case c: 3
        have "length data - (start + (n + 2)) < length data - pos" "start + (n + 2) \<le> length data"
          using c start(2,3) len by linarith+
        note ih = less.hyps [OF this]
        have "slice data start (start + n) = Ret (take n rest)"
          using c start(3) by (simp add: slice_def rest)
        moreover have "drop (start + (n + 2)) data = drop (n + 2) rest"
          by (simp add: rest add.commute)
        ultimately show ?thesis
          using 3 c add start(3) ih [of "body @ take n rest"]
          by (simp add: loop ref Let_def add.assoc) (cases "read_chunks (start + (n + 2)) (drop (n + 2) rest)"; simp add: option.map_comp comp_def append_assoc [abs_def])
      qed
    qed
  qed
qed

lemma decode_chunked_reads:
  assumes "length data < usize_bound"
  shows "decode_chunked data = read_chunks 0 data" "decode_chunked_release data = read_chunks 0 data"
proof -
  have "exec_bind r (\<lambda>r. Ret (map_option ((@) []) r)) = r" for r :: "bytes option exec"
    by (cases r) (simp_all add: append_Nil [abs_def] option.map_ident)
  then show "decode_chunked data = read_chunks 0 data" "decode_chunked_release data = read_chunks 0 data"
    using decode_loop_reads [OF adds_profiles(1), of 0 data "[]"]
      decode_loop_reads [OF adds_profiles(2), of 0 data "[]"] assms
    by (simp_all add: decode_chunked_def decode_chunked_release_def)
qed

section \<open>Properties\<close>

text \<open>
  C5: on data shorter than the address space, \<open>decode_chunked\<close> with overflow checks, \<open>decode_chunked\<close>
  without them and the reference decoder agree: on the decoded body, on refusal, and on panics.
\<close>

theorem decode_chunked_reference:
  assumes "length data < usize_bound"
  shows "decode_chunked data = read_chunks 0 data \<and> decode_chunked_release data = read_chunks 0 data"
  using decode_chunked_reads [OF assms] by blast

lemma trim_digit: "d \<in> {''0'', ''3''} \<Longrightarrow> trim d = d"
  by (auto intro!: trim_trimmed simp: trimmed_def)

lemmas read_eval = read_chunks.simps size_line_def from_str_radix_def digit_val_def trim_digit

theorem decode_chunked_reference_witness:
  "decode_chunked_release (''3'' @ crlf @ ''abc'' @ crlf @ ''0'' @ crlf) = Ret (Some ''abc'') \<and>
   decode_chunked_release (''3'' @ crlf @ ''abc'') = Panic"
  using decode_chunked_reference [of "''3'' @ crlf @ ''abc'' @ crlf @ ''0'' @ crlf"]
    decode_chunked_reference [of "''3'' @ crlf @ ''abc''"]
  by (simp add: usize_bound_def read_eval Let_def)

text \<open>What a thread reads before it answers.\<close>

lemma match_config_total: "\<exists>conf. match_config (c # cs) req = Ret conf"
  by (simp add: match_config_def Let_def)

lemma limit_config_panic:
  "limit_config (c # cs) data = Panic \<longleftrightarrow> parse_request data = Panic"
  using match_config_total [of c cs]
  by (auto simp: limit_config_def exec_simps split: option.split) (metis exec.distinct(1))

lemma answer_crashed: "answer env (c # cs) data w = Crashed \<longleftrightarrow> parse_request data = Panic"
  using match_config_total [of c cs]
  by (auto simp: answer_def Let_def split: exec.split option.split prod.split) (metis exec.distinct(1))

lemma accept_not_crashed: "accept_connections now rs st \<noteq> Crashed"
  by (induction now rs st rule: accept_connections.induct) (auto split: option.split)

lemma parse_request_crash:
  assumes "length data < usize_bound"
  shows "parse_request data = Panic \<longleftrightarrow>
    (\<exists>h first_line lines m path version ws. find_sub separator data = Some h \<and>
       str_lines (from_utf8_lossy (take h data)) = first_line # lines \<and>
       split_whitespace first_line = m # path # version # ws \<and>
       is_chunked (parse_headers lines) \<and> crash_at 0 (drop (h + 4) data))"
proof -
  have "decode_chunked (drop n data) = Panic \<longleftrightarrow> crash_at 0 (drop n data)" for n
    using assms decode_chunked_reads(1) [of "drop n data"] crash_at_panics panic_crashes by auto
  then show ?thesis
    by (auto simp: parse_request_def Let_def exec_simps split: option.splits list.splits)
qed

text \<open>
  C3: an event makes the listener thread panic in exactly one situation: the socket of a connection
  was read until it would block, and what has arrived is a complete head that asks for the chunked
  encoding and a body whose chunks are complete up to one that either has its data but not the
  two bytes that end it, or whose announced end is not a \<open>usize\<close>.
\<close>

theorem event_crashes_iff:
  assumes "configs \<noteq> []"
    and "\<forall>data. drain (ev_reads ev) (sv_read st (ev_fd ev)) = (Drained, Some data) \<longrightarrow> length data < usize_bound"
  shows "handle_event configs listener ev st = Crashed \<longleftrightarrow>
    ev_fd ev \<noteq> listener \<and> \<not> ev_writable ev \<and>
    (\<exists>data h first_line lines m path version ws.
       drain (ev_reads ev) (sv_read st (ev_fd ev)) = (Drained, Some data) \<and>
       find_sub separator data = Some h \<and>
       str_lines (from_utf8_lossy (take h data)) = first_line # lines \<and>
       split_whitespace first_line = m # path # version # ws \<and>
       is_chunked (parse_headers lines) \<and> crash_at 0 (drop (h + 4) data))"
proof -
  obtain c cs where cs: "configs = c # cs" using assms(1) by (cases configs) auto
  have read: "handle_read env configs fd rs st = Crashed \<longleftrightarrow>
      (\<exists>data. drain rs (sv_read st fd) = (Drained, Some data) \<and> parse_request data = Panic)" for env fd rs
  proof -
    obtain e b where d: "drain rs (sv_read st fd) = (e, b)" by fastforce
    show ?thesis
    proof (cases "e = Drained \<and> b \<noteq> None")
      case True
      then obtain data where b: "b = Some data" "e = Drained" by blast
      show ?thesis
      proof (cases "limit_config configs data")
        case (Ret conf)
        then have "parse_request data \<noteq> Panic" using limit_config_panic [of c cs data] cs by auto
        with answer_crashed [of env c cs data "sv_world st"] Ret d b cs show ?thesis
          by (cases "answer env configs data (sv_world st)") (auto simp: handle_read_def)
      next
        case Panic
        with d b cs limit_config_panic [of c cs data] show ?thesis by (simp add: handle_read_def)
      qed
    next
      case False
      with d show ?thesis
        by (cases e; cases b) (simp_all add: handle_read_def)
    qed
  qed
  show ?thesis
  proof (cases "ev_fd ev = listener \<or> ev_writable ev")
    case True
    then show ?thesis by (auto simp: handle_event_def accept_not_crashed)
  next
    case False
    with parse_request_crash assms(2) show ?thesis
      unfolding handle_event_def by (simp add: read) metis
  qed
qed

definition cut_request :: bytes where
  "cut_request = render_request ''POST'' ''/'' ''HTTP/1.1'' [(''Transfer-Encoding'', ''chunked'')]
     (show_radix 16 (length ''abc'') @ crlf @ ''abc'' @ [])"

lemma cut_request_panic: "parse_request cut_request = Panic"
proof -
  have "decode_loop usize_add (show_radix 16 (length ''abc'') @ crlf @ ''abc'' @ []) 0 [] = Panic"
    by (rule decode_loop_truncated [OF _ refl])
      (simp_all add: usize_bound_def usize_add_def show_radix.simps)
  then show ?thesis
    unfolding cut_request_def
    by (subst parse_request_head)
      (simp_all add: request_eval contains_str_def decode_chunked_def exec_simps)
qed

theorem event_crashes_iff_witness:
  "\<exists>data h first_line lines m path version ws.
     drain [Data cut_request, Read_would_block] (Some []) = (Drained, Some data) \<and>
     find_sub separator data = Some h \<and>
     str_lines (from_utf8_lossy (take h data)) = first_line # lines \<and>
     split_whitespace first_line = m # path # version # ws \<and>
     is_chunked (parse_headers lines) \<and> crash_at 0 (drop (h + 4) data)"
proof -
  let ?ev = "example_event\<lparr>ev_fd := 5, ev_reads := [Data cut_request, Read_would_block]\<rparr>"
  have "handle_event [example_config] 3 ?ev (example_state []) = Crashed"
    by (simp add: handle_event_def handle_read_def example_event_def example_state_def
        limit_config_def cut_request_panic)
  moreover have "length cut_request < usize_bound"
    by (simp add: cut_request_def render_request_def request_line_def header_line_def
        usize_bound_def show_radix.simps)
  ultimately show ?thesis
    using event_crashes_iff [of "[example_config]" ?ev "example_state []" 3]
    by (simp add: example_event_def example_state_def)
qed

end
