(* ===== verification/Config_Words.thy ===== *)
theory Config_Words
  imports Config_Load
begin

text \<open>
  Where the strings of a loaded configuration come from: each is a word of the file, or an
  interpreter name that the parser supplies. So none holds white space, a brace or a semicolon, and
  every configuration the loader accepts can be printed and loaded again.
\<close>

section \<open>The texts of tokens\<close>

lemma utf8_ok_chars: "utf8_ok s \<Longrightarrow> \<forall>c \<in> set (chars s). utf8_ok c"
proof (induction s rule: utf8_ok.induct)
  case 1
  then show ?case by simp
next
  case (2 a s)
  obtain ok n where c: "utf8_chunk (a # s) = (ok, n)" by fastforce
  with "2.prems" have ok: "ok" and t: "utf8_ok (drop n (a # s))" by (simp_all add: utf8_ok.simps(2))
  with c have n: "n = utf8_width a" by (metis utf8_chunk_width)
  have "utf8_ok (take n (a # s))"
  proof -
    have "0 < n" using utf8_chunk_pos [of "a # s"] c by simp
    then obtain m where m: "n = Suc m" by (cases n) auto
    have "utf8_chunk (take n (a # s)) = (True, n)"
      using c ok by (auto simp: m utf8_chunk.simps(2) Let_def split: if_splits list.splits)
    then show ?thesis by (simp add: m utf8_ok.simps(2))
  qed
  with "2.IH" [OF c [symmetric] t] show ?case
    by (simp add: chars.simps(2) flip: n)
qed

definition word_text :: "string \<Rightarrow> bool" where
  "word_text w \<longleftrightarrow> word_ok w \<and> utf8_ok w"

lemma utf8_ok_tok_step:
  assumes "utf8_ok c" "\<forall>t \<in> set ts. utf8_ok (tok_text (tok_kind t))" "utf8_ok w"
    and "tok_step (ts, w, n) c = (ts', w', n')"
  shows "(\<forall>t \<in> set ts'. utf8_ok (tok_text (tok_kind t))) \<and> utf8_ok w'"
  using assms by (auto simp: tok_step.simps push_word_def Let_def utf8_ok_append split: if_splits)

lemma tokenize_utf8:
  assumes "utf8_ok s" "t \<in> set (tokenize s)"
  shows "utf8_ok (tok_text (tok_kind t))"
proof -
  have run: "(\<forall>t \<in> set ts'. utf8_ok (tok_text (tok_kind t))) \<and> utf8_ok w'"
    if "\<forall>c \<in> set cs. utf8_ok c" "\<forall>t \<in> set ts. utf8_ok (tok_text (tok_kind t))" "utf8_ok w"
      "foldl tok_step (ts, w, n) cs = (ts', w', n')" for cs ts w n ts' w' n'
    using that
  proof (induction cs arbitrary: ts w n)
    case (Cons c cs)
    obtain ts1 w1 n1 where s: "tok_step (ts, w, n) c = (ts1, w1, n1)" using prod_cases3 by blast
    have c: "utf8_ok c" "\<forall>c \<in> set cs. utf8_ok c" using Cons.prems(1) by simp_all
    have run: "foldl tok_step (ts1, w1, n1) cs = (ts', w', n')" using Cons.prems(4) s by (simp only: foldl_Cons)
    note step = utf8_ok_tok_step [OF c(1) Cons.prems(2,3) s]
    from Cons.IH [OF c(2) step [THEN conjunct1] step [THEN conjunct2] run] show ?case .
  qed simp
  obtain ts w n where L: "foldl tok_step ([], [], 1) (chars s) = (ts, w, n)"
    using prod_cases3 by blast
  from run [OF utf8_ok_chars [OF assms(1)] _ _ L] have "(\<forall>t \<in> set ts. utf8_ok (tok_text (tok_kind t))) \<and> utf8_ok w"
    by simp
  with assms(2) show ?thesis
    unfolding tokenize_def L by (cases "w = []") auto
qed

definition words_in :: "token list \<Rightarrow> bool" where
  "words_in ts \<longleftrightarrow> (\<forall>t \<in> set ts. \<forall>w. tok_kind t = Word w \<longrightarrow> word_text w)"

lemma words_in_tokenize: "utf8_ok s \<Longrightarrow> words_in (tokenize s)"
  unfolding words_in_def
proof (intro ballI allI impI)
  fix t w
  assume s: "utf8_ok s" "t \<in> set (tokenize s)" "tok_kind t = Word w"
  with tokenize_utf8 [OF s(1,2)] tokenize_well_formed [OF s(1,2)] show "word_text w"
    by (simp add: word_text_def)
qed

section \<open>The words the parser takes\<close>

lemma advances_tokens: "advances p q \<Longrightarrow> ps_tokens q = ps_tokens p"
  and keeps_tokens: "keeps p q \<Longrightarrow> ps_tokens q = ps_tokens p"
  by (simp_all add: motion)

named_theorems word_facts \<open>words an operation takes are words of its tokens\<close>

lemma peek_in: "peek p = Some t \<Longrightarrow> t \<in> set (ps_tokens p)"
  by (auto simp: peek_def split: if_splits)

lemma expect_word_text [word_facts]:
  assumes "expect_word p = Inr (w, q)" "words_in (ps_tokens p)"
  shows "word_text w \<and> words_in (ps_tokens q)"
proof
  from assms(1) obtain t where "peek p = Some t" "tok_kind t = Word w"
    by (auto simp: expect_word_def next_token_def split: option.splits token_kind.splits)
  with assms(2) peek_in show "word_text w" by (auto simp: words_in_def)
  show "words_in (ps_tokens q)"
    using advances_tokens [OF expect_word_advances [OF assms(1)]] assms(2) by simp
qed

lemma expect_words [word_facts]: "expect k p = Inr (u, q) \<Longrightarrow> ps_tokens q = ps_tokens p"
  by (rule expect_advances [THEN advances_tokens])

lemma word_text_interpreter: "word_text (default_interpreter ext)"
  by (simp add: word_text_def default_interpreter_def word_ok_ascii special_def)

lemma optional_interpreter_text [word_facts]:
  "optional_interpreter ext p = Inr (w, q) \<Longrightarrow> words_in (ps_tokens p) \<Longrightarrow> word_text w \<and> words_in (ps_tokens q)"
  by (auto simp: optional_interpreter_def word_text_interpreter
      split: option.splits token_kind.splits dest: expect_word_text)

context block_loop begin

lemma loop_invariant_words:
  assumes "loop s p = Inr ((s', c), q)" "words_in (ps_tokens p)"
    and "\<And>d s p s1 q. I s \<Longrightarrow> words_in (ps_tokens p) \<Longrightarrow> directive d s p = Inr (s1, q) \<Longrightarrow> I s1"
  shows "I s \<Longrightarrow> I s'"
  using assms(1,2)
proof (induction rule: loop_run_induct)
  case (step s p d p1 s1 p2 s' q)
  from expect_word_text [OF step.hyps(1) step.prems(2)] have w: "words_in (ps_tokens p1)" by blast
  with advances_tokens [OF directive_moves [OF step.hyps(2)]] have "words_in (ps_tokens p2)" by simp
  with step.IH assms(3) [OF step.prems(1) w step.hyps(2)] show ?case by blast
qed

end

definition location_text :: "location \<Rightarrow> bool" where
  "location_text l \<longleftrightarrow> (\<forall>w \<in> set (location_words l). word_text w)"

lemma location_text_iff:
  "location_text l \<longleftrightarrow> word_text (loc_path l) \<and> (loc_root l = [] \<or> word_text (loc_root l)) \<and>
     (\<forall>w. loc_index l = Some w \<longrightarrow> word_text w) \<and> (\<forall>w. loc_redirect l = Some w \<longrightarrow> word_text w) \<and>
     (\<forall>c. loc_cgi l = Some c \<longrightarrow> word_text (cgi_extension c) \<and> word_text (cgi_interpreter c))"
  by (auto simp: location_text_def location_words_def split: option.split)

lemma cgi_directive_text:
  "cgi_directive p = Inr (c, q) \<Longrightarrow> words_in (ps_tokens p) \<Longrightarrow>
   word_text (cgi_extension c) \<and> word_text (cgi_interpreter c)"
  by (auto simp: cgi_directive_def exec_simps dest!: word_facts)

lemma word_then_semicolon_text:
  assumes "word_then_semicolon f p = Inr (x, q)" "words_in (ps_tokens p)"
  shows "\<exists>w. x = f w \<and> word_text w"
  using assms expect_word_text by (fastforce simp: word_then_semicolon_def exec_simps)

lemma location_directive_text:
  assumes "location_text l" "words_in (ps_tokens p)" "location_directive d l p = Inr (l', q)"
  shows "location_text l'"
  using assms
  by (auto simp: location_directive_def exec_simps location_text_iff split: if_splits
      dest!: word_then_semicolon_text cgi_directive_text)

lemma parse_location_text:
  assumes "parse_location p = Inr (l, q)" "words_in (ps_tokens p)"
  shows "location_text l"
proof -
  from assms(1) obtain path p1 p2 where e: "expect_word p = Inr (path, p1)" "expect LBrace p1 = Inr ((), p2)"
    and loop: "location_loop (empty_location path) p2 = Inr ((l, True), q)"
    by (auto simp: parse_location_def exec_simps split: if_splits)
  from expect_word_text [OF e(1) assms(2)] expect_words [OF e(2)]
  have w: "word_text path" "words_in (ps_tokens p2)" by simp_all
  have "location_text (empty_location path)"
    using w(1) by (simp add: location_text_iff empty_location_def)
  with location_block.loop_invariant_words [OF loop w(2), where I = location_text] location_directive_text
  show ?thesis by blast
qed

definition acc_text :: "server_acc \<Rightarrow> bool" where
  "acc_text a \<longleftrightarrow>
     (\<forall>w. sa_host a = Some w \<longrightarrow> word_text w) \<and> (\<forall>w. sa_name a = Some w \<longrightarrow> word_text w) \<and>
     (\<exists>pages. pages_of pages = sa_error_pages a \<and> (\<forall>e \<in> set pages. word_text (snd e))) \<and>
     (\<forall>l \<in> set (sa_locations a). location_text l)"

lemma pages_of_snoc: "pages_of (pages @ [(k, w)]) = (pages_of pages)(k \<mapsto> w)"
  by (simp add: pages_of_def)

lemma server_directive_text:
  assumes "acc_text a" "words_in (ps_tokens p)" "server_directive d a p = Inr (a', q)"
  shows "acc_text a'"
proof (cases "d = ''error_page''")
  case True
  with assms(3) obtain code p1 path p2 k where "expect_word p = Inr (code, p1)" "expect_word p1 = Inr (path, p2)"
    and a': "a' = a\<lparr>sa_error_pages := (sa_error_pages a)(k \<mapsto> path)\<rparr>"
    by (auto simp: server_directive_def exec_simps)
  with assms(2) expect_word_text have "word_text path" by blast
  moreover from assms(1) obtain pages where "pages_of pages = sa_error_pages a" "\<forall>e \<in> set pages. word_text (snd e)"
    by (auto simp: acc_text_def)
  ultimately have "pages_of (pages @ [(k, path)]) = sa_error_pages a' \<and>
      (\<forall>e \<in> set (pages @ [(k, path)]). word_text (snd e))"
    by (auto simp: pages_of_snoc a')
  then show ?thesis
    using assms(1) unfolding acc_text_def a' by simp (rule exI [of _ "pages @ [(k, path)]"], simp)
next
  case False
  with assms show ?thesis
    by (auto simp: server_directive_def exec_simps acc_text_def split: if_splits
        dest!: word_then_semicolon_text parse_location_text)
qed

text \<open>What is known of the strings of a server, the error pages given as a list.\<close>

definition server_text :: "server_config \<Rightarrow> bool" where
  "server_text s \<longleftrightarrow>
     (\<exists>pages. pages_of pages = srv_error_pages s \<and> (\<forall>w \<in> set (server_words (pages, s)). word_text w))"

lemma parse_server_text:
  assumes "parse_server p = Inr (s, q)" "words_in (ps_tokens p)"
  shows "server_text s"
proof -
  from assms(1) obtain p1 a where e: "expect LBrace p = Inr ((), p1)"
    and loop: "server_loop empty_server p1 = Inr ((a, True), q)"
    and s: "sa_host a = Some (srv_host s)" "sa_name a = srv_name s"
      "sa_error_pages a = srv_error_pages s" "sa_locations a = srv_locations s"
    by (auto simp: parse_server_def exec_simps split: if_splits option.splits)
  from expect_words [OF e] assms(2) have w: "words_in (ps_tokens p1)" by simp
  have "acc_text empty_server"
    by (auto simp: acc_text_def empty_server_def pages_of_def intro!: exI [of _ "[]"])
  with server_block.loop_invariant_words [OF loop w, where I = acc_text] server_directive_text
  have "acc_text a" by blast
  then show ?thesis
    unfolding acc_text_def s server_text_def
    by (auto simp: server_words_def location_text_def split: option.split)
qed

lemma config_loop_text:
  "config_loop ss p = Inr (ss', q) \<Longrightarrow> words_in (ps_tokens p) \<Longrightarrow> \<forall>s \<in> set ss. server_text s \<Longrightarrow>
   \<forall>s \<in> set ss'. server_text s"
proof (induction ss p rule: config_loop.induct)
  case (1 ss p)
  show ?case
  proof (cases "peek p")
    case None
    with "1.prems" show ?thesis by (simp add: config_loop.simps [of ss p])
  next
    case (Some tok)
    with "1.prems"(1) obtain p1 s p2 where e: "expect_word p = Inr (''server'', p1)"
      and ps: "parse_server p1 = Inr (s, p2)" and l: "config_loop (ss @ [s]) p2 = Inr (ss', q)"
      by (auto simp: config_loop.simps [of ss p] exec_simps split: if_splits)
    from expect_word_text [OF e "1.prems"(2)] have w: "words_in (ps_tokens p1)" by blast
    with advances_tokens [OF parse_server_advances [OF ps]] have "words_in (ps_tokens p2)" by simp
    with "1.IH" [OF Some e refl refl ps refl l] "1.prems"(3) parse_server_text [OF ps w] show ?thesis
      by simp
  qed
qed

lemma from_file_text:
  assumes "from_file file = Ret (Inr c)" "s \<in> set (cfg_servers c)"
  shows "server_text s"
proof -
  from assms(1) obtain content where u: "utf8_ok content" and p: "parse_config (new_parser (tokenize content)) = Inr c"
    by (auto simp: from_file_def split: option.splits if_splits sum.splits parse_abort.splits)
  from p obtain q where "config_loop [] (new_parser (tokenize content)) = Inr (cfg_servers c, q)"
    by (auto simp: parse_config_def exec_simps split: if_splits)
  from config_loop_text [OF this] words_in_tokenize [OF u] assms(2) show ?thesis
    by (simp add: new_parser_def)
qed

section \<open>Printing what was loaded\<close>

lemma utf8_ok_location:
  "\<forall>w \<in> set (location_words l). utf8_ok w \<Longrightarrow> k \<in> set (print_location l) \<Longrightarrow> utf8_ok (tok_text k)"
proof -
  have "utf8_ok (method_word m)" for m by (cases m) simp_all
  then show "\<forall>w \<in> set (location_words l). utf8_ok w \<Longrightarrow> k \<in> set (print_location l) \<Longrightarrow> utf8_ok (tok_text k)"
    by (auto simp: location_words_def print_location_def split: if_splits option.splits)
qed

lemma utf8_ok_server:
  assumes "\<forall>w \<in> set (server_words (pages, s)). utf8_ok w" "k \<in> set (print_server pages s)"
  shows "utf8_ok (tok_text k)"
proof -
  have "\<forall>l \<in> set (srv_locations s). \<forall>w \<in> set (location_words l). utf8_ok w"
    and "\<forall>e \<in> set pages. utf8_ok (snd e)" and "utf8_ok (srv_host s)" "\<forall>n. srv_name s = Some n \<longrightarrow> utf8_ok n"
    using assms(1) by (auto simp: server_words_def)
  with assms(2) show ?thesis
    by (auto simp: print_server_def print_error_page_def split: option.splits if_splits intro: utf8_ok_location)
qed

text \<open>
  C13: every configuration the loader accepts can be printed, and loading the printed text gives the
  configuration back: nothing it can hold is out of reach of the configuration language.
\<close>

theorem loaded_reprint:
  assumes "from_file file = Ret (Inr c)"
  shows "\<exists>xs. map snd xs = cfg_servers c \<and> from_file (Some (render (print_config xs))) = Ret (Inr c)"
proof -
  note ok = from_file_loaded [OF assms]
  have "\<forall>s \<in> set (cfg_servers c). \<exists>pages. pages_of pages = srv_error_pages s \<and>
      (\<forall>w \<in> set (server_words (pages, s)). word_text w)"
    using from_file_text [OF assms] by (simp add: server_text_def)
  then obtain f where f: "\<And>s. s \<in> set (cfg_servers c) \<Longrightarrow> pages_of (f s) = srv_error_pages s"
    "\<And>s w. s \<in> set (cfg_servers c) \<Longrightarrow> w \<in> set (server_words (f s, s)) \<Longrightarrow> word_text w"
    by metis
  define xs where "xs = map (\<lambda>s. (f s, s)) (cfg_servers c)"
  have snd_xs: "map snd xs = cfg_servers c" by (simp add: xs_def comp_def)
  have "from_file (Some (render (print_config xs))) = Ret (Inr \<lparr>cfg_servers = map snd xs\<rparr>)"
  proof (rule from_file_render)
    show "xs \<noteq> []" using ok(1) by (simp add: xs_def)
    show "\<forall>x \<in> set xs. printable x"
      using ok(2) f(1) by (auto simp: xs_def printable_def list_all_iff)
    show "\<forall>x \<in> set xs. \<forall>w \<in> set (server_words x). word_ok w"
      using f(2) by (auto simp: xs_def word_text_def)
    show "distinct (map server_key (map snd xs))" using ok(3) by (simp only: snd_xs)
    have u: "\<forall>w \<in> set (server_words (f s, s)). utf8_ok w" if "s \<in> set (cfg_servers c)" for s
      using f(2) [OF that] by (auto simp: word_text_def)
    show "\<forall>k \<in> set (print_config xs). utf8_ok (tok_text k)"
      using utf8_ok_server [OF u] by (auto simp: print_config_def xs_def)
  qed
  with snd_xs show ?thesis by (intro exI [of _ xs]) simp
qed

theorem loaded_reprint_witness:
  "\<exists>c xs. from_file (Some ''server { host h; port 80; location /a { root w; } }'') = Ret (Inr c) \<and>
     map snd xs = cfg_servers c \<and> from_file (Some (render (print_config xs))) = Ret (Inr c)"
proof -
  have "case from_file (Some ''server { host h; port 80; location /a { root w; } }'') of
      Ret (Inr c) \<Rightarrow> True | _ \<Rightarrow> False"
    by (simp add: from_file_def lex_eval parse_eval cong: sum_bind_weak_cong)
  then obtain c where
    "from_file (Some ''server { host h; port 80; location /a { root w; } }'') = Ret (Inr c)"
    by (auto split: exec.splits sum.splits)
  from this loaded_reprint [OF this] show ?thesis by blast
qed

end
