(* ===== verification/Handler_Sessions.thy ===== *)
theory Handler_Sessions
  imports Handler_Correct
begin

text \<open>
  Redirects and logins seen from the client: what is on the wire for a redirected location, and the
  life of a session from the cookie of a login to the refusal after a logout.
\<close>

section \<open>The cookie of a session\<close>

lemma set_show_hex16: "set (show_hex16 n) \<subseteq> digit_char ` {..<16}"
proof -
  have "CHR ''0'' = digit_char 0" by (simp add: digit_char_def)
  then have "set (replicate k CHR ''0'') \<subseteq> digit_char ` {..<16}" for k by auto
  then show ?thesis
    using set_show_radix [of 16 n] by (auto simp: show_hex16_def Let_def)
qed

lemma digit_char_cookie:
  "d < 16 \<Longrightarrow> bval (digit_char d) < 128 \<and> \<not> is_whitespace [digit_char d] \<and>
     digit_char d \<noteq> CHR ''='' \<and> digit_char d \<noteq> CHR '';'' \<and> digit_char d \<noteq> CR \<and> digit_char d \<noteq> LF"
  by (erule less16_cases) (simp_all add: digit_char_def)

lemma generate_id_chars:
  "c \<in> set (generate_id t pid) \<Longrightarrow>
     bval c < 128 \<and> \<not> is_whitespace [c] \<and> c \<noteq> CHR ''='' \<and> c \<noteq> CHR '';'' \<and> c \<noteq> CR \<and> c \<noteq> LF"
  using set_show_hex16 digit_char_cookie by (fastforce simp: generate_id_def)

lemma generate_id_cookie: "cookie_ok (''session_id'', generate_id t pid)"
proof -
  have "ascii (generate_id t pid)"
    using generate_id_chars by (auto simp: ascii_def)
  moreover from this have "no_ws (generate_id t pid)"
    using generate_id_chars by (auto simp: no_ws_def chars_ascii)
  moreover have "generate_id t pid \<noteq> []"
    by (simp add: generate_id_def show_hex16_def Let_def)
  ultimately show ?thesis
    using generate_id_chars by (auto simp: cookie_ok_def no_ws_trimmed trimmed_def [of "''session_id''"])
qed

lemma session_id_cookie:
  assumes "req_headers req ''cookie'' = Some (''session_id='' @ generate_id t pid)"
  shows "session_id req = Some (generate_id t pid)"
proof -
  have "cookies req = [''session_id'' \<mapsto> generate_id t pid]"
    using foldl_cookies [of "[(''session_id'', generate_id t pid)]" Map.empty] generate_id_cookie assms
    by (simp add: cookies_def foldl_cookies_space cookie_pair_def del: split_on.simps)
  then show ?thesis by (simp add: session_id_def)
qed

lemma whoami_response:
  assumes "req_path req = ''/whoami''" "redirect_of req conf = None" "session_id req = Some sid"
    and "get_value (env_now env) sid ''username'' (w_sessions w) = (name, st)"
  shows "build_response env req conf w =
    Some (case name of
        Some n \<Rightarrow> new_response StatusOk ''text/html'' (''<html><body><h1>You are: '' @ n @ ''</h1></body></html>'')
      | None \<Rightarrow> error_response (env_faults env) (w_files w) Forbidden conf,
      w\<lparr>w_sessions := st\<rparr>)"
  using assms by (simp add: build_response_def handle_whoami_def split: option.split)

section \<open>Properties\<close>

text \<open>
  A path whose location is redirected is answered, whatever the method and the session routes
  say, by a 301 with the target in the \<open>Location\<close> field, and the world does not change.
\<close>

lemma redirect_on_the_wire:
  assumes "redirect_of req conf = Some to" "text_ok to"
  shows "\<exists>res h lines. build_response env req conf w = Some (res, w) \<and>
    find_sub separator (serialize_response res) = Some h \<and>
    str_lines (take h (serialize_response res)) = ''HTTP/1.1 301 Moved Permanently'' # lines \<and>
    ''Location: '' @ to \<in> set lines \<and> drop (h + 4) (serialize_response res) = redirect_body to"
proof -
  let ?res = "redirect_response to (redirect_body to)"
  have ok: "response_ok ?res" using assms(2) by blast
  have "head_lines ?res = ''HTTP/1.1 301 Moved Permanently'' # tl (head_lines ?res)"
    "''Location: '' @ to \<in> set (tl (head_lines ?res))" "rsp_body ?res = redirect_body to"
    by (simp_all add: head_lines_def status_text_def redirect_response_def)
  moreover have "str_lines (join_crlf (head_lines ?res)) = head_lines ?res"
    by (rule str_lines_join) (use ok head_lines_ok in blast)
  ultimately show ?thesis
    using response_head_end [OF ok] assms(1)
    by (intro exI [of _ ?res] exI [of _ "length (join_crlf (head_lines ?res))"] exI [of _ "tl (head_lines ?res)"])
      (simp add: build_response_def serialize_join separator_def)
qed

lemma redirect_on_the_wire_instance:
  "\<exists>res h lines. build_response example_env (example_request Post ''/old/x'' []) example_config example_world = Some (res, example_world) \<and>
    find_sub separator (serialize_response res) = Some h \<and>
    str_lines (take h (serialize_response res)) = ''HTTP/1.1 301 Moved Permanently'' # lines \<and>
    ''Location: '' @ ''/new'' \<in> set lines \<and> drop (h + 4) (serialize_response res) = redirect_body ''/new''"
  by (rule redirect_on_the_wire) (simp_all add: redirect_of_def match_location_def longer_def example_defs)

text \<open>
  C21: a login with the right credentials sets a cookie, and a client that sends this cookie back
  within the hour is recognized.
\<close>

theorem login_then_whoami:
  assumes "req_method login = Post" "req_path login = ''/login''" "redirect_of login conf = None"
    and "form_params (req_body login) ''username'' = Some ''admin''"
    and "form_params (req_body login) ''password'' = Some ''secret''"
    and "build_response env login conf w = Some (res, w1)"
    and "sid = generate_id (env_nanos env) (env_pid env)"
    and "req_path who = ''/whoami''" "redirect_of who conf = None"
    and "req_headers who ''cookie'' = Some (''session_id='' @ sid)"
    and "env_now later - env_now env \<le> session_lifetime"
  shows "rsp_cookies res = [''session_id='' @ sid @ ''; HttpOnly; SameSite=Strict''] \<and>
    build_response later who conf w1 =
      Some (new_response StatusOk ''text/html'' ''<html><body><h1>You are: admin</h1></body></html>'', w1)"
proof -
  define st1 where "st1 = (w_sessions w)\<lparr>sessions := (sessions (w_sessions w))(sid \<mapsto> new_session (env_now env))\<rparr>"
  have c: "create (env_nanos env) (env_pid env) (env_now env) (w_sessions w) = (sid, st1)"
    by (simp add: create_def Let_def assms(7) st1_def)
  define s where "s = (new_session (env_now env))\<lparr>ses_data := [''username'' \<mapsto> ''admin'']\<rparr>"
  obtain st2 where st2: "set_value (env_now env) sid ''username'' ''admin'' st1 = (True, st2)"
    "sessions st2 sid = Some s"
    by (simp add: set_value_def get_def evict_def st1_def s_def Let_def) (simp add: new_session_def)
  from assms(1-6) c st2(1) have res: "res = set_cookie
      (new_response StatusOk ''text/html'' ''<html><body><h1>Logged in!</h1></body></html>'') ''session_id'' sid"
    and w1: "w1 = w\<lparr>w_sessions := st2\<rparr>"
    by (simp_all add: build_response_def handle_login_def Let_def)
  have "\<not> is_expired (env_now later) s"
    using assms(11) by (simp add: s_def is_expired_def new_session_def)
  then have "get_value (env_now later) sid ''username'' st2 = (Some ''admin'', st2)"
    using st2(2) by (simp add: get_value_def get_def evict_def Let_def) (simp add: s_def)
  from whoami_response [OF assms(8,9), of sid later w1 "Some ''admin''" st2] this assms(7,10) session_id_cookie
  have "build_response later who conf w1 =
      Some (new_response StatusOk ''text/html'' ''<html><body><h1>You are: admin</h1></body></html>'', w1)"
    by (simp add: w1)
  then show ?thesis by (simp add: res set_cookie_def)
qed

theorem login_then_whoami_witness:
  "let login = example_request Post ''/login'' ''username=admin&password=secret'';
       sid = generate_id 5 7;
       who = (example_request Get ''/whoami'' [])\<lparr>req_headers := [''cookie'' \<mapsto> ''session_id='' @ sid]\<rparr>
   in \<exists>res w1. build_response example_env login example_config example_world = Some (res, w1) \<and>
     rsp_cookies res = [''session_id='' @ sid @ ''; HttpOnly; SameSite=Strict''] \<and>
     build_response (example_env\<lparr>env_now := 100 + session_lifetime\<rparr>) who example_config w1 =
       Some (new_response StatusOk ''text/html'' ''<html><body><h1>You are: admin</h1></body></html>'', w1)"
proof -
  let ?login = "example_request Post ''/login'' ''username=admin&password=secret''"
  let ?who = "(example_request Get ''/whoami'' [])\<lparr>req_headers := [''cookie'' \<mapsto> ''session_id='' @ generate_id 5 7]\<rparr>"
  have r: "redirect_of ?login example_config = None" "redirect_of ?who example_config = None"
    by (simp_all add: redirect_of_def match_location_def longer_def example_defs)
  obtain res w1 where b: "build_response example_env ?login example_config example_world = Some (res, w1)"
    using r(1) by (cases "build_response example_env ?login example_config example_world")
      (auto simp: build_response_def example_request_def split: prod.splits)
  have "form_params (req_body ?login) = [''username'' \<mapsto> ''admin'', ''password'' \<mapsto> ''secret'']"
    by (simp add: form_params_def add_param_def example_request_def)
  with login_then_whoami [OF _ _ r(1) _ _ b refl _ r(2), of "example_env\<lparr>env_now := 100 + session_lifetime\<rparr>"] b
  show ?thesis by (simp add: example_request_def example_env_def Let_def)
qed

text \<open>
  C22: after a logout the cookie of the session is refused: \<open>/whoami\<close> is answered with 403.
\<close>

theorem logout_then_whoami:
  assumes "req_method out = Post" "req_path out = ''/logout''" "redirect_of out conf = None"
    and "session_id out = Some sid" "build_response env out conf w = Some (res, w1)"
    and "req_path who = ''/whoami''" "redirect_of who conf = None" "session_id who = Some sid"
  shows "\<exists>page w2. build_response later who conf w1 = Some (page, w2) \<and> rsp_status page = Forbidden"
proof -
  have w1: "w_sessions w1 = destroy sid (w_sessions w)"
    using assms(1-5) by (auto simp: build_response_def handle_logout_def)
  obtain name st where g: "get_value (env_now later) sid ''username'' (w_sessions w1) = (name, st)"
    by fastforce
  moreover have "name = None"
    using store.look_kill [of "env_now later" sid "''username''" "w_sessions w"] g w1 by simp
  ultimately show ?thesis
    using whoami_response [OF assms(6,7,8) g] by simp
qed

theorem logout_then_whoami_witness:
  "let req = (\<lambda>m p. (example_request m p [])\<lparr>req_headers := [''cookie'' \<mapsto> ''session_id='' @ generate_id 5 7]\<rparr>)
   in \<exists>res w1 page w2. build_response example_env (req Post ''/logout'') example_config example_world = Some (res, w1) \<and>
     build_response example_env (req Get ''/whoami'') example_config w1 = Some (page, w2) \<and>
     rsp_status page = Forbidden"
proof -
  let ?req = "\<lambda>m p. (example_request m p [])\<lparr>req_headers := [''cookie'' \<mapsto> ''session_id='' @ generate_id 5 7]\<rparr>"
  have r: "redirect_of (?req Post ''/logout'') example_config = None" "redirect_of (?req Get ''/whoami'') example_config = None"
    by (simp_all add: redirect_of_def match_location_def longer_def example_defs)
  have s: "session_id (?req m p) = Some (generate_id 5 7)" for m p
    by (rule session_id_cookie) simp
  obtain res w1 where b: "build_response example_env (?req Post ''/logout'') example_config example_world = Some (res, w1)"
    using r(1) by (cases "build_response example_env (?req Post ''/logout'') example_config example_world")
      (auto simp: build_response_def example_request_def split: prod.splits)
  from logout_then_whoami [OF _ _ r(1) s b _ r(2) s, of example_env] b
  show ?thesis by (simp add: example_request_def Let_def)
qed

end
