(* ===== verification/World_Invariant.thy ===== *)
theory World_Invariant
  imports Server_Correct Handler_Sessions
begin

text \<open>
  The invariant of the world the handlers share: the files form a tree under directories, each entry
  under a proper name and listed once, and the session store holds only sessions of the one user
  there is, under generated ids. Every operation of the file system and every handler keeps it, and
  so does every event of a listener.
\<close>

section \<open>Files\<close>

definition name_ok :: "string \<Rightarrow> bool" where
  "name_ok c \<longleftrightarrow> c \<notin> {[], ''.'', ''..''} \<and> CHR ''/'' \<notin> set c \<and> CHR 0x00 \<notin> set c"

definition fs_ok :: "file_system \<Rightarrow> bool" where
  "fs_ok fs \<longleftrightarrow>
     distinct (map fst (fs_entries fs)) \<and> [] \<notin> fst ` set (fs_entries fs) \<and>
     lookup fs (fs_cwd fs) = Some Directory \<and>
     (\<forall>p. p \<noteq> [] \<and> lookup fs p \<noteq> None \<longrightarrow> lookup fs (butlast p) = Some Directory \<and> name_ok (last p))"

lemma fs_okD:
  assumes "fs_ok fs"
  shows "lookup fs (fs_cwd fs) = Some Directory"
    and "p \<noteq> [] \<Longrightarrow> lookup fs p = Some e \<Longrightarrow> lookup fs (butlast p) = Some Directory"
    and "p \<noteq> [] \<Longrightarrow> lookup fs p = Some e \<Longrightarrow> name_ok (last p)"
  using assms by (auto simp: fs_ok_def)

text \<open>A place a path can lead to: a directory, or a proper name in a directory.\<close>

definition place_ok :: "file_system \<Rightarrow> path \<Rightarrow> bool" where
  "place_ok fs l \<longleftrightarrow>
     lookup fs l = Some Directory \<or> (\<exists>d c. l = d @ [c] \<and> lookup fs d = Some Directory \<and> name_ok c)"

lemma split_on_parts: "c \<in> set (split_on d s) \<Longrightarrow> d \<notin> set c \<and> set c \<subseteq> set s"
proof (induction s arbitrary: c)
  case (Cons x s)
  obtain a as where s: "split_on d s = a # as" by (cases "split_on d s") auto
  with Cons.IH have a: "d \<notin> set a" "set a \<subseteq> set s" and as: "\<And>c. c \<in> set as \<Longrightarrow> d \<notin> set c \<and> set c \<subseteq> set s"
    by auto
  with Cons.prems s show ?case by (auto split: if_splits)
qed simp

lemma walk_place:
  assumes "fs_ok fs"
  shows "walk fs cur cs = Inr l \<Longrightarrow> \<forall>c \<in> set cs. CHR ''/'' \<notin> set c \<and> CHR 0x00 \<notin> set c \<Longrightarrow>
    place_ok fs cur \<Longrightarrow> place_ok fs l"
proof (induction cs arbitrary: cur)
  case (Cons c cs)
  from Cons.prems(1) have cur: "lookup fs cur = Some Directory"
    and w: "walk fs (if c = [] \<or> c = ''.'' then cur else if c = ''..'' then butlast cur else cur @ [c]) cs = Inr l"
    by (simp_all only: walk_step)
  have "lookup fs (butlast cur) = Some Directory"
    using fs_okD(2) [OF assms _ cur] by (cases "cur = []") (simp_all add: lookup_def)
  with cur Cons.prems(2) have
    "place_ok fs (if c = [] \<or> c = ''.'' then cur else if c = ''..'' then butlast cur else cur @ [c])"
    by (auto simp: place_ok_def name_ok_def)
  with Cons.IH [OF w] Cons.prems(2) show ?case by simp
qed simp

lemma resolve_place: "fs_ok fs \<Longrightarrow> resolve fs p = Inr l \<Longrightarrow> place_ok fs l"
proof -
  assume ok: "fs_ok fs" and r: "resolve fs p = Inr l"
  then have "walk fs (if hd p = CHR ''/'' then [] else fs_cwd fs) (split_on CHR ''/'' p) = Inr l"
    and "CHR 0x00 \<notin> set p"
    by (auto simp: resolve_def split: if_splits)
  moreover have "place_ok fs (if hd p = CHR ''/'' then [] else fs_cwd fs)"
    using fs_okD(1) [OF ok] lookup_def [of fs "[]"] by (simp add: place_ok_def)
  ultimately show ?thesis
    using walk_place [OF ok] split_on_parts [of _ "CHR ''/''" p] by blast
qed

lemma fs_ok_put:
  assumes "fs_ok fs" "place_ok fs l" "lookup fs l \<noteq> Some Directory"
  shows "fs_ok (put_entry fs l e)"
proof -
  from assms(2,3) obtain d c where l: "l = d @ [c]" "lookup fs d = Some Directory" "name_ok c"
    by (auto simp: place_ok_def)
  have ne: "l \<noteq> []" and "d \<noteq> l" using l(1) by auto
  note look = lookup_put [OF ne, of fs e]
  have dirs: "lookup (put_entry fs l e) m = Some Directory" if "lookup fs m = Some Directory" for m
    using that assms(3) look by auto
  have "fst ` set (fs_entries (put_entry fs l e)) = insert l (fst ` set (fs_entries fs))"
    by (simp add: put_entry_def dom_update)
  moreover have "distinct (map fst (fs_entries (put_entry fs l e)))"
    using assms(1) by (simp add: fs_ok_def put_entry_def distinct_update)
  moreover have "lookup (put_entry fs l e) (butlast p) = Some Directory \<and> name_ok (last p)"
    if "p \<noteq> []" "lookup (put_entry fs l e) p = Some x" for p x
  proof (cases "p = l")
    case True
    with dirs [OF l(2)] l show ?thesis by simp
  next
    case False
    with that look have "lookup fs p = Some x" by simp
    with fs_okD [OF assms(1)] that(1) dirs show ?thesis by blast
  qed
  moreover have "lookup (put_entry fs l e) (fs_cwd fs) = Some Directory"
    using dirs fs_okD(1) [OF assms(1)] by blast
  ultimately show ?thesis
    using assms(1) ne by (auto simp: fs_ok_def put_entry_def)
qed

lemma fs_ok_delete:
  assumes "fs_ok fs" "lookup fs l \<noteq> Some Directory"
  shows "fs_ok (fs\<lparr>fs_entries := AList.delete l (fs_entries fs)\<rparr>)"
proof -
  let ?fs = "fs\<lparr>fs_entries := AList.delete l (fs_entries fs)\<rparr>"
  have dirs: "lookup ?fs m = Some Directory" if "lookup fs m = Some Directory" for m
    using that assms(2) by (auto simp: lookup_delete)
  have "lookup ?fs (butlast p) = Some Directory \<and> name_ok (last p)" if "p \<noteq> []" "lookup ?fs p = Some x" for p x
  proof -
    from that have "lookup fs p = Some x" by (simp add: lookup_delete split: if_splits)
    with fs_okD [OF assms(1)] that(1) dirs show ?thesis by blast
  qed
  moreover have "lookup ?fs (fs_cwd fs) = Some Directory"
    using dirs fs_okD(1) [OF assms(1)] by blast
  moreover have "distinct (map fst (fs_entries ?fs))" "[] \<notin> fst ` set (fs_entries ?fs)"
    using assms(1) by (auto simp: fs_ok_def delete_keys distinct_removeAll set_map [symmetric] simp del: set_map)
  ultimately show ?thesis by (auto simp: fs_ok_def)
qed

lemma fs_ok_mkdir: "mkdir fl p fs = (r, fs') \<Longrightarrow> fs_ok fs \<Longrightarrow> fs_ok fs'"
  by (auto simp: mkdir_def split: if_splits sum.splits option.splits intro!: fs_ok_put resolve_place)

lemma fs_ok_write: "write_file fl p d fs = (r, fs') \<Longrightarrow> fs_ok fs \<Longrightarrow> fs_ok fs'"
  by (auto simp: write_file_def split: if_splits sum.splits option.splits intro!: fs_ok_put resolve_place)

lemma fs_ok_remove: "remove_file fl p fs = (r, fs') \<Longrightarrow> fs_ok fs \<Longrightarrow> fs_ok fs'"
  by (auto simp: remove_file_def split: if_splits sum.splits option.splits entry.splits intro!: fs_ok_delete)

lemma fs_ok_create: "create_dir_all fl p fs = (ok, fs') \<Longrightarrow> fs_ok fs \<Longrightarrow> fs_ok fs'"
proof (induction fl p fs arbitrary: ok fs' rule: create_dir_all.induct)
  case (1 fl p fs)
  obtain r fs1 where m: "mkdir fl p fs = (r, fs1)" by fastforce
  note d = fs_ok_mkdir [OF m "1.prems"(2)]
  consider "p = []" | "p \<noteq> []" "r \<noteq> Some Not_found" | "p \<noteq> []" "r = Some Not_found" "path_parent p = None"
    | q where "p \<noteq> []" "r = Some Not_found" "path_parent p = Some q" by blast
  then show ?case
  proof cases
    case 4
    obtain ok2 fs2 where c: "create_dir_all fl q fs = (ok2, fs2)" by fastforce
    have d2: "fs_ok fs2"
      using "1.IH" [OF 4(1) m [symmetric] 4(2) _ 4(3) c "1.prems"(2)] by simp
    obtain r3 fs3 where m3: "mkdir fl p fs2 = (r3, fs3)" by fastforce
    have "fs' \<in> {fs2, fs3}"
      using "1.prems"(1) 4 m c m3
      by (subst (asm) create_dir_all.simps) (auto split: bool.splits option.splits)
    with d2 fs_ok_mkdir [OF m3 d2] show ?thesis by auto
  qed (use "1.prems" m d in \<open>subst (asm) create_dir_all.simps,
      auto split: option.splits io_error.splits\<close>)+
qed

section \<open>Sessions\<close>

text \<open>Ids are generated, and the only user that ever logs in is the one user.\<close>

definition store_ok :: "session_store \<Rightarrow> bool" where
  "store_ok st \<longleftrightarrow>
     (\<forall>sid s. sessions st sid = Some s \<longrightarrow>
        (\<exists>t pid. sid = generate_id t pid) \<and> ses_data s = [''username'' \<mapsto> ''admin''])"

lemma store_ok_shrinks:
  "store_ok st \<Longrightarrow> (\<And>sid s. sessions st' sid = Some s \<Longrightarrow> sessions st sid = Some s) \<Longrightarrow> store_ok st'"
  unfolding store_ok_def by blast

lemma store_ok_get_value:
  assumes "get_value now sid k st = (v, st')" "store_ok st"
  shows "store_ok st'"
  by (rule store_ok_shrinks [OF assms(2)])
    (use assms(1) in \<open>auto simp: get_value_def get_def evict_def Let_def split: if_splits option.splits prod.splits\<close>)

lemma store_ok_add:
  "store_ok st \<Longrightarrow> ses_data s = [''username'' \<mapsto> ''admin''] \<Longrightarrow>
   store_ok (st\<lparr>sessions := (sessions st)(generate_id t pid \<mapsto> s)\<rparr>)"
  unfolding store_ok_def by auto

lemma store_ok_login: "handle_login env req st = (res, st') \<Longrightarrow> store_ok st \<Longrightarrow> store_ok st'"
  by (auto simp: handle_login_def create_def set_value_def get_def evict_def new_session_def
      is_expired_def Let_def split: if_splits option.splits prod.splits intro!: store_ok_add)

lemma store_ok_logout: "handle_logout req st = (res, st') \<Longrightarrow> store_ok st \<Longrightarrow> store_ok st'"
  by (auto simp: handle_logout_def destroy_def store_ok_def split: option.splits if_splits)

lemma store_ok_whoami: "handle_whoami env req conf fs st = (res, st') \<Longrightarrow> store_ok st \<Longrightarrow> store_ok st'"
  by (auto simp: handle_whoami_def Let_def split: option.splits prod.splits dest: store_ok_get_value)

section \<open>Handlers and events\<close>

definition world_ok :: "world \<Rightarrow> bool" where
  "world_ok w \<longleftrightarrow> fs_ok (w_files w) \<and> store_ok (w_sessions w)"

text \<open>What a script is assumed to leave behind: a file system.\<close>

definition effects_ok :: "environment \<Rightarrow> bool" where
  "effects_ok env \<longleftrightarrow> (\<forall>cmd input fs. fs_ok fs \<longrightarrow> fs_ok (env_effect env cmd input fs))"

lemma fs_ok_post: "handle_post fl req root conf fs = (res, fs') \<Longrightarrow> fs_ok fs \<Longrightarrow> fs_ok fs'"
  by (auto simp: handle_post_def Let_def split: if_splits option.splits prod.splits bool.splits
      dest: fs_ok_create fs_ok_write)

lemma fs_ok_delete_handler: "handle_delete fl req root conf fs = (res, fs') \<Longrightarrow> fs_ok fs \<Longrightarrow> fs_ok fs'"
  by (auto simp: handle_delete_def split: prod.splits bool.splits dest: fs_ok_remove)

lemma world_ok_route:
  assumes "handle_with_route env req conf w = Some (res, w')" "world_ok w" "effects_ok env"
  shows "world_ok w'"
  using assms
  by (auto simp: handle_with_route_def run_cgi_def world_ok_def effects_ok_def Let_def
      split: option.splits if_splits prod.splits dest: fs_ok_post fs_ok_delete_handler)

lemma world_ok_build:
  assumes "build_response env req conf w = Some (res, w')" "world_ok w" "effects_ok env"
  shows "world_ok w'"
proof (cases "handle_with_route env req conf w = Some (res, w')")
  case True
  with assms(2,3) show ?thesis by (blast intro: world_ok_route)
next
  case False
  with assms show ?thesis
    by (auto simp: build_response_def world_ok_def split: option.splits if_splits prod.splits
        dest: store_ok_login store_ok_logout store_ok_whoami)
qed

lemma accept_world: "accept_connections now rs st = Done st' \<Longrightarrow> sv_world st' = sv_world st"
  by (induction now rs st rule: accept_connections.induct)
    (auto simp: epoll_add_def split: if_splits)

lemma world_ok_answer:
  "answer env configs data w = Done (res, w') \<Longrightarrow> world_ok w \<Longrightarrow> effects_ok env \<Longrightarrow> world_ok w'"
  by (auto simp: answer_def Let_def split: exec.splits option.splits intro: world_ok_build)

lemma world_ok_read:
  assumes "handle_read env configs fd rs st = Done st'" "world_ok (sv_world st)" "effects_ok env"
  shows "world_ok (sv_world st')"
proof -
  obtain e b where d: "drain rs (sv_read st fd) = (e, b)" by fastforce
  show ?thesis
  proof (cases "e = Drained \<and> b \<noteq> None")
    case True
    then obtain data where b: "b = Some data" "e = Drained" by blast
    with d assms(1) obtain conf where "limit_config configs data = Ret conf"
      by (auto simp: handle_read_def split: exec.splits)
    with b d assms world_ok_answer show ?thesis
      by (cases "answer env configs data (sv_world st)") (auto simp: handle_read_def split: if_splits)
  next
    case False
    with d assms(1,2) show ?thesis
      by (cases e; cases b) (auto simp: handle_read_def state_defs)
  qed
qed

lemma world_ok_event:
  assumes "handle_event configs listener ev st = Done st'" "world_ok (sv_world st)" "effects_ok (ev_env ev)"
  shows "world_ok (sv_world st')"
  using assms world_ok_read accept_world
  by (auto simp: handle_event_def split: if_splits)

section \<open>Properties\<close>

text \<open>
  C7: the world is well formed after any batch of events when it was before and scripts leave a well
  formed file system: every entry of the file system is in an existing directory under a proper name,
  no path is listed twice, the working directory exists, and every session in the store belongs to
  the one user under an id the generator made.
\<close>

theorem world_stays_ok:
  assumes "handle_events configs listener evs st = Done st'" "world_ok (sv_world st)"
    and "\<forall>ev \<in> set evs. effects_ok (ev_env ev)"
  shows "world_ok (sv_world st')"
  using assms
proof (induction evs arbitrary: st)
  case (Cons ev evs)
  then show ?case
    by (cases "handle_event configs listener ev st") (auto intro: world_ok_event)
qed simp

lemma example_world_ok: "world_ok example_world"
proof -
  have l: "lookup example_files p \<noteq> None \<Longrightarrow> p \<in> {[], [''srv''], [''srv'', ''www''], [''srv'', ''key''], [''srv'', ''www'', ''a.txt'']}" for p
    by (auto simp: lookup_def example_files_def split: if_splits)
  have "fs_ok example_files"
    unfolding fs_ok_def
  proof (intro conjI allI impI)
    fix p
    assume "p \<noteq> [] \<and> lookup example_files p \<noteq> None"
    with l [of p] show "lookup example_files (butlast p) = Some Directory" "name_ok (last p)"
      by (auto simp: lookup_def example_files_def name_ok_def)
  qed (simp_all add: lookup_def example_files_def)
  then show ?thesis
    by (simp add: world_ok_def example_world_def store_ok_def new_store_def)
qed

theorem world_stays_ok_witness:
  "\<exists>st'. handle_events [example_config] 3
       [example_event, example_event\<lparr>ev_fd := 5, ev_reads := [Data example_bytes, Read_would_block]\<rparr>]
       (start 3 example_world) = Done st' \<and> world_ok (sv_world st') \<and> sv_write st' 5 \<noteq> None"
proof -
  let ?st = "(start 3 example_world)\<lparr>sv_open := (\<lambda>fd. fd = 3)(5 := True), sv_sent := (\<lambda>_. [])(5 := []),
    sv_watch := [3 \<mapsto> Readable, 5 \<mapsto> Readable], sv_read := [5 \<mapsto> []], sv_times := [5 \<mapsto> 0]\<rparr>"
  have a: "handle_event [example_config] 3 example_event (start 3 example_world) = Done ?st"
    by (simp add: handle_event_def example_event_def epoll_add_def start_def)
  have "length example_bytes \<le> srv_max_body example_config"
    by (simp add: example_bytes_def render_request_def request_line_def header_line_def example_config_def)
  then obtain st' where s: "handle_read example_env [example_config] 5 (map Data [example_bytes] @ [Read_would_block]) ?st = Done st'"
    and wr: "sv_write st' = (sv_write ?st)(5 \<mapsto> serialize_response (new_response StatusOk ''text/plain'' ''hello''))"
    using serve_request [of ?st 5 "[]" "[example_bytes]" example_get "[example_config]" example_config example_env
        "new_response StatusOk ''text/plain'' ''hello''" example_world]
    by (auto simp: example_parse example_match start_def example_served)
  let ?evs = "[example_event, example_event\<lparr>ev_fd := 5, ev_reads := [Data example_bytes, Read_would_block]\<rparr>]"
  have run: "handle_events [example_config] 3 ?evs (start 3 example_world) = Done st'"
    using s by (simp add: a) (simp add: handle_event_def example_event_def)
  have "world_ok (sv_world st')"
    by (rule world_stays_ok [OF run])
      (simp_all add: start_def example_world_ok effects_ok_def example_event_def example_env_def)
  with run wr show ?thesis by auto
qed

end
