(* ===== verification/Handler_Replies.thy ===== *)
theory Handler_Replies
  imports Config_Words World_Invariant
begin

text \<open>
  The replies of a loaded configuration: whatever the request, a reply that no script made has a head
  that the request and the files cannot add lines to; and which pages the error replies carry.
\<close>

section \<open>Words and heads\<close>

text \<open>An ASCII byte of a well-formed string is a character by itself.\<close>

lemma ascii_byte_char: "utf8_ok s \<Longrightarrow> x \<in> set s \<Longrightarrow> bval x < 128 \<Longrightarrow> [x] \<in> set (chars s)"
proof (induction s rule: utf8_ok.induct)
  case 1
  then show ?case by simp
next
  case (2 a s)
  obtain ok n where c: "utf8_chunk (a # s) = (ok, n)" by fastforce
  with "2.prems"(1) have ok: ok and t: "utf8_ok (drop n (a # s))" by (simp_all add: utf8_ok.simps(2))
  with c have n: "n = utf8_width a" by (metis utf8_chunk_width)
  have whole: "chars (a # s) = take n (a # s) # chars (drop n (a # s))"
    by (simp add: chars.simps(2) n)
  have "set (a # s) = set (take n (a # s)) \<union> set (drop n (a # s))"
    by (metis append_take_drop_id set_append)
  with "2.prems"(2) consider "x \<in> set (drop n (a # s))" | "x \<in> set (take n (a # s))" by blast
  then show ?case
  proof cases
    case 1
    with "2.IH" [OF c [symmetric] t] "2.prems"(3) show ?thesis by (simp add: whole)
  next
    case 2
    have "n = 1 \<or> (\<forall>y \<in> set (take n (a # s)). 128 \<le> bval y)"
      using c ok
      by (auto simp: utf8_chunk.simps(2) Let_def is_cont_def second3_ok_def second4_ok_def
          split: if_splits list.splits)
    with 2 "2.prems"(3) have "n = 1" by force
    with 2 show ?thesis by (simp add: whole)
  qed
qed

lemma word_text_ok:
  assumes "word_text w"
  shows "text_ok w"
proof -
  have "x \<notin> set w" if "x \<in> {CR, LF}" for x
  proof
    assume "x \<in> set w"
    moreover have "bval x < 128" "special [x]" using that by (auto simp: special_def)
    ultimately show False
      using ascii_byte_char [of w x] assms by (auto simp: word_text_def word_ok_def)
  qed
  then show ?thesis by (simp add: text_ok_def)
qed

lemma match_location_in:
  assumes "match_location p conf = Some loc"
  shows "loc \<in> set (srv_locations conf)"
proof -
  let ?ls = "filter (\<lambda>loc. prefix (loc_path loc) p) (srv_locations conf)"
  from assms have "?ls \<noteq> []" by (auto simp: match_location_def)
  from foldl_longer_split [OF this] assms have "loc \<in> set ?ls"
    unfolding match_location_def by (metis in_set_conv_decomp option.inject)
  then show ?thesis by simp
qed

lemma redirect_text:
  assumes "server_text conf" "redirect_of req conf = Some to"
  shows "text_ok to"
proof -
  from assms(2) obtain loc where m: "match_location (req_path req) conf = Some loc" and "loc_redirect loc = Some to"
    by (auto simp: redirect_of_def split: option.splits)
  with match_location_in [OF m] assms(1) have "word_text to"
    by (force simp: server_text_def server_words_def location_words_def)
  then show ?thesis by (rule word_text_ok)
qed

section \<open>Every reply is well formed\<close>

lemma response_ok_error [simp, intro]: "response_ok (error_response fl fs s conf)"
  by (auto simp: error_response_def split: option.split)

lemma text_ok_type: "text_ok (get_content_type p)"
  by (simp add: get_content_type_def)

lemma response_ok_file: "response_ok (serve_file fl fs p root conf)"
  by (auto simp: serve_file_def serve_directory_def Let_def text_ok_type split: option.split entry.split)

lemma response_ok_post: "handle_post fl req root conf fs = (res, fs') \<Longrightarrow> response_ok res"
  by (auto simp: handle_post_def Let_def split: if_splits option.splits prod.splits bool.splits)

lemma response_ok_delete: "handle_delete fl req root conf fs = (res, fs') \<Longrightarrow> response_ok res"
  by (auto simp: handle_delete_def split: prod.splits bool.splits)

lemma text_ok_id: "text_ok (generate_id t pid)"
  using generate_id_chars by (auto simp: text_ok_def)

lemma response_ok_login: "handle_login env req st = (res, st') \<Longrightarrow> response_ok res"
  by (auto simp: handle_login_def create_def Let_def text_ok_id split: if_splits prod.splits)

lemma response_ok_logout: "handle_logout req st = (res, st') \<Longrightarrow> response_ok res"
  by (auto simp: handle_logout_def)

lemma response_ok_whoami: "handle_whoami env req conf fs st = (res, st') \<Longrightarrow> response_ok res"
  by (auto simp: handle_whoami_def Let_def split: option.splits prod.splits)

lemma response_ok_build:
  assumes "server_text conf" "build_response env req conf w = Some (res, w')"
    and "\<And>loc. match_location (req_path req) conf = Some loc \<Longrightarrow> find_cgi (req_path req) loc = None"
  shows "response_ok res"
proof (cases "redirect_of req conf")
  case (Some to)
  with assms(2) redirect_text [OF assms(1) Some] show ?thesis by (auto simp: build_response_def)
next
  case None
  have "response_ok res" if "handle_with_route env req conf w = Some (res, w')"
    using that assms(3)
    by (auto simp: handle_with_route_def Let_def response_ok_file split: option.splits if_splits prod.splits
        intro: response_ok_post response_ok_delete)
  with None assms(2) show ?thesis
    by (auto simp: build_response_def split: if_splits prod.splits
        intro: response_ok_login response_ok_logout response_ok_whoami)
qed

section \<open>The entries of a directory\<close>

lemma set_children:
  assumes "fs_ok fs"
  shows "set (children fs l) = {(n, e). lookup fs (l @ [n]) = Some e}"
proof -
  have "(n, e) \<in> set (children fs l) \<longleftrightarrow> (l @ [n], e) \<in> set (fs_entries fs)" for n e
  proof
    assume "(n, e) \<in> set (children fs l)"
    then obtain p where "(p, e) \<in> set (fs_entries fs)" "p \<noteq> []" "butlast p = l" "last p = n"
      by (auto simp: children_def List.map_filter_def split: if_splits)
    then show "(l @ [n], e) \<in> set (fs_entries fs)" by (metis append_butlast_last_id)
  qed (force simp: children_def List.map_filter_def)
  moreover have "(l @ [n], e) \<in> set (fs_entries fs) \<longleftrightarrow> lookup fs (l @ [n]) = Some e" for n e
    using assms by (simp add: lookup_def fs_ok_def)
  ultimately show ?thesis by auto
qed

lemma distinct_children: "fs_ok fs \<Longrightarrow> distinct (map fst (children fs l))"
proof -
  assume "fs_ok fs"
  then have d: "distinct (map fst (fs_entries fs))" by (simp add: fs_ok_def)
  have "distinct (map fst es) \<Longrightarrow> distinct (map fst (List.map_filter
      (\<lambda>(p, e). if p \<noteq> [] \<and> butlast p = l then Some (last p, e) else None) es))" for es :: "(path \<times> entry) list"
  proof (induction es)
    case (Cons x es)
    obtain p e where x: "x = (p, e)" by fastforce
    show ?case
    proof (cases "p \<noteq> [] \<and> butlast p = l")
      case True
      have "last p \<notin> fst ` set (List.map_filter
          (\<lambda>(p, e). if p \<noteq> [] \<and> butlast p = l then Some (last p, e) else None) es)"
      proof
        assume "last p \<in> fst ` set (List.map_filter
          (\<lambda>(p, e). if p \<noteq> [] \<and> butlast p = l then Some (last p, e) else None) es)"
        then obtain q e' where "(q, e') \<in> set es" "q \<noteq> []" "butlast q = l" "last q = last p"
          by (auto simp: List.map_filter_def split: if_splits)
        with True have "(p, e') \<in> set es" by (metis append_butlast_last_id)
        with Cons.prems x show False by force
      qed
      with True Cons x show ?thesis by (simp add: List.map_filter_simps)
    next
      case False
      with Cons x show ?thesis by (auto simp: List.map_filter_simps)
    qed
  qed (simp add: List.map_filter_simps)
  with d show ?thesis by (simp add: children_def)
qed

lemma insort_key_map:
  "(\<And>x. f (g x) = h x) \<Longrightarrow> insort_key f (g x) (map g xs) = map g (insort_key h x xs)"
  by (induction xs) auto

lemma sort_key_map: "(\<And>x. f (g x) = h x) \<Longrightarrow> sort_key f (map g xs) = map g (sort_key h xs)"
  by (induction xs) (simp_all add: insort_key_map)

section \<open>Properties\<close>

text \<open>
  C8: a reply of a server of a loaded configuration that no script made is well formed on the wire,
  whatever the request, the files and the sessions hold: its first empty line ends a head that has
  exactly the status line, the type, the length, the redirect target and the cookies of the response,
  and nothing a client or a file supplied can add a line to it; the length read back from the head
  by the header rules of the server is the number of bytes that follow.
\<close>

theorem replies_well_formed:
  assumes "from_file file = Ret (Inr c)" "conf \<in> set (cfg_servers c)"
    and "build_response env req conf w = Some (res, w')"
    and "\<And>loc. match_location (req_path req) conf = Some loc \<Longrightarrow> find_cgi (req_path req) loc = None"
  shows "\<exists>h. find_sub separator (serialize_response res) = Some h \<and>
    str_lines (take h (serialize_response res)) = head_lines res \<and>
    parse_headers (tl (head_lines res)) ''content-length'' =
      Some (show_nat (length (drop (h + 4) (serialize_response res)))) \<and>
    drop (h + 4) (serialize_response res) = rsp_body res"
proof -
  have "response_ok res"
    using response_ok_build [OF from_file_text [OF assms(1,2)] assms(3)] assms(4) by blast
  note wire = response_on_the_wire [OF this]
  show ?thesis
    by (rule exI [of _ "length (join_crlf (head_lines res))"])
      (simp only: wire parse_head_lines_length simp_thms)
qed

theorem replies_well_formed_witness:
  "\<exists>c conf h. from_file (Some ''server { host h; port 80; location / { redirect /new; } }'') = Ret (Inr c) \<and>
     conf \<in> set (cfg_servers c) \<and>
     find_sub separator (serialize_response (redirect_response ''/new'' (redirect_body ''/new''))) = Some h \<and>
     str_lines (take h (serialize_response (redirect_response ''/new'' (redirect_body ''/new'')))) =
       head_lines (redirect_response ''/new'' (redirect_body ''/new''))"
proof -
  let ?file = "Some ''server { host h; port 80; location / { redirect /new; } }''"
  let ?req = "example_request Get ''/a'' []"
  let ?res = "redirect_response ''/new'' (redirect_body ''/new'')"
  have "case from_file ?file of Ret (Inr c) \<Rightarrow> \<exists>conf \<in> set (cfg_servers c).
      srv_locations conf = [(empty_location ''/'')\<lparr>loc_redirect := Some ''/new''\<rparr>] | _ \<Rightarrow> False"
    by (simp add: from_file_def lex_eval parse_eval cong: sum_bind_weak_cong)
  then obtain c conf where c: "from_file ?file = Ret (Inr c)" "conf \<in> set (cfg_servers c)"
    and l: "srv_locations conf = [(empty_location ''/'')\<lparr>loc_redirect := Some ''/new''\<rparr>]"
    by (auto split: exec.splits sum.splits)
  have "build_response example_env ?req conf example_world = Some (?res, example_world)"
    by (simp add: build_response_def redirect_of_def match_location_def l longer_def example_request_def empty_location_def)
  from replies_well_formed [OF c this] c show ?thesis
    by (auto simp: match_location_def l longer_def example_request_def empty_location_def find_cgi_def)
qed

text \<open>
  C23: a GET of a directory without an index file, in a location with autoindex, is answered with the
  listing page whose rows are the entries of the directory: all of them, each once, ordered by name,
  with their sizes.
\<close>

theorem directory_listing:
  assumes "routed Get req conf loc" "loc_autoindex loc" "env_faults env = no_faults" "fs_ok (w_files w)"
    and "resolve (w_files w) (loc_root loc @ req_path req) = Inr l" "lookup (w_files w) l = Some Directory"
    and "read_file no_faults (w_files w)
      (trim_end_matches CHR ''/'' (loc_root loc @ req_path req) @ ''/index.html'') = None"
  shows "\<exists>es. sorted (map fst es) \<and> distinct (map fst es) \<and>
    set es = {(n, e). lookup (w_files w) (l @ [n]) = Some e} \<and>
    build_response env req conf w = Some (new_response StatusOk ''text/html''
      (listing_page (req_path req) (parent_row (req_path req) @
         concat (map (\<lambda>(n, e). entry_row (req_path req) (n, Some e)) es))), w)"
proof -
  let ?fs = "w_files w"
  let ?cs = "children ?fs l"
  define es where "es = sort_key fst ?cs"
  have "sort_key fst (map (\<lambda>(n, e). (n, Some e)) ?cs) = map (\<lambda>(n, e). (n, Some e)) es"
    unfolding es_def by (rule sort_key_map) auto
  moreover have "read_dir no_faults ?fs (loc_root loc @ req_path req) = Some (map (\<lambda>(n, e). (n, Some e)) ?cs)"
    using assms(5,6) by (simp add: read_dir_def no_faults_def)
  moreover have "metadata no_faults ?fs (loc_root loc @ req_path req) = Some Directory"
    using assms(5,6) by (simp add: metadata_def no_faults_def)
  moreover have "match_location (req_path req) conf = Some loc"
    using assms(1) by (simp add: routed_def)
  ultimately have "build_response env req conf w = Some (new_response StatusOk ''text/html''
      (listing_page (req_path req) (parent_row (req_path req) @
         concat (map (\<lambda>(n, e). entry_row (req_path req) (n, Some e)) es))), w)"
    using assms(2,3,7)
    by (simp add: routed_response(1) [OF assms(1)] serve_file_def serve_directory_def comp_def split_def)
  moreover have "sorted (map fst es)" "distinct (map fst es)" "set es = set ?cs"
    using distinct_children [OF assms(4), of l] by (simp_all add: es_def distinct_map inj_on_def)
  ultimately show ?thesis using set_children [OF assms(4), of l] by blast
qed

theorem directory_listing_witness:
  "\<exists>es. sorted (map fst es) \<and> (''a.txt'', File ''hello'') \<in> set es \<and>
    build_response example_env (example_request Get ''/'' [])
      (example_config\<lparr>srv_locations := [example_location\<lparr>loc_autoindex := True\<rparr>]\<rparr>) example_world =
    Some (new_response StatusOk ''text/html''
      (listing_page ''/'' (parent_row ''/'' @ concat (map (\<lambda>(n, e). entry_row ''/'' (n, Some e)) es))), example_world)"
proof -
  let ?loc = "example_location\<lparr>loc_autoindex := True\<rparr>"
  let ?conf = "example_config\<lparr>srv_locations := [?loc]\<rparr>"
  let ?req = "example_request Get ''/'' []"
  have "routed Get ?req ?conf ?loc"
    by (simp add: routed_def example_defs match_location_def longer_def is_method_allowed_def find_cgi_def)
  moreover have "resolve example_files ''www/'' = Inr [''srv'', ''www'']"
    by (simp add: resolve_def example_files_def lookup_def)
  moreover have "read_file no_faults example_files (trim_end_matches CHR ''/'' ''www/'' @ ''/index.html'') = None"
    by code_simp
  moreover have "fs_ok example_files"
    using example_world_ok by (simp add: world_ok_def example_world_def)
  moreover have "lookup example_files [''srv'', ''www''] = Some Directory"
    "lookup example_files [''srv'', ''www'', ''a.txt''] = Some (File ''hello'')"
    by (simp_all add: example_files_def lookup_def)
  ultimately show ?thesis
    using directory_listing [of ?req ?conf ?loc example_env example_world "[''srv'', ''www'']"]
    by (simp add: example_request_def example_location_def example_env_def example_world_def) blast
qed

end
