(* ===== verification/Connection.thy ===== *)
theory Connection
  imports Server_Correct
begin

text \<open>
  One connection seen on its own: an abstract life cycle in which a connection receives one request,
  sends one response and is over, and the simulation that every step of the event loop is a step of
  that life cycle, or none, for each connection. There is no way back from sending to receiving: the
  server has no keep-alive.
\<close>

section \<open>The life cycle\<close>

datatype conn_phase = Off | Receiving bytes | Sending bytes

inductive conn_step :: "conn_phase \<Rightarrow> conn_phase \<Rightarrow> bool" where
  conn_accept: "conn_step Off (Receiving [])"
| conn_answer: "conn_step (Receiving b) (Sending (serialize_response res))"
| conn_lost: "conn_step (Receiving b) Off"
| conn_send: "suffix left data \<Longrightarrow> left \<noteq> [] \<Longrightarrow> conn_step (Sending data) (Sending left)"
| conn_close: "conn_step (Sending data) Off"

inductive_simps conn_step_from_sending: "conn_step (Sending data) c"

text \<open>The phase of a descriptor: what it is watched for, with the buffer of that direction.\<close>

definition bytes_of :: "bytes option \<Rightarrow> bytes" where
  "bytes_of b = (case b of Some d \<Rightarrow> d | None \<Rightarrow> [])"

lemma bytes_of_Some [simp]: "bytes_of (Some d) = d"
  by (simp add: bytes_of_def)

fun phase_of :: "interest option \<Rightarrow> bytes option \<Rightarrow> bytes option \<Rightarrow> conn_phase" where
  "phase_of None r w = Off"
| "phase_of (Some Readable) r w = Receiving (bytes_of r)"
| "phase_of (Some Writable) r w = Sending (bytes_of w)"

definition phase :: "server_state \<Rightarrow> fd \<Rightarrow> conn_phase" where
  "phase st fd = phase_of (sv_watch st fd) (sv_read st fd) (sv_write st fd)"

lemma phase_same:
  "sv_watch st' fd = sv_watch st fd \<Longrightarrow> sv_read st' fd = sv_read st fd \<Longrightarrow> sv_write st' fd = sv_write st fd \<Longrightarrow>
   phase st' fd = phase st fd"
  by (simp add: phase_def)



section \<open>The simulation\<close>







section \<open>Properties\<close>



end
