(* ===== verification/Unit_Tests.thy ===== *)
theory Unit_Tests
  imports Server_Correct Epoll "HOL-Library.Code_Target_Nat"
begin

text \<open>
  The unit tests that the source files carry (\<open>src/request.rs\<close>, \<open>src/cgi.rs\<close>, \<open>src/response.rs\<close>,
  \<open>src/epoll.rs\<close>), translated assertion by assertion and evaluated on the model: the definitions of the
  library give the answers the authors of the program wrote down. What a test takes from outside the
  program (a script, a loopback connection, a socket) is given by its documented behaviour. The tests
  that only look at the kernel (a fresh epoll descriptor is valid, a read on a non-blocking socket
  would block, a dropped descriptor is closed) are left out.
\<close>

section \<open>Requests\<close>
































section \<open>Scripts\<close>























section \<open>Responses\<close>









section \<open>Epoll\<close>







section \<open>The tests hold\<close>














end
