(* ===== verification/Spec2Isabelle.thy ===== *)
theory Spec2Isabelle
  imports Process Chunk_Reference Handler_Replies Epoll_Refines Connection Unit_Tests
begin

text \<open>
  A verification library for an HTTP server: one process that reads a configuration file, starts a
  listener thread per address, and serves files, uploads, deletions, directory listings, redirects,
  CGI scripts and a small login over an epoll event loop. The theories follow the source files; each
  definition carries the name of the function it translates where Isabelle allows it. Strings are
  lists of UTF-8 bytes, as in Rust; \<open>usize\<close> is a natural number below 2^64 with the overflow of
  each sum that can reach the bound written out.

  \<^bold>\<open>Foundations.\<close> \<open>Prelude\<close>: computations that may panic (\<open>exec\<close>), errors as sums, checked and wrapping
  arithmetic, slices, substring search, numbers in a radix. \<open>Rust_Str\<close>: the string functions of the
  standard library the program calls (\<open>trim\<close>, \<open>lines\<close>, \<open>split\<close>, \<open>to_lowercase\<close>,
  \<open>from_utf8_lossy\<close>, \<dots>). \<open>Http_Text\<close>: heads of CR LF lines and the empty line that ends them.
  \<open>to_lowercase\<close> maps ASCII letters and the two other characters whose lower case contains an ASCII
  letter; other letters are left alone, which no comparison in the program can tell.

  \<^bold>\<open>Configuration.\<close> \<open>Tokenizer\<close> (\<open>config/tokenizer.rs\<close>), \<open>Config_Types\<close> (the types and sizes of
  \<open>config/mod.rs\<close>), \<open>Config_Parser\<close> (\<open>config/parser.rs\<close>, \<open>config/errors.rs\<close>; the loops over blocks
  are recursive because every directive advances the parser, which the locale \<open>block_loop\<close> uses),
  \<open>Config_Roundtrip\<close> (parsing inverts printing, and what every parsed configuration satisfies),
  \<open>Config_Load\<close> (\<open>Config::from_file\<close> and the grouping of servers in \<open>main.rs\<close>), \<open>Config_Words\<close> (where
  the strings of a loaded configuration come from, and that it can be printed and loaded again).

  \<^bold>\<open>HTTP.\<close> \<open>Request\<close> (\<open>request.rs\<close>; \<open>decode_chunked\<close> in its two build profiles, \<open>parse\<close>, cookies),
  \<open>Response\<close> (\<open>response.rs\<close> and \<open>serialize_response\<close> of \<open>server.rs\<close>). Their lemmas are round trips
  with rendering functions, and the inputs on which parsing panics. \<open>Chunk_Reference\<close> has a second
  decoder for chunked bodies without positions, equivalent to the code's in both profiles, and from it
  the exact situation in which an event makes a thread panic.

  \<^bold>\<open>State.\<close> \<open>Session\<close> (\<open>utils/session.rs\<close>; the locale \<open>session_contract\<close> states the store as a map of
  live sessions and is interpreted on the model), \<open>Files\<close> (what the handlers use of \<open>std::fs\<close> and
  \<open>std::path\<close>; the locale \<open>file_store\<close> states reading, writing and removing by place, and is
  interpreted on the model for any faults of the system).

  \<^bold>\<open>Handlers.\<close> \<open>Cgi\<close> (\<open>cgi.rs\<close>; the child process is a parameter), \<open>Handler\<close> (\<open>handler.rs\<close>),
  \<open>Handler_Correct\<close> (locations, uploads and downloads, what a request may change, what a path may
  reach), \<open>Handler_Sessions\<close> (redirects and logins as the client sees them), \<open>World_Invariant\<close> (the
  files stay a tree under proper names and the sessions those of the one user), \<open>Handler_Replies\<close>
  (every reply is well formed on the wire; directory listings).

  \<^bold>\<open>Event loop.\<close> \<open>Server\<close> (\<open>server.rs\<close> and \<open>epoll.rs\<close>): the maps of \<open>Server::run\<close>, the interest list
  and the open descriptors as one state, and one function per handler; what the kernel answers to
  \<open>accept\<close>, \<open>read\<close> and \<open>write\<close> is part of an event. \<open>Server_Correct\<close>: a step relation over this state, its
  reachable states and their invariant, and what each event does. \<open>Epoll\<close> is the wrapper itself on
  machine words, over the kernel interface as documented, with \<open>set_nonblocking\<close>; \<open>Epoll_Refines\<close>
  shows that its operations are those the loop's interest list has.

  \<^bold>\<open>Process.\<close> \<open>Process\<close> (\<open>main.rs\<close>): the start from the command line to the listener threads, and the
  threads as a step relation over the shared files, sessions and descriptors. A step is the timeout
  check or one event of one thread, so handlers of different threads do not interleave inside an
  event. What one thread closes leaves the interest lists of the others, as in the kernel.

  \<^bold>\<open>The whole.\<close> \<open>Connection\<close>: one connection on its own, receiving one request, sending one response,
  then over; every run of the event loop is a run of this life cycle for each connection.
  \<open>Unit_Tests\<close>: the unit tests the source files carry, translated and evaluated on the model.
  This theory: a request followed from the wire through parser, host, handler and serializer to the
  wire.

  \<^bold>\<open>Termination.\<close> No fuel is used: the chunk decoder consumes its buffer, the configuration loops their
  tokens, \<open>create_dir_all\<close> shortens its path and the CGI polling loop its remaining time, at least
  10 ms an iteration. \<open>Server::run\<close> loops for ever by design; its model runs a given list of
  iterations. A write to a script that never reads it blocks for ever; the model says so
  (\<open>run\<close> is \<^const>\<open>None\<close>).

  \<^bold>\<open>Not modelled.\<close> Log output; the joining of threads; two handlers at work at the same moment;
  symbolic links and special files; a system clock set before 1970; which events \<open>epoll_wait\<close> delivers
  and when. What the operating system may refuse is left open by the \<open>faults\<close> of the file system and
  the results inside events, and a failure of \<open>epoll_wait\<close> ends the loop. The end-to-end tests, the
  tests of the configuration and the stand-alone example under \<open>examples\<close> are left out.
\<close>

section \<open>From the wire to the wire\<close>



end
